theory Spec2Isabelle
  imports Complex_Main "HOL-Library.Word" "HOL-Library.Sublist" "HOL-Library.Log_Nat"
begin

unbundle bit_operations_syntax

section \<open>picam\_bench: C data and library primitives\<close>

text \<open>
  The program is \<^verbatim>\<open>src/picam_bench.c\<close>. C \<^verbatim>\<open>int\<close> and \<^verbatim>\<open>pid_t\<close> are 32-bit words read
  with \<open>sint\<close>; \<^verbatim>\<open>unsigned long long\<close> is a 64-bit word whose \<open>+\<close> and \<open>-\<close> wrap;
  a C string is a \<open>string\<close> (the bytes before the terminating NUL). A \<^verbatim>\<open>double\<close> is
  modelled by the rational number it holds: infinities, NaN and the sign of zero are
  outside the model, and each conversion to \<^verbatim>\<open>double\<close> and each operation on doubles
  rounds its exact result with \<open>to_double\<close>.
\<close>

type_synonym c_int = "32 word"
type_synonym u32 = "32 word"
type_synonym u64 = "64 word"

datatype source_t = SRC_AUTO | SRC_CSI | SRC_USBNODE

datatype encode_t = ENC_AUTO | ENC_SOFTWARE | ENC_HARDWARE

record ctx_t =
  tmpdir :: string
  fifo_path :: string
  stats_path :: string
  cam_pid :: c_int
  prev_pid :: c_int
  prev_stderr_fd :: c_int
  running :: c_int
  overlay_disabled :: c_int
  width :: c_int
  height :: c_int
  fps :: c_int
  bitrate :: c_int

record fmt_support_t =
  h264 :: c_int
  mjpg :: c_int
  yuyv :: c_int

subsection \<open>printf conversions\<close>

definition digit_char :: "nat \<Rightarrow> char" where
  "digit_char d = ''0123456789'' ! d"

fun show_nat :: "nat \<Rightarrow> string" where
  "show_nat n = (if n < 10 then [digit_char n] else show_nat (n div 10) @ [digit_char (n mod 10)])"

declare show_nat.simps [simp del]

text \<open>\<^verbatim>\<open>%d\<close> of a C int.\<close>

definition show_int :: "int \<Rightarrow> string" where
  "show_int i = (if i < 0 then CHR ''-'' # show_nat (nat (- i)) else show_nat (nat i))"

definition fmt_d :: "c_int \<Rightarrow> string" where
  "fmt_d v = show_int (sint v)"

text \<open>
  \<^verbatim>\<open>snprintf(buf, size, ...)\<close> keeps at most \<open>size - 1\<close> bytes of the formatted text.
\<close>

definition snprintf :: "nat \<Rightarrow> string \<Rightarrow> string" where
  "snprintf n s = take (n - 1) s"

subsection \<open>Character classes and the integer conversions of scanf\<close>

text \<open>
  \<^verbatim>\<open>isspace\<close> in the C locale, and the value of a decimal digit: its place among the ten
  digits.
\<close>

definition isspace :: "char \<Rightarrow> bool" where
  "isspace c = (c \<in> set [CHR '' '', CHR 0x09, CHR 0x0A, CHR 0x0B, CHR 0x0C, CHR 0x0D])"

definition digit_of :: "char \<Rightarrow> nat option" where
  "digit_of c =
     (case dropWhile (\<lambda>d. d \<noteq> c) ''0123456789'' of
        [] \<Rightarrow> None
      | r \<Rightarrow> Some (10 - length r))"

text \<open>
  The conversions \<^verbatim>\<open>%llu\<close> and \<^verbatim>\<open>%ld\<close> of \<^verbatim>\<open>sscanf\<close>, which the C library performs as
  \<^verbatim>\<open>strtoull\<close> and \<^verbatim>\<open>strtol\<close> do: white space is skipped, one sign may follow, then the
  decimal digits are read; with no digit there the conversion fails. \<open>scan_number\<close>
  yields the sign, the value of the digits and the text behind them. \<^verbatim>\<open>%llu\<close> stores the
  value as a 64-bit word, negated after a minus sign, and \<^verbatim>\<open>ULLONG_MAX\<close> when the digits
  exceed it; \<^verbatim>\<open>%ld\<close> stores it in a \<^verbatim>\<open>long\<close>, taken to be 64 bits wide, and saturates at
  \<^verbatim>\<open>LONG_MAX\<close> and \<^verbatim>\<open>LONG_MIN\<close>. \<^verbatim>\<open>sscanf\<close> stops at the first conversion that fails:
  \<open>scan_llus n s\<close> are the values stored by \<open>n\<close> consecutive \<^verbatim>\<open>%llu\<close>, in order.
\<close>

definition scan_sign :: "string \<Rightarrow> bool \<times> string" where
  "scan_sign s =
     (case s of
        [] \<Rightarrow> (False, [])
      | c # r \<Rightarrow> if c = CHR ''-'' then (True, r) else if c = CHR ''+'' then (False, r)
                 else (False, s))"

fun scan_digits :: "int \<Rightarrow> string \<Rightarrow> int \<times> string" where
  "scan_digits acc [] = (acc, [])"
| "scan_digits acc (c # cs) =
     (case digit_of c of
        None \<Rightarrow> (acc, c # cs)
      | Some d \<Rightarrow> scan_digits (10 * acc + int d) cs)"

definition scan_number :: "string \<Rightarrow> (bool \<times> int \<times> string) option" where
  "scan_number s =
     (case scan_sign (dropWhile isspace s) of
        (neg, t) \<Rightarrow>
          (case t of
             [] \<Rightarrow> None
           | c # _ \<Rightarrow>
               if digit_of c = None then None
               else (case scan_digits 0 t of (v, rest) \<Rightarrow> Some (neg, v, rest))))"

definition scan_llu :: "string \<Rightarrow> (u64 \<times> string) option" where
  "scan_llu s =
     (case scan_number s of
        None \<Rightarrow> None
      | Some (neg, v, rest) \<Rightarrow>
          Some (if 2 ^ 64 \<le> v then - 1 else if neg then - word_of_int v else word_of_int v,
                rest))"

definition LONG_MAX :: int where
  "LONG_MAX = 2 ^ 63 - 1"

definition scan_ld :: "string \<Rightarrow> int option" where
  "scan_ld s =
     (case scan_number s of
        None \<Rightarrow> None
      | Some (neg, v, rest) \<Rightarrow>
          Some (if neg then max (- v) (- LONG_MAX - 1) else min v LONG_MAX))"

fun scan_llus :: "nat \<Rightarrow> string \<Rightarrow> u64 list" where
  "scan_llus 0 s = []"
| "scan_llus (Suc n) s =
     (case scan_llu s of
        None \<Rightarrow> []
      | Some (v, rest) \<Rightarrow> v # scan_llus n rest)"

subsection \<open>Doubles\<close>

text \<open>
  \<open>round_half_even x\<close> is the integer nearest to \<open>x\<close>, the even one of two that are equally
  near. \<open>ilog2 x\<close> is the exponent of the largest power of two not above a positive \<open>x\<close>.
  \<open>to_double x\<close> is the double nearest to \<open>x\<close>, ties to the even significand: 53 bits of
  significand, and no spacing finer than \<open>2^-1074\<close>, that of the subnormal numbers. It is
  the value of a conversion from an integer type to \<^verbatim>\<open>double\<close> and of a product or quotient
  of doubles. The largest value rounded in this program is \<open>100 * 2^64\<close>, so the overflow
  to infinity is never met.
\<close>

definition round_half_even :: "rat \<Rightarrow> int" where
  "round_half_even x =
     (let f = \<lfloor>x\<rfloor>; d = x - of_int f
      in if d < 1 / 2 then f else if 1 / 2 < d then f + 1 else if even f then f else f + 1)"

definition ilog2 :: "rat \<Rightarrow> int" where
  "ilog2 x = (if 1 \<le> x then bitlen \<lfloor>x\<rfloor> - 1 else - bitlen (\<lceil>1 / x\<rceil> - 1))"

definition pow2 :: "int \<Rightarrow> rat" where
  "pow2 e = (if 0 \<le> e then 2 ^ nat e else 1 / 2 ^ nat (- e))"

definition to_double :: "rat \<Rightarrow> rat" where
  "to_double x =
     (if x = 0 then 0
      else let q = pow2 (max (ilog2 \<bar>x\<bar> - 52) (- 1074))
           in sgn x * of_int (round_half_even (\<bar>x\<bar> / q)) * q)"

section \<open>Pipeline builder: the USB producer command line\<close>

text \<open>
  \<^verbatim>\<open>start_usb_ffmpeg\<close> (lines 634-715). The model returns the \<^verbatim>\<open>argv\<close> handed to
  \<^verbatim>\<open>spawn_child\<close>, without the closing NULL.
\<close>

definition usb_infmt :: "fmt_support_t \<Rightarrow> string" where
  "usb_infmt fs =
     (if h264 fs \<noteq> 0 then ''h264''
      else if mjpg fs \<noteq> 0 then ''mjpeg''
      else if yuyv fs \<noteq> 0 then ''yuyv422''
      else ''mjpeg'')"

definition usb_sz :: "ctx_t \<Rightarrow> string" where
  "usb_sz ctx = snprintf 32 (fmt_d (width ctx) @ ''x'' @ fmt_d (height ctx))"

definition usb_fr :: "ctx_t \<Rightarrow> string" where
  "usb_fr ctx = snprintf 16 (fmt_d (fps ctx))"

definition usb_br :: "ctx_t \<Rightarrow> string" where
  "usb_br ctx = snprintf 32 (fmt_d (bitrate ctx))"

definition start_usb_ffmpeg_argv ::
  "ctx_t \<Rightarrow> string \<Rightarrow> fmt_support_t \<Rightarrow> encode_t \<Rightarrow> string list" where
  "start_usb_ffmpeg_argv ctx devnode fs enc =
     (let infmt = usb_infmt fs;
          sz = usb_sz ctx;
          fr = usb_fr ctx;
          br = usb_br ctx;
          argv = [''ffmpeg'', ''-hide_banner'', ''-loglevel'', ''error'', ''-f'', ''v4l2'',
                  ''-input_format'', infmt, ''-video_size'', sz, ''-framerate'', fr,
                  ''-i'', devnode];
          argv = (if h264 fs \<noteq> 0 then argv @ [''-c:v'', ''copy'']
                  else if enc = ENC_HARDWARE then
                    argv @ [''-pix_fmt'', ''nv12'', ''-c:v'', ''h264_v4l2m2m'',
                            ''-b:v'', br, ''-maxrate'', br, ''-bufsize'', br]
                  else
                    argv @ [''-c:v'', ''libx264'', ''-preset'', ''ultrafast'',
                            ''-tune'', ''zerolatency'',
                            ''-b:v'', br, ''-maxrate'', br, ''-bufsize'', br])
      in argv @ [''-f'', ''h264'', fifo_path ctx])"

section \<open>C string search\<close>

text \<open>
  \<^verbatim>\<open>strstr(hay, needle)\<close> returns the suffix of \<open>hay\<close> that starts at the first occurrence
  of \<open>needle\<close>, \<^verbatim>\<open>strchr(s, c)\<close> the suffix that starts at the first \<open>c\<close>; \<open>None\<close> is NULL.
\<close>

fun strstr :: "string \<Rightarrow> string \<Rightarrow> string option" where
  "strstr [] needle = (if needle = [] then Some [] else None)"
| "strstr (c # cs) needle =
     (if prefix needle (c # cs) then Some (c # cs) else strstr cs needle)"

fun strchr :: "string \<Rightarrow> char \<Rightarrow> string option" where
  "strchr [] c = None"
| "strchr (x # xs) c = (if x = c then Some (x # xs) else strchr xs c)"

fun found :: "'a option \<Rightarrow> bool" where
  "found None = False"
| "found (Some _) = True"

text \<open>The C string held by a byte buffer: the bytes before the first NUL.\<close>

definition cstring :: "string \<Rightarrow> string" where
  "cstring bytes = takeWhile (\<lambda>c. c \<noteq> CHR 0x00) bytes"

text \<open>
  \<^verbatim>\<open>strrchr(s, c)\<close> as the offset of the last \<open>c\<close> in \<open>s\<close>; \<open>None\<close> is NULL.
\<close>

fun strrchr :: "string \<Rightarrow> char \<Rightarrow> nat option" where
  "strrchr [] c = None"
| "strrchr (x # xs) c =
     (case strrchr xs c of
        Some i \<Rightarrow> Some (Suc i)
      | None \<Rightarrow> if x = c then Some 0 else None)"

lemma strstr_Some_length:
  "strstr hay needle = Some s \<Longrightarrow> length s \<le> length hay \<and> prefix needle s"
  by (induction hay) (auto split: if_splits)

lemma strchr_Some_length:
  "strchr s c = Some t \<Longrightarrow> length t \<le> length s \<and> (\<exists>r. t = c # r)"
  by (induction s) (auto split: if_splits)

section \<open>Device capability prober\<close>

text \<open>
  The fields of \<^verbatim>\<open>struct v4l2_capability\<close> the program reads, and the capability bits of
  \<^verbatim>\<open>linux/videodev2.h\<close>. \<^verbatim>\<open>v4l2_querycap\<close> opens the node and issues the ioctl; the model
  takes its outcome per node as a function, \<open>None\<close> when \<^verbatim>\<open>open\<close> or the ioctl fails.
\<close>

record v4l2_capability =
  driver :: string
  card :: string
  capabilities :: u32
  device_caps :: u32

definition V4L2_CAP_VIDEO_CAPTURE :: u32 where
  "V4L2_CAP_VIDEO_CAPTURE = 0x00000001"

definition V4L2_CAP_VIDEO_CAPTURE_MPLANE :: u32 where
  "V4L2_CAP_VIDEO_CAPTURE_MPLANE = 0x00001000"

definition V4L2_CAP_DEVICE_CAPS :: u32 where
  "V4L2_CAP_DEVICE_CAPS = 0x80000000"

type_synonym querycap_t = "string \<Rightarrow> v4l2_capability option"

text \<open>\<^verbatim>\<open>v4l2_supports_capture\<close> (lines 300-316); \<open>True\<close> is the C result 1.\<close>

definition v4l2_supports_capture :: "querycap_t \<Rightarrow> string \<Rightarrow> bool" where
  "v4l2_supports_capture querycap node =
     (case querycap node of
        None \<Rightarrow> False
      | Some cap \<Rightarrow>
          if found (strstr (driver cap) ''bcm2835'') \<or> found (strstr (card cap) ''bcm2835'')
             \<or> found (strstr (driver cap) ''bcm2835-codec'')
             \<or> found (strstr (card cap) ''bcm2835-codec'')
          then False
          else if \<not> found (strstr (driver cap) ''uvcvideo'') then False
          else if capabilities cap AND V4L2_CAP_DEVICE_CAPS \<noteq> 0
                  \<and> device_caps cap AND (V4L2_CAP_VIDEO_CAPTURE OR V4L2_CAP_VIDEO_CAPTURE_MPLANE) \<noteq> 0
          then True
          else if capabilities cap AND (V4L2_CAP_VIDEO_CAPTURE OR V4L2_CAP_VIDEO_CAPTURE_MPLANE) \<noteq> 0
          then True
          else False)"

text \<open>
  \<^verbatim>\<open>pick_usb_node\<close> (lines 362-382). \<open>g\<close> is what \<^verbatim>\<open>glob("/dev/video*")\<close> gave: \<open>None\<close>
  when it failed or matched nothing, else the matched paths in their order. The result is
  the text written to \<^verbatim>\<open>out\<close> when the C function returns 0, \<open>None\<close> when it returns -1.
\<close>

fun scan_nodes :: "querycap_t \<Rightarrow> nat \<Rightarrow> string list \<Rightarrow> string option" where
  "scan_nodes querycap outsz [] = None"
| "scan_nodes querycap outsz (n # ns) =
     (if v4l2_supports_capture querycap n then Some (snprintf outsz n)
      else scan_nodes querycap outsz ns)"

definition pick_usb_node :: "querycap_t \<Rightarrow> string list option \<Rightarrow> nat \<Rightarrow> string option" where
  "pick_usb_node querycap g outsz =
     (case g of None \<Rightarrow> None | Some pathv \<Rightarrow> scan_nodes querycap outsz pathv)"

section \<open>Onboard-sensor availability\<close>

text \<open>
  \<^verbatim>\<open>detect_csi_available\<close> (lines 844-895). \<open>index_scan\<close> is the \<^verbatim>\<open>while\<close> loop over the
  occurrences of \<^verbatim>\<open>Index\<close>: \<open>pn\<close> is the C string at the pointer \<^verbatim>\<open>pn\<close>. When no newline
  follows, \<^verbatim>\<open>line_end\<close> is \<^verbatim>\<open>buf + n\<close>, the empty string, and the loop ends.
\<close>

function index_scan :: "string \<Rightarrow> bool" where
  "index_scan pn =
     (case strstr pn ''Index'' of
        None \<Rightarrow> False
      | Some pn' \<Rightarrow>
          if \<not> found (strstr pn' ''usb@'') then True
          else (case strchr pn' CHR 0x0A of
                  None \<Rightarrow> False
                | Some line_end \<Rightarrow> index_scan line_end))"
  by pat_completeness auto
termination
proof (relation "measure length")
  show "wf (measure length)" by simp
next
  fix pn pn' line_end :: string
  assume a: "strstr pn ''Index'' = Some pn'" and b: "strchr pn' CHR 0x0A = Some line_end"
  from a have le: "length pn' \<le> length pn" and pre: "prefix ''Index'' pn'"
    using strstr_Some_length by blast+
  from pre obtain rest where pn': "pn' = CHR ''I'' # rest"
    by (cases pn') auto
  with b have "strchr rest CHR 0x0A = Some line_end" by simp
  then have "length line_end \<le> length rest"
    using strchr_Some_length by blast
  with le pn' have "length line_end < length pn" by simp
  then show "(line_end, pn) \<in> measure length" by simp
qed

declare index_scan.simps [simp del]

text \<open>
  \<open>cmd\<close> is the result of \<^verbatim>\<open>camera_cmd()\<close>, \<open>pipe_ok\<close> whether \<^verbatim>\<open>pipe\<close> succeeded and
  \<open>helper_out\<close> the bytes the single \<^verbatim>\<open>read\<close> returned from the helper
  (nothing when the read failed); the buffer holds 8191 of them.
\<close>

definition detect_csi_available :: "string option \<Rightarrow> bool \<Rightarrow> string \<Rightarrow> bool" where
  "detect_csi_available cmd pipe_ok helper_out =
     (case cmd of
        None \<Rightarrow> False
      | Some c \<Rightarrow>
          if \<not> pipe_ok then False
          else let buf = cstring (take 8191 helper_out) in
            if \<not> found (strstr buf ''Available cameras'') then False
            else if found (strstr buf ''usb@'') then index_scan buf
            else True)"

section \<open>Metrics sampler\<close>

text \<open>
  \<^verbatim>\<open>cpu_tot_t\<close> holds the seven counters of the first line of \<^verbatim>\<open>/proc/stat\<close>; \<open>pid_stat\<close>
  is what \<^verbatim>\<open>read_proc_pid_stat\<close> stores through its three pointers, \<^verbatim>\<open>rss_kb\<close> being a C
  \<^verbatim>\<open>long\<close>.

  A \<open>sample_t\<close> is what one read point of the sampler meets. \<open>sm_stat\<close> is the content of
  \<^verbatim>\<open>/proc/stat\<close>, \<open>sm_pid_stat p\<close> and \<open>sm_pid_status p\<close> are the contents of
  \<^verbatim>\<open>/proc/p/stat\<close> and \<^verbatim>\<open>/proc/p/status\<close>; \<open>None\<close> means that \<^verbatim>\<open>fopen\<close> fails, as it does
  for a process that has exited. Two pieces of memory are read without having been
  written: \<open>sm_tot\<close> is what the caller's \<^verbatim>\<open>cpu_tot_t\<close>, a local variable without
  initialiser, holds before the read, and \<open>sm_junk p\<close> are the bytes that lie behind the
  terminating NUL of the buffer \<^verbatim>\<open>line\<close> when \<^verbatim>\<open>/proc/p/stat\<close> is parsed.
\<close>

record cpu_tot_t =
  user :: u64
  nice :: u64
  sys :: u64
  idle :: u64
  iow :: u64
  irq :: u64
  sirq :: u64

record pid_stat =
  utime :: u64
  stime :: u64
  rss_kb :: int

record sample_t =
  sm_stat :: "string option"
  sm_pid_stat :: "c_int \<Rightarrow> string option"
  sm_pid_status :: "c_int \<Rightarrow> string option"
  sm_tot :: cpu_tot_t
  sm_junk :: "c_int \<Rightarrow> string"

text \<open>
  \<^verbatim>\<open>fgets(buf, n, f)\<close> called until the end of the file: each call delivers the bytes up to
  and including the next newline, at most \<open>n - 1\<close> of them. \<open>fgets n bytes\<close> is the first
  call, \<open>None\<close> on an empty file.
\<close>

fun fgets_chunks :: "nat \<Rightarrow> string \<Rightarrow> string \<Rightarrow> string list" where
  "fgets_chunks n cur [] = (if cur = [] then [] else [cur])"
| "fgets_chunks n cur (c # cs) =
     (if c = CHR 0x0A \<or> n \<le> length cur + 2 then (cur @ [c]) # fgets_chunks n [] cs
      else fgets_chunks n (cur @ [c]) cs)"

definition fgets :: "nat \<Rightarrow> string \<Rightarrow> string option" where
  "fgets n bytes = (case fgets_chunks n [] bytes of [] \<Rightarrow> None | buf # _ \<Rightarrow> Some buf)"

text \<open>
  \<^verbatim>\<open>read_proc_stat_total\<close> (lines 159-175): \<open>None\<close> is the C result -1. The result of
  \<^verbatim>\<open>sscanf(buf, "cpu %llu %llu %llu %llu %llu %llu %llu", ...)\<close> is not looked at: the
  counters that were converted are stored, the others keep what the structure held.
\<close>

definition store_cpu :: "cpu_tot_t \<Rightarrow> u64 list \<Rightarrow> cpu_tot_t" where
  "store_cpu t vs =
     (let new = vs @ drop (length vs) [user t, nice t, sys t, idle t, iow t, irq t, sirq t]
      in \<lparr>user = new ! 0, nice = new ! 1, sys = new ! 2, idle = new ! 3, iow = new ! 4,
          irq = new ! 5, sirq = new ! 6\<rparr>)"

definition read_proc_stat_total :: "sample_t \<Rightarrow> cpu_tot_t option" where
  "read_proc_stat_total s =
     (case sm_stat s of
        None \<Rightarrow> None
      | Some bytes \<Rightarrow>
          (case fgets 512 bytes of
             None \<Rightarrow> None
           | Some b \<Rightarrow>
               let buf = cstring b
               in Some (store_cpu (sm_tot s)
                          (if prefix ''cpu'' buf then scan_llus 7 (drop 3 buf) else []))))"

text \<open>
  The lookup of \<^verbatim>\<open>VmRSS\<close> in \<^verbatim>\<open>/proc/<pid>/status\<close> (lines 216-235): the first \<^verbatim>\<open>fgets\<close>
  chunk that starts with \<^verbatim>\<open>VmRSS:\<close> is converted with \<^verbatim>\<open>%ld\<close>; the result is 0 when the
  conversion fails, when no chunk starts so, or when the file cannot be opened.
\<close>

fun find_vmrss :: "string list \<Rightarrow> int" where
  "find_vmrss [] = 0"
| "find_vmrss (b # rest) =
     (let sb = cstring b
      in if prefix ''VmRSS:'' sb
         then (case scan_ld (drop 6 sb) of None \<Rightarrow> 0 | Some kb \<Rightarrow> kb)
         else find_vmrss rest)"

definition read_vmrss :: "string option \<Rightarrow> int" where
  "read_vmrss f = (case f of None \<Rightarrow> 0 | Some bytes \<Rightarrow> find_vmrss (fgets_chunks 512 [] bytes))"

text \<open>
  \<^verbatim>\<open>read_proc_pid_stat\<close> (lines 177-240): \<open>None\<close> is the C result -1, else the three values
  stored. \<^verbatim>\<open>fread\<close> delivers at most 4095 bytes and \<^verbatim>\<open>line[n] = 0\<close> ends them; \<open>mem\<close> is the
  buffer with what lies behind. \<open>rp\<close> is the offset of the last \<^verbatim>\<open>)\<close> of the C string in
  the buffer, and the scan starts at \<^verbatim>\<open>rp + 2\<close>, the byte behind the one that follows the
  \<^verbatim>\<open>)\<close>. Twelve \<^verbatim>\<open>%llu\<close> are converted there, ten into \<^verbatim>\<open>skip\<close> and then \<^verbatim>\<open>_ut\<close> and \<^verbatim>\<open>_st\<close>;
  with fewer than twelve the function returns -1.
\<close>

definition read_proc_pid_stat :: "sample_t \<Rightarrow> c_int \<Rightarrow> pid_stat option" where
  "read_proc_pid_stat s pid =
     (case sm_pid_stat s pid of
        None \<Rightarrow> None
      | Some bytes \<Rightarrow>
          let mem = take 4095 bytes @ [CHR 0x00] @ sm_junk s pid
          in (case strrchr (cstring mem) CHR '')'' of
                None \<Rightarrow> None
              | Some rp \<Rightarrow>
                  let p = cstring (drop (rp + 2) mem);
                      vals = scan_llus 12 p
                  in if length vals < 12 then None
                     else Some \<lparr>utime = vals ! 10, stime = vals ! 11,
                                rss_kb = read_vmrss (sm_pid_status s pid)\<rparr>))"

text \<open>
  One pass of the loops at lines 249-251 and 256-258 for one slot: the slot starts as 0
  and is overwritten only when the pid is positive and the read succeeds (the result of
  \<^verbatim>\<open>read_proc_pid_stat\<close> is not looked at).
\<close>

definition read_ticks :: "sample_t \<Rightarrow> c_int \<Rightarrow> u64 \<times> u64" where
  "read_ticks s p =
     (if 0 < sint p
      then (case read_proc_pid_stat s p of None \<Rightarrow> (0, 0) | Some ps \<Rightarrow> (utime ps, stime ps))
      else (0, 0))"

definition cpu_total :: "cpu_tot_t \<Rightarrow> u64" where
  "cpu_total t = user t + nice t + sys t + idle t + iow t + irq t + sirq t"

text \<open>The loop at lines 265-269 over the slots \<open>((u0, s0), (u1, s1))\<close>.\<close>

fun sum_deltas :: "u64 \<Rightarrow> ((u64 \<times> u64) \<times> (u64 \<times> u64)) list \<Rightarrow> u64" where
  "sum_deltas acc [] = acc"
| "sum_deltas acc (((u0, s0), (u1, s1)) # rest) =
     sum_deltas (acc + ((u1 - u0) + (s1 - s0))) rest"

text \<open>
  \<^verbatim>\<open>cpu_percent_for_pids\<close> (lines 242-271) for at most 16 pids, the size of its arrays
  (\<^verbatim>\<open>stats_writer\<close> passes two). \<open>s0\<close> is the read point before the sleep, \<open>s1\<close> the one
  after it. \<^verbatim>\<open>(double)(tot1 - tot0)\<close> converts the unsigned difference, and
  \<^verbatim>\<open>(100.0 * (double)sum) / tot_delta\<close> rounds the converted sum, the product and the
  quotient.
\<close>

definition cpu_percent_for_pids :: "c_int list \<Rightarrow> sample_t \<Rightarrow> sample_t \<Rightarrow> rat" where
  "cpu_percent_for_pids pids s0 s1 =
     (case read_proc_stat_total s0 of
        None \<Rightarrow> 0
      | Some t0 \<Rightarrow>
          let r0 = map (read_ticks s0) pids in
          (case read_proc_stat_total s1 of
             None \<Rightarrow> 0
           | Some t1 \<Rightarrow>
               let r1 = map (read_ticks s1) pids;
                   tot0 = cpu_total t0;
                   tot1 = cpu_total t1;
                   tot_delta = to_double (of_int (uint (tot1 - tot0)))
               in if tot_delta \<le> 0 then 0
                  else let sum = sum_deltas 0 (zip r0 r1)
                       in to_double (to_double (100 * to_double (of_int (uint sum)))
                                     / tot_delta)))"

text \<open>
  \<^verbatim>\<open>rss_mb_for_pids\<close> (lines 273-286). The sum of the \<^verbatim>\<open>long\<close> values is the mathematical
  one (its overflow is undefined in C); \<^verbatim>\<open>sumkb / 1024.0\<close> converts it and divides.
\<close>

fun sum_rss :: "sample_t \<Rightarrow> int \<Rightarrow> c_int list \<Rightarrow> int" where
  "sum_rss s sumkb [] = sumkb"
| "sum_rss s sumkb (p # ps) =
     (if sint p \<le> 0 then sum_rss s sumkb ps
      else (case read_proc_pid_stat s p of
              None \<Rightarrow> sum_rss s sumkb ps
            | Some st \<Rightarrow> sum_rss s (sumkb + rss_kb st) ps))"

definition rss_mb_for_pids :: "c_int list \<Rightarrow> sample_t \<Rightarrow> rat" where
  "rss_mb_for_pids pids s = to_double (to_double (of_int (sum_rss s 0 pids)) / 1024)"

section \<open>Progress-log parser\<close>

record overlay_state_t =
  latest_fps :: rat
  latest_bitrate :: string

text \<open>
  \<^verbatim>\<open>sscanf(s, "%63s", b)\<close>: skip white space, then store the run of non-space bytes, at
  most \<open>w\<close> of them; \<open>None\<close> when the input ends first and \<open>b\<close> is left as it was.
\<close>

definition scan_s :: "nat \<Rightarrow> string \<Rightarrow> string option" where
  "scan_s w s =
     (let t = dropWhile isspace s
      in if t = [] then None else Some (take w (takeWhile (\<lambda>c. \<not> isspace c) t)))"

text \<open>
  The body run for a completed line (lines 483-503). \<open>scan_lf\<close> is the C library's
  conversion \<^verbatim>\<open>sscanf(s, "%lf", &f)\<close>: \<open>None\<close> when nothing converts and \<open>f\<close> keeps
  its initial 0.
\<close>

definition process_line ::
  "(string \<Rightarrow> rat option) \<Rightarrow> overlay_state_t \<Rightarrow> string \<Rightarrow> overlay_state_t" where
  "process_line scan_lf st line =
     (let fps = strstr line ''fps='';
          br = strstr line ''bitrate='';
          st = (case fps of
                  None \<Rightarrow> st
                | Some p \<Rightarrow>
                    st\<lparr>latest_fps := (case scan_lf (drop 4 p) of None \<Rightarrow> 0 | Some f \<Rightarrow> f)\<rparr>);
          st = (case br of
                  None \<Rightarrow> st
                | Some p \<Rightarrow>
                    st\<lparr>latest_bitrate :=
                         snprintf 64 (case scan_s 63 (drop 8 p) of None \<Rightarrow> [] | Some b \<Rightarrow> b)\<rparr>)
      in st)"

text \<open>
  \<^verbatim>\<open>ffmpeg_log_reader\<close> (lines 464-512) on the bytes its reads deliver, in order. The
  state is the line assembled so far (\<^verbatim>\<open>line[0..len)\<close>) and the shared record; a line
  holds at most 8191 bytes and later ones are dropped.
\<close>

definition feed_byte ::
  "(string \<Rightarrow> rat option) \<Rightarrow> string \<times> overlay_state_t \<Rightarrow> char \<Rightarrow> string \<times> overlay_state_t" where
  "feed_byte scan_lf s c =
     (case s of (line, st) \<Rightarrow>
        if c = CHR 0x0D \<or> c = CHR 0x0A then ([], process_line scan_lf st (cstring line))
        else if length line < 8191 then (line @ [c], st)
        else (line, st))"

definition ffmpeg_log_reader ::
  "(string \<Rightarrow> rat option) \<Rightarrow> string \<times> overlay_state_t \<Rightarrow> string \<Rightarrow> string \<times> overlay_state_t" where
  "ffmpeg_log_reader scan_lf s bytes = foldl (feed_byte scan_lf) s bytes"

section \<open>Telemetry publisher\<close>

text \<open>
  \<^verbatim>\<open>%.1f\<close> of a double: the value rounded to one decimal, ties to even (a \<open>-\<close> sign
  for every negative value, also one that rounds to zero).
\<close>

definition fmt_1f :: "rat \<Rightarrow> string" where
  "fmt_1f x =
     (let t = nat (round_half_even (\<bar>x\<bar> * 10))
      in (if x < 0 then ''-'' else []) @ show_nat (t div 10) @ ''.'' @ [digit_char (t mod 10)])"

text \<open>The snapshot of the bitrate taken under the lock (line 554).\<close>

definition stats_br :: "overlay_state_t \<Rightarrow> string" where
  "stats_br st = snprintf 64 (if latest_bitrate st \<noteq> [] then latest_bitrate st else ''N/A'')"

text \<open>The six \<^verbatim>\<open>fprintf\<close> calls of \<^verbatim>\<open>stats_writer\<close> (lines 560-565).\<close>

definition stats_file_text :: "ctx_t \<Rightarrow> rat \<Rightarrow> string \<Rightarrow> rat \<Rightarrow> rat \<Rightarrow> string" where
  "stats_file_text ctx fpsv br cpu mem =
     ''FPS: '' @ fmt_1f fpsv @ ''\<newline>'' @
     ''RES: '' @ fmt_d (width ctx) @ ''x'' @ fmt_d (height ctx) @ ''\<newline>'' @
     ''BitRate: '' @ br @ ''\<newline>'' @
     ''CPU: '' @ fmt_1f cpu @ ''%\<newline>'' @
     ''MEM: '' @ fmt_1f 0 @ ''%\<newline>'' @
     ''MEM_MB: '' @ fmt_1f mem @ ''\<newline>''"

text \<open>
  One turn of the loop of \<^verbatim>\<open>stats_writer\<close> (lines 544-569): the three read points of the
  turn (before and after the sleep of the CPU sample, and at the memory read), the shared
  record at the snapshot, and whether \<^verbatim>\<open>fopen\<close> of the status file succeeded. The result
  is the text written, \<open>None\<close> when the file could not be opened and the turn writes
  nothing.
\<close>

record cycle_t =
  cyc_s0 :: sample_t
  cyc_s1 :: sample_t
  cyc_rss :: sample_t
  cyc_state :: overlay_state_t
  cyc_fopen_ok :: bool

definition stats_writer_cycle :: "ctx_t \<Rightarrow> c_int list \<Rightarrow> cycle_t \<Rightarrow> string option" where
  "stats_writer_cycle ctx pids cyc =
     (let cpu = cpu_percent_for_pids pids (cyc_s0 cyc) (cyc_s1 cyc);
          mem = rss_mb_for_pids pids (cyc_rss cyc);
          fpsv = latest_fps (cyc_state cyc);
          br = stats_br (cyc_state cyc)
      in if cyc_fopen_ok cyc then Some (stats_file_text ctx fpsv br cpu mem) else None)"

section \<open>Pipeline builder: the consumer command line\<close>

definition DEFAULT_CORNER :: string where
  "DEFAULT_CORNER = ''top-left''"

text \<open>\<^verbatim>\<open>overlay_coords\<close> (lines 514-536): the pair \<^verbatim>\<open>(*ox, *oy)\<close>.\<close>

definition overlay_coords :: "string \<Rightarrow> string \<times> string" where
  "overlay_coords corner =
     (if corner = ''top-right'' then (''w-tw-10'', ''10'')
      else if corner = ''bottom-left'' then (''10'', ''h-th-10'')
      else if corner = ''bottom-right'' then (''w-tw-10'', ''h-th-10'')
      else (''10'', ''10''))"

text \<open>
  \<^verbatim>\<open>start_preview\<close> (lines 575-604): the \<^verbatim>\<open>argv\<close> handed to \<^verbatim>\<open>spawn_child\<close>. The context
  has no corner field; the coordinates are those of \<^verbatim>\<open>DEFAULT_CORNER\<close>.
\<close>

definition start_preview_argv :: "ctx_t \<Rightarrow> string \<Rightarrow> string list" where
  "start_preview_argv ctx title =
     (case overlay_coords DEFAULT_CORNER of (ox, oy) \<Rightarrow>
        let draw = ''drawtext=fontfile=/usr/share/fonts/truetype/dejavu/DejaVuSans.ttf:'' @
                   ''textfile='' @ stats_path ctx @ '':reload=1:x='' @ ox @ '':y='' @ oy @
                   '':fontcolor=white:fontsize=28:'' @
                   ''box=1:boxcolor=0x000000AA:boxborderw=8:line_spacing=6''
        in [''ffmpeg'', ''-hide_banner'', ''-loglevel'', ''info'', ''-stats'',
            ''-fflags'', ''+nobuffer'', ''-flags'', ''+low_delay'',
            ''-reorder_queue_size'', ''0'', ''-thread_queue_size'', ''512'',
            ''-f'', ''h264'', ''-i'', fifo_path ctx,
            ''-vf'', draw,
            ''-an'', ''-f'', ''sdl'', title])"

text \<open>\<^verbatim>\<open>start_csi_camera\<close> (lines 606-632): the \<^verbatim>\<open>argv\<close> for the capture helper \<open>cmd\<close>.\<close>

definition start_csi_camera_argv ::
  "string \<Rightarrow> c_int \<Rightarrow> c_int \<Rightarrow> c_int \<Rightarrow> c_int \<Rightarrow> string list" where
  "start_csi_camera_argv cmd w h f b =
     [cmd, ''--inline'', ''--codec'', ''h264'', ''--timeout'', ''0'',
      ''--width'', snprintf 16 (fmt_d w), ''--height'', snprintf 16 (fmt_d h),
      ''--framerate'', snprintf 16 (fmt_d f), ''--bitrate'', snprintf 32 (fmt_d b),
      ''-o'', ''-'']"

section \<open>Process supervisor: one run of main\<close>

text \<open>
  \<^verbatim>\<open>main\<close> (lines 907-1046) after \<^verbatim>\<open>parse_cfg\<close>. A run is the list of the effects it
  has on the file system, the processes and the threads, in program order. \<open>Die m\<close> is
  \<^verbatim>\<open>die\<close>: the message on the diagnostic stream, then \<^verbatim>\<open>exit(1)\<close>; \<open>Return 0\<close> is the end
  of \<^verbatim>\<open>main\<close>. \<open>Rm_rf d ok\<close> is \<^verbatim>\<open>ensure_dir_remove\<close>, \<open>ok\<close> telling whether the forked
  \<^verbatim>\<open>rm -rf\<close> removed the directory.
\<close>

datatype thread_fn = TH_LOG | TH_STATS

datatype event =
    Stdout string
  | Mkdtemp string
  | Mkfifo string
  | File_write string string
  | Spawn "string list"
  | Thread_create thread_fn
  | Thread_cancel thread_fn
  | Thread_join thread_fn
  | Waitpid c_int
  | Rm_rf string bool
  | Die string
  | Return int

record cfg_t =
  cfg_method :: string
  cfg_width :: c_int
  cfg_height :: c_int
  cfg_fps :: c_int
  cfg_bitrate :: c_int
  cfg_corner :: string
  cfg_source_mode :: source_t
  cfg_source_node :: string
  cfg_encode_mode :: encode_t
  cfg_skip_menu :: c_int

record child_t =
  ch_pid :: c_int
  ch_stderr_fd :: c_int

text \<open>
  What the system answers during a run. \<open>sp_pipe\<close> is the read end of the diagnostic pipe
  (\<open>None\<close>: \<^verbatim>\<open>pipe\<close> failed), \<open>sp_fork\<close> the result of \<^verbatim>\<open>fork\<close> in the parent (negative:
  failed). \<open>env_camera_cmd\<close> is the result of \<^verbatim>\<open>camera_cmd()\<close>, taken to be the same at
  each of its calls; \<open>env_enum_formats\<close> is what \<^verbatim>\<open>v4l2_enum_formats\<close> stores for a node
  (all zero when the node cannot be opened); \<open>env_cycles\<close> are the turns the stats thread
  completes before it is cancelled.
\<close>

record spawn_env =
  sp_pipe :: "c_int option"
  sp_fork :: c_int

record env_t =
  env_ffmpeg_exists :: bool
  env_camera_cmd :: "string option"
  env_csi_pipe_ok :: bool
  env_list_cameras_out :: string
  env_glob :: "string list option"
  env_querycap :: querycap_t
  env_enum_formats :: "string \<Rightarrow> fmt_support_t"
  env_mkdtemp :: "string option"
  env_mkfifo_ok :: bool
  env_stats_fopen_ok :: bool
  env_draw_alloc_ok :: bool
  env_preview_spawn :: spawn_env
  env_fifo_open_ok :: bool
  env_cam_spawn :: spawn_env
  env_cycles :: "cycle_t list"
  env_rm_ok :: bool

text \<open>
  A step yields the effects it had and, unless it ended the process, its result.
\<close>

type_synonym 'a step = "event list \<times> 'a option"

definition die :: "string \<Rightarrow> 'a step" where
  "die msg = ([Die msg], None)"

definition then_do :: "'a step \<Rightarrow> ('a \<Rightarrow> 'b step) \<Rightarrow> 'b step" where
  "then_do r f =
     (case r of
        (evs, None) \<Rightarrow> (evs, None)
      | (evs, Some a) \<Rightarrow> (case f a of (evs', b) \<Rightarrow> (evs @ evs', b)))"

text \<open>\<^verbatim>\<open>spawn_child\<close> (lines 403-452), the parent's side.\<close>

definition spawn_child :: "spawn_env \<Rightarrow> string list \<Rightarrow> bool \<Rightarrow> child_t step" where
  "spawn_child sp argv capture_stderr =
     (if capture_stderr \<and> sp_pipe sp = None then die ''pipe''
      else if sint (sp_fork sp) < 0 then die ''fork''
      else ([Spawn argv],
            Some \<lparr>ch_pid = sp_fork sp,
                  ch_stderr_fd = (if capture_stderr
                                  then (case sp_pipe sp of None \<Rightarrow> - 1 | Some fd \<Rightarrow> fd)
                                  else - 1)\<rparr>))"

definition fmt_zero :: fmt_support_t where
  "fmt_zero = \<lparr>h264 = 0, mjpg = 0, yuyv = 0\<rparr>"

text \<open>\<^verbatim>\<open>detect_usb\<close> (lines 897-903).\<close>

definition detect_usb :: "env_t \<Rightarrow> nat \<Rightarrow> (string \<times> fmt_support_t) option" where
  "detect_usb env outsz =
     (case pick_usb_node (env_querycap env) (env_glob env) outsz of
        None \<Rightarrow> None
      | Some node \<Rightarrow> Some (node, env_enum_formats env node))"

definition csi_available :: "env_t \<Rightarrow> bool" where
  "csi_available env =
     detect_csi_available (env_camera_cmd env) (env_csi_pipe_ok env) (env_list_cameras_out env)"

text \<open>Lines 935-960: \<^verbatim>\<open>use_csi\<close>, \<^verbatim>\<open>usbnode\<close> and \<^verbatim>\<open>usbfmt\<close>.\<close>

definition decide_source :: "env_t \<Rightarrow> cfg_t \<Rightarrow> (bool \<times> string \<times> fmt_support_t) step" where
  "decide_source env cfg =
     (if cfg_source_mode cfg = SRC_CSI then
        (if \<not> csi_available env then die ''CSI camera not found''
         else ([], Some (True, [], fmt_zero)))
      else if cfg_source_mode cfg = SRC_USBNODE then
        (if \<not> v4l2_supports_capture (env_querycap env) (cfg_source_node cfg)
         then die (''Invalid USB node: '' @ cfg_source_node cfg)
         else let usbnode = snprintf 128 (cfg_source_node cfg)
              in ([], Some (False, usbnode, env_enum_formats env usbnode)))
      else
        (if csi_available env then ([], Some (True, [], fmt_zero))
         else (case detect_usb env 128 of
                 Some (node, fs) \<Rightarrow> ([], Some (False, node, fs))
               | None \<Rightarrow>
                   die (''No supported camera found. '' @
                        ''Please connect a CSI module or USB camera.''))))"

text \<open>Lines 969-977.\<close>

definition prepare_ctx :: "cfg_t \<Rightarrow> c_int \<Rightarrow> ctx_t" where
  "prepare_ctx cfg no_overlay =
     \<lparr>tmpdir = [], fifo_path = [], stats_path = [], cam_pid = 0, prev_pid = 0,
      prev_stderr_fd = 0, running = 1, overlay_disabled = no_overlay,
      width = cfg_width cfg, height = cfg_height cfg, fps = cfg_fps cfg,
      bitrate = cfg_bitrate cfg\<rparr>"

definition placeholder_stats :: string where
  "placeholder_stats =
     ''FPS: 0.0\<newline>RES: 0x0\<newline>BitRate: 0\<newline>CPU: 0%\<newline>MEM: 0%\<newline>''"

text \<open>Lines 981-996: the directory, the named pipe and the pre-created status file.\<close>

definition setup_tmp :: "env_t \<Rightarrow> ctx_t \<Rightarrow> ctx_t step" where
  "setup_tmp env ctx =
     (case env_mkdtemp env of
        None \<Rightarrow> die ''mkdtemp''
      | Some dir \<Rightarrow>
          let ctx = ctx\<lparr>tmpdir := snprintf 4096 dir,
                        fifo_path := snprintf 4096 (dir @ ''/video.h264''),
                        stats_path := snprintf 4096 (dir @ ''/stats.txt'')\<rparr>
          in if \<not> env_mkfifo_ok env
             then ([Mkdtemp dir, Die (''mkfifo('' @ fifo_path ctx @ '')'')], None)
             else ([Mkdtemp dir, Mkfifo (fifo_path ctx)] @
                   (if env_stats_fopen_ok env
                    then [File_write (stats_path ctx) placeholder_stats] else []),
                   Some ctx))"

definition start_preview :: "env_t \<Rightarrow> ctx_t \<Rightarrow> string \<Rightarrow> ctx_t step" where
  "start_preview env ctx title =
     (if \<not> env_draw_alloc_ok env then die ''OOM''
      else then_do (spawn_child (env_preview_spawn env) (start_preview_argv ctx title) True)
             (\<lambda>ch. ([], Some (ctx\<lparr>prev_pid := ch_pid ch, prev_stderr_fd := ch_stderr_fd ch\<rparr>))))"

definition start_csi_camera ::
  "env_t \<Rightarrow> ctx_t \<Rightarrow> c_int \<Rightarrow> c_int \<Rightarrow> c_int \<Rightarrow> c_int \<Rightarrow> ctx_t step" where
  "start_csi_camera env ctx w h f b =
     (case env_camera_cmd env of
        None \<Rightarrow> die ''libcamera-vid / rpicam-vid not found''
      | Some cmd \<Rightarrow>
          if \<not> env_fifo_open_ok env then die ''open fifo for write''
          else then_do (spawn_child (env_cam_spawn env) (start_csi_camera_argv cmd w h f b) False)
                 (\<lambda>ch. ([], Some (ctx\<lparr>cam_pid := ch_pid ch\<rparr>))))"

definition start_usb_ffmpeg ::
  "env_t \<Rightarrow> ctx_t \<Rightarrow> string \<Rightarrow> fmt_support_t \<Rightarrow> encode_t \<Rightarrow> ctx_t step" where
  "start_usb_ffmpeg env ctx devnode fs enc =
     then_do (spawn_child (env_cam_spawn env) (start_usb_ffmpeg_argv ctx devnode fs enc) False)
       (\<lambda>ch. ([], Some (ctx\<lparr>cam_pid := ch_pid ch\<rparr>)))"

text \<open>Lines 1001-1014.\<close>

definition start_camera ::
  "env_t \<Rightarrow> cfg_t \<Rightarrow> ctx_t \<Rightarrow> bool \<Rightarrow> bool \<Rightarrow> string \<Rightarrow> fmt_support_t \<Rightarrow> encode_t \<Rightarrow> ctx_t step" where
  "start_camera env cfg ctx use_csi have_cam_cmd usbnode usbfmt enc =
     (if use_csi then
        (if \<not> have_cam_cmd then die ''rpicam-vid/libcamera-vid required for CSI''
         else start_csi_camera env ctx (cfg_width cfg) (cfg_height cfg) (cfg_fps cfg)
                (cfg_bitrate cfg))
      else
        let usbnode = (if usbnode = [] then snprintf 128 (cfg_source_node cfg) else usbnode)
        in start_usb_ffmpeg env ctx usbnode usbfmt enc)"

text \<open>
  Lines 1016-1045. The two threads are created only with the overlay enabled and a
  diagnostic pipe; the turns of the stats thread happen between its creation and its
  join, here directly after the creation.
\<close>

definition stats_writer_events :: "ctx_t \<Rightarrow> cycle_t list \<Rightarrow> event list" where
  "stats_writer_events ctx cycs =
     concat (map (\<lambda>cyc. case stats_writer_cycle ctx [cam_pid ctx, prev_pid ctx] cyc of
                           None \<Rightarrow> []
                         | Some text \<Rightarrow> [File_write (stats_path ctx) text]) cycs)"

definition run_and_cleanup :: "env_t \<Rightarrow> ctx_t \<Rightarrow> event list" where
  "run_and_cleanup env ctx =
     (let threads = (overlay_disabled ctx = 0 \<and> 0 \<le> sint (prev_stderr_fd ctx))
      in (if threads
          then [Thread_create TH_LOG, Thread_create TH_STATS] @
               stats_writer_events ctx (env_cycles env)
          else []) @
         (if 0 < sint (cam_pid ctx) then [Waitpid (cam_pid ctx)] else []) @
         (if 0 < sint (prev_pid ctx) then [Waitpid (prev_pid ctx)] else []) @
         (if threads
          then [Thread_cancel TH_LOG, Thread_cancel TH_STATS,
                Thread_join TH_LOG, Thread_join TH_STATS]
          else []) @
         [Rm_rf (tmpdir ctx) (env_rm_ok env), Return 0])"

definition list_cameras_report :: "env_t \<Rightarrow> event list" where
  "list_cameras_report env =
     [Stdout ''=== Camera list ===\<newline>'',
      Stdout (''CSI available: '' @ (if csi_available env then ''yes'' else ''no'') @ ''\<newline>''),
      Stdout (case detect_usb env 128 of
                Some (node, fs) \<Rightarrow>
                  ''USB capture: '' @ node @ '' (formats: '' @
                  (if h264 fs \<noteq> 0 then ''H264 '' else []) @
                  (if mjpg fs \<noteq> 0 then ''MJPG '' else []) @
                  (if yuyv fs \<noteq> 0 then ''YUYV '' else []) @ '')\<newline>''
              | None \<Rightarrow> ''USB capture: none\<newline>''),
      Return 0]"

definition session ::
  "env_t \<Rightarrow> cfg_t \<Rightarrow> c_int \<Rightarrow> bool \<Rightarrow> bool \<times> string \<times> fmt_support_t \<Rightarrow> unit step" where
  "session env cfg no_overlay have_cam_cmd src =
     (case src of (use_csi, usbnode, usbfmt) \<Rightarrow>
        let enc = (if cfg_encode_mode cfg = ENC_AUTO then ENC_HARDWARE
                   else cfg_encode_mode cfg);
            ctx = prepare_ctx cfg no_overlay
        in then_do (setup_tmp env ctx) (\<lambda>ctx.
           then_do (start_preview env ctx
                      (if use_csi then ''PiCam Preview (CSI)'' else ''USB Camera Preview''))
             (\<lambda>ctx.
           then_do (start_camera env cfg ctx use_csi have_cam_cmd usbnode usbfmt enc)
             (\<lambda>ctx. (run_and_cleanup env ctx, Some ())))))"

definition main :: "env_t \<Rightarrow> cfg_t \<Rightarrow> c_int \<Rightarrow> c_int \<Rightarrow> event list" where
  "main env cfg list_only no_overlay =
     (if \<not> env_ffmpeg_exists env then [Die ''ffmpeg not found'']
      else let have_cam_cmd = found (env_camera_cmd env)
           in if list_only \<noteq> 0 then list_cameras_report env
              else fst (then_do (decide_source env cfg)
                          (session env cfg no_overlay have_cam_cmd)))"

text \<open>
  The signal handler \<^verbatim>\<open>terminate_children\<close> (lines 131-141) on the global \<^verbatim>\<open>g_ctx\<close>: it
  exits only while \<^verbatim>\<open>g_ctx\<close> is unset; otherwise it clears \<^verbatim>\<open>running\<close>, sends SIGTERM to
  the recorded children and returns.
\<close>

datatype handler_result = Handler_exit int | Handler_return ctx_t "c_int list"

definition terminate_children :: "ctx_t option \<Rightarrow> handler_result" where
  "terminate_children g_ctx =
     (case g_ctx of
        None \<Rightarrow> Handler_exit 0
      | Some ctx \<Rightarrow>
          Handler_return (ctx\<lparr>running := 0\<rparr>)
            ((if 0 < sint (cam_pid ctx) then [cam_pid ctx] else []) @
             (if 0 < sint (prev_pid ctx) then [prev_pid ctx] else [])))"

text \<open>
  The session's files after the effects of a run: the directory, the named pipe, and the
  text of the status file if it exists.
\<close>

record fs_t =
  dir_present :: bool
  fifo_present :: bool
  stats_file :: "string option"

fun apply_event :: "fs_t \<Rightarrow> event \<Rightarrow> fs_t" where
  "apply_event fs (Mkdtemp d) = fs\<lparr>dir_present := True\<rparr>"
| "apply_event fs (Mkfifo f) = fs\<lparr>fifo_present := True\<rparr>"
| "apply_event fs (File_write f text) = fs\<lparr>stats_file := Some text\<rparr>"
| "apply_event fs (Rm_rf d ok) =
     (if ok then \<lparr>dir_present = False, fifo_present = False, stats_file = None\<rparr> else fs)"
| "apply_event fs _ = fs"

definition fs_after :: "event list \<Rightarrow> fs_t" where
  "fs_after evs =
     foldl apply_event \<lparr>dir_present = False, fifo_present = False, stats_file = None\<rparr> evs"

text \<open>
  Notions used to describe the exit paths of a run: a list of effects is plain when
  it has no \<^verbatim>\<open>die\<close>, no \<^verbatim>\<open>rm -rf\<close> and no return from \<^verbatim>\<open>main\<close>; a step is in order when it
  either yields a result after plain effects or ends the process with a \<^verbatim>\<open>die\<close> after plain
  effects. \<open>startup\<close> is the part of a session before the threads: directory and pipe,
  consumer, producer.
\<close>

definition plain :: "event list \<Rightarrow> bool" where
  "plain evs =
     list_all (\<lambda>e. case e of Rm_rf d ok \<Rightarrow> False | Return r \<Rightarrow> False | Die m \<Rightarrow> False
                     | _ \<Rightarrow> True) evs"

definition step_ok :: "'a step \<Rightarrow> bool" where
  "step_ok r =
     (case snd r of
        None \<Rightarrow> (\<exists>pre m. fst r = pre @ [Die m] \<and> plain pre)
      | Some a \<Rightarrow> plain (fst r))"

definition startup ::
  "env_t \<Rightarrow> cfg_t \<Rightarrow> c_int \<Rightarrow> bool \<Rightarrow> bool \<times> string \<times> fmt_support_t \<Rightarrow> ctx_t step" where
  "startup env cfg no_overlay hc src =
     (case src of (use_csi, usbnode, usbfmt) \<Rightarrow>
        then_do (then_do (setup_tmp env (prepare_ctx cfg no_overlay))
                   (\<lambda>ctx. start_preview env ctx
                      (if use_csi then ''PiCam Preview (CSI)'' else ''USB Camera Preview'')))
          (\<lambda>ctx. start_camera env cfg ctx use_csi hc usbnode usbfmt
                   (if cfg_encode_mode cfg = ENC_AUTO then ENC_HARDWARE
                    else cfg_encode_mode cfg)))"

section \<open>Reading the status file by its labels\<close>

text \<open>
  How the status file is read back by its labels: the text is cut into lines at each
  newline, and the value of a label is what follows the label and one blank on the first
  line that starts with them. These definitions state that reading; the program itself
  has no reader, the overlay filter only displays the text.
\<close>

fun split_lines :: "string \<Rightarrow> string \<Rightarrow> string list" where
  "split_lines cur [] = (if cur = [] then [] else [cur])"
| "split_lines cur (c # cs) =
     (if c = CHR 0x0A then cur # split_lines [] cs else split_lines (cur @ [c]) cs)"

definition file_lines :: "string \<Rightarrow> string list" where
  "file_lines text = split_lines [] text"

definition labelled_value :: "string \<Rightarrow> string \<Rightarrow> string option" where
  "labelled_value label text =
     (case filter (prefix (label @ '' '')) (file_lines text) of
        [] \<Rightarrow> None
      | l # _ \<Rightarrow> Some (drop (length label + 1) l))"

text \<open>The label of a line is its text before the first blank.\<close>

definition line_labels :: "string \<Rightarrow> string list" where
  "line_labels text = map (takeWhile (\<lambda>c. c \<noteq> CHR '' '')) (file_lines text)"

text \<open>
  Reading the values back as numbers: a decimal with one fractional digit, a percentage,
  and a resolution \<open>WxH\<close>. \<open>round_1f\<close> is a value rounded to one decimal place, ties to
  even, as \<^verbatim>\<open>%.1f\<close> prints it.
\<close>

definition digit_val :: "char \<Rightarrow> nat option" where
  "digit_val c =
     (if c = CHR ''0'' then Some 0 else if c = CHR ''1'' then Some 1
      else if c = CHR ''2'' then Some 2 else if c = CHR ''3'' then Some 3
      else if c = CHR ''4'' then Some 4 else if c = CHR ''5'' then Some 5
      else if c = CHR ''6'' then Some 6 else if c = CHR ''7'' then Some 7
      else if c = CHR ''8'' then Some 8 else if c = CHR ''9'' then Some 9
      else None)"

fun read_digits :: "nat \<Rightarrow> string \<Rightarrow> nat option" where
  "read_digits acc [] = Some acc"
| "read_digits acc (c # cs) =
     (case digit_val c of None \<Rightarrow> None | Some d \<Rightarrow> read_digits (10 * acc + d) cs)"

definition read_nat :: "string \<Rightarrow> nat option" where
  "read_nat s = (if s = [] then None else read_digits 0 s)"

definition read_int :: "string \<Rightarrow> int option" where
  "read_int s =
     (if s \<noteq> [] \<and> hd s = CHR ''-'' then map_option (\<lambda>n. - int n) (read_nat (tl s))
      else map_option int (read_nat s))"

definition parse_1f :: "string \<Rightarrow> rat option" where
  "parse_1f s =
     (let neg = (s \<noteq> [] \<and> hd s = CHR ''-'');
          body = (if neg then tl s else s);
          ip = takeWhile (\<lambda>c. c \<noteq> CHR ''.'') body;
          fp = dropWhile (\<lambda>c. c \<noteq> CHR ''.'') body
      in case fp of
           [dot, d] \<Rightarrow>
             (case read_nat ip of
                None \<Rightarrow> None
              | Some a \<Rightarrow>
                  (case digit_val d of
                     None \<Rightarrow> None
                   | Some b \<Rightarrow>
                       Some ((if neg then - 1 else 1) * (of_nat a + of_nat b / 10))))
         | _ \<Rightarrow> None)"

definition parse_percent :: "string \<Rightarrow> rat option" where
  "parse_percent s =
     (if s \<noteq> [] \<and> last s = CHR ''%'' then parse_1f (butlast s) else None)"

definition parse_wxh :: "string \<Rightarrow> (int \<times> int) option" where
  "parse_wxh s =
     (case read_int (takeWhile (\<lambda>c. c \<noteq> CHR ''x'') s) of
        None \<Rightarrow> None
      | Some w \<Rightarrow>
          (case read_int (drop 1 (dropWhile (\<lambda>c. c \<noteq> CHR ''x'') s)) of
             None \<Rightarrow> None
           | Some h \<Rightarrow> Some (w, h)))"

definition round_1f :: "rat \<Rightarrow> rat" where
  "round_1f x = (if x < 0 then - 1 else 1) * of_int (round_half_even (\<bar>x\<bar> * 10)) / 10"

text \<open>
  An effect is quiet when it neither starts a thread nor writes anything but the
  placeholder to a file.
\<close>

definition quiet :: "event \<Rightarrow> bool" where
  "quiet e =
     (case e of
        Thread_create t \<Rightarrow> False
      | File_write f text \<Rightarrow> text = placeholder_stats
      | _ \<Rightarrow> True)"

text \<open>Lists of effects that write no file, and that start no process.\<close>

definition no_write :: "event list \<Rightarrow> bool" where
  "no_write evs = list_all (\<lambda>e. case e of File_write f t \<Rightarrow> False | _ \<Rightarrow> True) evs"

definition no_spawn :: "event list \<Rightarrow> bool" where
  "no_spawn evs = list_all (\<lambda>e. case e of Spawn a \<Rightarrow> False | _ \<Rightarrow> True) evs"

text \<open>The command lines of the processes a run starts, in order.\<close>

fun spawned :: "event list \<Rightarrow> string list list" where
  "spawned [] = []"
| "spawned (Spawn a # evs) = a # spawned evs"
| "spawned (e # evs) = spawned evs"

text \<open>
  The layout of \<^verbatim>\<open>/proc/<pid>/stat\<close> as the kernel writes it: the pid, the command name in
  parentheses, one blank, the state letter, then the numeric fields. \<open>proc_layout\<close> holds
  of a text that has the state letter two bytes after its last \<^verbatim>\<open>)\<close>, within the 4095
  bytes that are read.
\<close>

definition state_letter :: "char \<Rightarrow> bool" where
  "state_letter c = (c \<in> set ''RSDZTtWXxKPI'')"

definition proc_layout :: "string \<Rightarrow> bool" where
  "proc_layout bytes =
     (\<exists>pre c rest. bytes = pre @ '') '' @ c # rest \<and> state_letter c
        \<and> CHR '')'' \<notin> set rest \<and> CHR 0x00 \<notin> set pre \<and> length pre + 3 \<le> 4095)"

section \<open>Example inputs\<close>

text \<open>
  Concrete contexts, device tables, helper reports, counter readings and environments at
  which the properties below are evaluated.
\<close>

definition ctx_example :: ctx_t where
  "ctx_example =
     \<lparr>tmpdir = ''/tmp/picamc.a1B2c3'', fifo_path = ''/tmp/picamc.a1B2c3/video.h264'',
      stats_path = ''/tmp/picamc.a1B2c3/stats.txt'', cam_pid = 0, prev_pid = 0,
      prev_stderr_fd = 0, running = 1, overlay_disabled = 0,
      width = 1280, height = 720, fps = 30, bitrate = 4000000\<rparr>"

definition qc_example :: querycap_t where
  "qc_example node =
     (if node = ''/dev/video0'' then
        Some \<lparr>driver = ''uvcvideo'', card = ''HD Webcam C270'',
              capabilities = 0x84A00001, device_caps = 0x04200001\<rparr>
      else if node = ''/dev/video1'' then
        Some \<lparr>driver = ''uvcvideo'', card = ''HD Webcam C270'',
              capabilities = 0x84A00001, device_caps = 0x04A00000\<rparr>
      else if node = ''/dev/video10'' then
        Some \<lparr>driver = ''bcm2835-codec'', card = ''bcm2835-codec-decode'',
              capabilities = 0x84204000, device_caps = 0x04204000\<rparr>
      else if node = ''/dev/video2'' then
        Some \<lparr>driver = ''unicam'', card = ''unicam'',
              capabilities = 0x85A00001, device_caps = 0x05200001\<rparr>
      else None)"

definition list_csi_first :: string where
  "list_csi_first =
     ''Available cameras\<newline>-----------------\<newline>'' @
     ''Index 0 : imx219 [3280x2464] (/base/soc/i2c0mux/i2c@1/imx219@10)\<newline>'' @
     ''Index 1 : HD Webcam (/base/scb/pcie@7d500000/pci@0,0/usb@0,0-1.2:1.0-046d:0825)\<newline>''"

definition list_usb_first :: string where
  "list_usb_first =
     ''Available cameras\<newline>-----------------\<newline>'' @
     ''Index 0 : HD Webcam (/base/scb/pcie@7d500000/pci@0,0/usb@0,0-1.2:1.0-046d:0825)\<newline>'' @
     ''Index 1 : imx219 [3280x2464] (/base/soc/i2c0mux/i2c@1/imx219@10)\<newline>''"

definition list_only_usb :: string where
  "list_only_usb =
     ''Available cameras\<newline>-----------------\<newline>'' @
     ''Index 0 : HD Webcam (/base/scb/pcie@7d500000/pci@0,0/usb@0,0-1.2:1.0-046d:0825)\<newline>''"

definition list_only_csi :: string where
  "list_only_csi =
     ''Available cameras\<newline>-----------------\<newline>'' @
     ''Index 0 : imx219 [3280x2464] (/base/soc/i2c0mux/i2c@1/imx219@10)\<newline>''"


definition tot_junk :: cpu_tot_t where
  "tot_junk = \<lparr>user = 7, nice = 7, sys = 7, idle = 7, iow = 7, irq = 7, sirq = 7\<rparr>"

definition status_example :: string where
  "status_example =
     ''Name:'' @ [CHR 0x09] @ ''ffmpeg\<newline>State:'' @ [CHR 0x09] @ ''S (sleeping)\<newline>'' @
     ''VmPeak:'' @ [CHR 0x09] @ ''  250000 kB\<newline>'' @
     ''VmRSS:'' @ [CHR 0x09] @ ''   40960 kB\<newline>Threads:'' @ [CHR 0x09] @ ''5\<newline>''"

definition stat_2002_t0 :: string where
  "stat_2002_t0 =
     ''2002 (ffmpeg) S 1999 1999 1998 34816 1999 4194304 1500 0 0 0 700 300 0 0 '' @
     ''20 0 5 0 123456 250000000 10240 18446744073709551615 1 1 0 0 0 0 0 0 0 0 0 0 17 2 '' @
     ''0 0 0 0 0 0 0 0 0 0 0 0 0\<newline>''"

definition stat_2002_t1 :: string where
  "stat_2002_t1 =
     ''2002 (ffmpeg) S 1999 1999 1998 34816 1999 4194304 1500 0 0 0 709 303 0 0 '' @
     ''20 0 5 0 123456 250000000 10240 18446744073709551615 1 1 0 0 0 0 0 0 0 0 0 0 17 2 '' @
     ''0 0 0 0 0 0 0 0 0 0 0 0 0\<newline>''"

definition stat_2001_t0 :: string where
  "stat_2001_t0 =
     ''2001 (ffmpeg) S 1999 1999 1998 34816 1999 4194304 900 0 0 0 50 10 0 0 '' @
     ''20 0 3 0 123400 150000000 10240 18446744073709551615 1 1 0 0 0 0 0 0 0 0 0 0 17 2 '' @
     ''0 0 0 0 0 0 0 0 0 0 0 0 0\<newline>''"

definition stat_2001_t1 :: string where
  "stat_2001_t1 =
     ''2001 (ffmpeg) S 1999 1999 1998 34816 1999 4194304 900 0 0 0 51 10 0 0 '' @
     ''20 0 3 0 123400 150000000 10240 18446744073709551615 1 1 0 0 0 0 0 0 0 0 0 0 17 2 '' @
     ''0 0 0 0 0 0 0 0 0 0 0 0 0\<newline>''"

definition sample_t0 :: sample_t where
  "sample_t0 =
     \<lparr>sm_stat = Some (''cpu  400 0 100 480 20 0 0 0 0 0\<newline>'' @
                      ''cpu0 100 0 25 120 5 0 0 0 0 0\<newline>ctxt 99999\<newline>''),
      sm_pid_stat = (\<lambda>p. if p = 2002 then Some stat_2002_t0
                         else if p = 2001 then Some stat_2001_t0 else None),
      sm_pid_status = (\<lambda>p. if p = 2002 \<or> p = 2001 then Some status_example else None),
      sm_tot = tot_junk, sm_junk = (\<lambda>p. [])\<rparr>"

definition sample_t1 :: sample_t where
  "sample_t1 =
     \<lparr>sm_stat = Some (''cpu  460 0 120 500 20 0 0 0 0 0\<newline>'' @
                      ''cpu0 115 0 30 125 5 0 0 0 0 0\<newline>ctxt 99999\<newline>''),
      sm_pid_stat = (\<lambda>p. if p = 2002 then Some stat_2002_t1
                         else if p = 2001 then Some stat_2001_t1 else None),
      sm_pid_status = (\<lambda>p. if p = 2002 \<or> p = 2001 then Some status_example else None),
      sm_tot = tot_junk, sm_junk = (\<lambda>p. [])\<rparr>"

definition sample_t1_gone :: sample_t where
  "sample_t1_gone =
     \<lparr>sm_stat = Some (''cpu  460 0 120 500 20 0 0 0 0 0\<newline>'' @
                      ''cpu0 115 0 30 125 5 0 0 0 0 0\<newline>ctxt 99999\<newline>''),
      sm_pid_stat = (\<lambda>p. if p = 2002 then Some stat_2002_t1 else None),
      sm_pid_status = (\<lambda>p. if p = 2002 then Some status_example else None),
      sm_tot = tot_junk, sm_junk = (\<lambda>p. [])\<rparr>"

definition cfg_example :: cfg_t where
  "cfg_example =
     \<lparr>cfg_method = ''h264_sdl_preview'', cfg_width = 1280, cfg_height = 720, cfg_fps = 30,
      cfg_bitrate = 4000000, cfg_corner = ''top-left'', cfg_source_mode = SRC_AUTO,
      cfg_source_node = [], cfg_encode_mode = ENC_AUTO, cfg_skip_menu = 1\<rparr>"

definition env_example :: env_t where
  "env_example =
     \<lparr>env_ffmpeg_exists = True, env_camera_cmd = None, env_csi_pipe_ok = True,
      env_list_cameras_out = [], env_glob = Some [''/dev/video0''],
      env_querycap = qc_example,
      env_enum_formats = (\<lambda>n. \<lparr>h264 = 0, mjpg = 1, yuyv = 1\<rparr>),
      env_mkdtemp = Some ''/tmp/picamc.a1B2c3'', env_mkfifo_ok = True,
      env_stats_fopen_ok = True, env_draw_alloc_ok = True,
      env_preview_spawn = \<lparr>sp_pipe = Some 5, sp_fork = 2001\<rparr>,
      env_fifo_open_ok = True,
      env_cam_spawn = \<lparr>sp_pipe = None, sp_fork = 2002\<rparr>,
      env_cycles = [], env_rm_ok = True\<rparr>"

definition env_h264 :: env_t where
  "env_h264 = env_example\<lparr>env_enum_formats := (\<lambda>n. \<lparr>h264 = 1, mjpg = 1, yuyv = 0\<rparr>)\<rparr>"

definition cfg_software :: cfg_t where
  "cfg_software = cfg_example\<lparr>cfg_encode_mode := ENC_SOFTWARE\<rparr>"

definition st_parsed :: overlay_state_t where
  "st_parsed = \<lparr>latest_fps = 959 / 32, latest_bitrate = ''2048.0kbits/s''\<rparr>"

definition cycle_example :: cycle_t where
  "cycle_example =
     \<lparr>cyc_s0 = sample_t0, cyc_s1 = sample_t1, cyc_rss = sample_t1, cyc_state = st_parsed,
      cyc_fopen_ok = True\<rparr>"

definition cycle_gone :: cycle_t where
  "cycle_gone =
     \<lparr>cyc_s0 = sample_t0, cyc_s1 = sample_t1_gone, cyc_rss = sample_t1_gone,
      cyc_state = st_parsed, cyc_fopen_ok = True\<rparr>"

definition uvc_capture_cap :: v4l2_capability where
  "uvc_capture_cap =
     \<lparr>driver = ''uvcvideo'', card = ''HD Webcam C270'',
      capabilities = 0x84A00001, device_caps = 0x04200001\<rparr>"

definition uvc_metadata_cap :: v4l2_capability where
  "uvc_metadata_cap =
     \<lparr>driver = ''uvcvideo'', card = ''HD Webcam C270'',
      capabilities = 0x84A00001, device_caps = 0x04A00000\<rparr>"

definition qc_metadata :: querycap_t where
  "qc_metadata node =
     (if node \<in> set [''/dev/video0'', ''/dev/video1'', ''/dev/video2'', ''/dev/video3'',
                      ''/dev/video4'', ''/dev/video5'', ''/dev/video6'', ''/dev/video7''] then
        Some \<lparr>driver = ''rp1-cfe'', card = ''rp1-cfe'',
              capabilities = 0xACA00001, device_caps = 0x24A00001\<rparr>
      else if node = ''/dev/video8'' then
        Some \<lparr>driver = ''v4l2 loopback'', card = ''Dummy video device (0x0000)'',
              capabilities = 0x85208003, device_caps = 0x05208003\<rparr>
      else if node = ''/dev/video9'' then Some uvc_capture_cap
      else if node = ''/dev/video10'' then Some uvc_metadata_cap
      else None)"

definition glob_metadata :: "string list" where
  "glob_metadata =
     [''/dev/video0'', ''/dev/video1'', ''/dev/video10'', ''/dev/video2'', ''/dev/video3'',
      ''/dev/video4'', ''/dev/video5'', ''/dev/video6'', ''/dev/video7'', ''/dev/video8'',
      ''/dev/video9'']"

definition env_metadata :: env_t where
  "env_metadata =
     env_example\<lparr>env_glob := Some glob_metadata, env_querycap := qc_metadata,
                 env_enum_formats := (\<lambda>n. if n = ''/dev/video9''
                                         then \<lparr>h264 = 0, mjpg = 1, yuyv = 1\<rparr>
                                         else fmt_zero)\<rparr>"

section \<open>Properties\<close>

subsection \<open>Formatted numbers\<close>

lemma show_nat_hd: "\<exists>d ds. show_nat n = digit_char d # ds \<and> d < 10"
proof (induction n rule: show_nat.induct)
  case (1 n)
  show ?case
  proof (cases "n < 10")
    case True
    then show ?thesis by (subst show_nat.simps) auto
  next
    case False
    with 1 obtain d ds where "show_nat (n div 10) = digit_char d # ds" "d < 10" by blast
    with False show ?thesis by (subst show_nat.simps) auto
  qed
qed

lemma digit_char_cases:
  "d < 10 \<Longrightarrow> digit_char d \<in> set ''0123456789''"
  unfolding digit_char_def by (rule nth_mem) simp

lemma show_int_hd: "\<exists>c cs. show_int i = c # cs \<and> c \<in> set ''-0123456789''"
proof (cases "i < 0")
  case True
  then show ?thesis by (simp add: show_int_def)
next
  case False
  obtain d ds where "show_nat (nat i) = digit_char d # ds" "d < 10"
    using show_nat_hd by blast
  with False digit_char_cases [of d] show ?thesis by (simp add: show_int_def)
qed

lemma usb_sz_not_encoder:
  "usb_sz ctx \<noteq> ''libx264''" "usb_sz ctx \<noteq> ''h264_v4l2m2m''"
proof -
  obtain c cs where sh: "fmt_d (width ctx) = c # cs" "c \<in> set ''-0123456789''"
    using show_int_hd unfolding fmt_d_def by blast
  then have "usb_sz ctx = c # take 30 (cs @ ''x'' @ fmt_d (height ctx))"
    by (simp add: usb_sz_def snprintf_def)
  with sh(2) show "usb_sz ctx \<noteq> ''libx264''" "usb_sz ctx \<noteq> ''h264_v4l2m2m''"
    by auto
qed

lemma usb_fr_not_encoder:
  "usb_fr ctx \<noteq> ''libx264''" "usb_fr ctx \<noteq> ''h264_v4l2m2m''"
proof -
  obtain c cs where sh: "fmt_d (fps ctx) = c # cs" "c \<in> set ''-0123456789''"
    using show_int_hd unfolding fmt_d_def by blast
  then have "usb_fr ctx = c # take 14 cs"
    by (simp add: usb_fr_def snprintf_def)
  with sh(2) show "usb_fr ctx \<noteq> ''libx264''" "usb_fr ctx \<noteq> ''h264_v4l2m2m''"
    by auto
qed

subsection \<open>The branches of the USB producer command line\<close>

text \<open>
  The three branches of \<^verbatim>\<open>start_usb_ffmpeg\<close>, on its own arguments. With native H.264 the
  command is the capture head followed by \<^verbatim>\<open>-c:v copy\<close> and the output, whatever \<open>enc\<close> is;
  unless the caller's device path or pipe path is itself such a word, no argument is the
  software encoder \<^verbatim>\<open>libx264\<close> or the hardware encoder \<^verbatim>\<open>h264_v4l2m2m\<close>. Without
  native H.264, \<open>enc = ENC_HARDWARE\<close> selects \<^verbatim>\<open>h264_v4l2m2m\<close> and every other value selects
  \<^verbatim>\<open>libx264\<close> with preset ultrafast and tune zerolatency; both set \<^verbatim>\<open>-b:v\<close>, \<^verbatim>\<open>-maxrate\<close>
  and \<^verbatim>\<open>-bufsize\<close> to the bit rate of the context.
\<close>

lemma start_usb_ffmpeg_argv_cases:
  "(h264 fs \<noteq> 0 \<longrightarrow>
      start_usb_ffmpeg_argv ctx devnode fs enc =
        [''ffmpeg'', ''-hide_banner'', ''-loglevel'', ''error'', ''-f'', ''v4l2'',
         ''-input_format'', ''h264'', ''-video_size'', usb_sz ctx, ''-framerate'', usb_fr ctx,
         ''-i'', devnode, ''-c:v'', ''copy'', ''-f'', ''h264'', fifo_path ctx]
      \<and> (devnode \<notin> {''libx264'', ''h264_v4l2m2m''}
           \<and> fifo_path ctx \<notin> {''libx264'', ''h264_v4l2m2m''} \<longrightarrow>
         ''libx264'' \<notin> set (start_usb_ffmpeg_argv ctx devnode fs enc)
         \<and> ''h264_v4l2m2m'' \<notin> set (start_usb_ffmpeg_argv ctx devnode fs enc)))
   \<and> (h264 fs = 0 \<and> enc = ENC_HARDWARE \<longrightarrow>
      start_usb_ffmpeg_argv ctx devnode fs enc =
        [''ffmpeg'', ''-hide_banner'', ''-loglevel'', ''error'', ''-f'', ''v4l2'',
         ''-input_format'', usb_infmt fs, ''-video_size'', usb_sz ctx,
         ''-framerate'', usb_fr ctx, ''-i'', devnode,
         ''-pix_fmt'', ''nv12'', ''-c:v'', ''h264_v4l2m2m'',
         ''-b:v'', usb_br ctx, ''-maxrate'', usb_br ctx, ''-bufsize'', usb_br ctx,
         ''-f'', ''h264'', fifo_path ctx])
   \<and> (h264 fs = 0 \<and> enc \<noteq> ENC_HARDWARE \<longrightarrow>
      start_usb_ffmpeg_argv ctx devnode fs enc =
        [''ffmpeg'', ''-hide_banner'', ''-loglevel'', ''error'', ''-f'', ''v4l2'',
         ''-input_format'', usb_infmt fs, ''-video_size'', usb_sz ctx,
         ''-framerate'', usb_fr ctx, ''-i'', devnode,
         ''-c:v'', ''libx264'', ''-preset'', ''ultrafast'', ''-tune'', ''zerolatency'',
         ''-b:v'', usb_br ctx, ''-maxrate'', usb_br ctx, ''-bufsize'', usb_br ctx,
         ''-f'', ''h264'', fifo_path ctx])
   \<and> usb_br ctx = snprintf 32 (fmt_d (bitrate ctx))"
proof (intro conjI impI)
  assume h: "h264 fs \<noteq> 0"
  then show eq: "start_usb_ffmpeg_argv ctx devnode fs enc =
        [''ffmpeg'', ''-hide_banner'', ''-loglevel'', ''error'', ''-f'', ''v4l2'',
         ''-input_format'', ''h264'', ''-video_size'', usb_sz ctx, ''-framerate'', usb_fr ctx,
         ''-i'', devnode, ''-c:v'', ''copy'', ''-f'', ''h264'', fifo_path ctx]"
    by (simp add: start_usb_ffmpeg_argv_def usb_infmt_def Let_def)
  assume "devnode \<notin> {''libx264'', ''h264_v4l2m2m''}
           \<and> fifo_path ctx \<notin> {''libx264'', ''h264_v4l2m2m''}"
  then show "''libx264'' \<notin> set (start_usb_ffmpeg_argv ctx devnode fs enc)"
    and "''h264_v4l2m2m'' \<notin> set (start_usb_ffmpeg_argv ctx devnode fs enc)"
    unfolding eq using usb_sz_not_encoder [of ctx] usb_fr_not_encoder [of ctx] by auto
next
  assume "h264 fs = 0 \<and> enc = ENC_HARDWARE"
  then show "start_usb_ffmpeg_argv ctx devnode fs enc =
        [''ffmpeg'', ''-hide_banner'', ''-loglevel'', ''error'', ''-f'', ''v4l2'',
         ''-input_format'', usb_infmt fs, ''-video_size'', usb_sz ctx,
         ''-framerate'', usb_fr ctx, ''-i'', devnode,
         ''-pix_fmt'', ''nv12'', ''-c:v'', ''h264_v4l2m2m'',
         ''-b:v'', usb_br ctx, ''-maxrate'', usb_br ctx, ''-bufsize'', usb_br ctx,
         ''-f'', ''h264'', fifo_path ctx]"
    by (simp add: start_usb_ffmpeg_argv_def Let_def)
next
  assume "h264 fs = 0 \<and> enc \<noteq> ENC_HARDWARE"
  then show "start_usb_ffmpeg_argv ctx devnode fs enc =
        [''ffmpeg'', ''-hide_banner'', ''-loglevel'', ''error'', ''-f'', ''v4l2'',
         ''-input_format'', usb_infmt fs, ''-video_size'', usb_sz ctx,
         ''-framerate'', usb_fr ctx, ''-i'', devnode,
         ''-c:v'', ''libx264'', ''-preset'', ''ultrafast'', ''-tune'', ''zerolatency'',
         ''-b:v'', usb_br ctx, ''-maxrate'', usb_br ctx, ''-bufsize'', usb_br ctx,
         ''-f'', ''h264'', fifo_path ctx]"
    by (simp add: start_usb_ffmpeg_argv_def Let_def)
next
  show "usb_br ctx = snprintf 32 (fmt_d (bitrate ctx))"
    by (simp add: usb_br_def)
qed

subsection \<open>C9: the capability filter and the device scan\<close>

lemma scan_nodes_Some:
  "scan_nodes querycap outsz pathv = Some out \<Longrightarrow>
     \<exists>n \<in> set pathv. v4l2_supports_capture querycap n \<and> out = snprintf outsz n"
  by (induction pathv) (auto split: if_splits)

lemma pick_usb_node_Some:
  assumes "pick_usb_node querycap g outsz = Some out"
  shows "\<exists>pathv. g = Some pathv \<and>
           (\<exists>n \<in> set pathv. v4l2_supports_capture querycap n \<and> out = snprintf outsz n)"
  using assms scan_nodes_Some
  by (cases g) (auto simp: pick_usb_node_def)

text \<open>
  What the filter does reject. A device path is rejected by \<^verbatim>\<open>v4l2_supports_capture\<close> when
  its capability query fails, when its driver or card string contains \<^verbatim>\<open>bcm2835\<close> or
  \<^verbatim>\<open>bcm2835-codec\<close>, when its driver string does not contain \<^verbatim>\<open>uvcvideo\<close>, or when the
  capabilities of the device as a whole have no video-capture bit, single-plane or
  multi-plane, and the device capabilities of the node, if the device-caps flag is set,
  have none either. The scan \<^verbatim>\<open>pick_usb_node\<close> stops only at a path the filter accepts,
  never at such a path, and returns that path's text cut to its output buffer; over paths
  that fit the buffer it never returns such a path, and what it returns is a path the
  filter accepts.
\<close>

theorem filter_rejects_failed_tests:
  assumes "querycap node = None
     \<or> (\<exists>cap. querycap node = Some cap \<and>
          (found (strstr (driver cap) ''bcm2835'') \<or> found (strstr (card cap) ''bcm2835'')
           \<or> found (strstr (driver cap) ''bcm2835-codec'')
           \<or> found (strstr (card cap) ''bcm2835-codec'')
           \<or> \<not> found (strstr (driver cap) ''uvcvideo'')
           \<or> (capabilities cap AND (V4L2_CAP_VIDEO_CAPTURE OR V4L2_CAP_VIDEO_CAPTURE_MPLANE) = 0
              \<and> (capabilities cap AND V4L2_CAP_DEVICE_CAPS = 0
                 \<or> device_caps cap AND (V4L2_CAP_VIDEO_CAPTURE OR V4L2_CAP_VIDEO_CAPTURE_MPLANE) = 0))))"
  shows "\<not> v4l2_supports_capture querycap node
     \<and> (\<forall>out. pick_usb_node querycap g outsz = Some out \<longrightarrow>
           (\<exists>n \<in> \<Union> (set ` set_option g).
              n \<noteq> node \<and> v4l2_supports_capture querycap n \<and> out = snprintf outsz n))
     \<and> ((\<forall>pathv \<in> set_option g. \<forall>n \<in> set pathv. length n < outsz) \<longrightarrow>
          pick_usb_node querycap g outsz \<noteq> Some node
          \<and> (\<forall>out. pick_usb_node querycap g outsz = Some out \<longrightarrow>
                v4l2_supports_capture querycap out \<and> out \<in> \<Union> (set ` set_option g)))"
proof (intro conjI impI allI)
  show rej: "\<not> v4l2_supports_capture querycap node"
  proof (cases "querycap node")
    case None
    then show ?thesis by (simp add: v4l2_supports_capture_def)
  next
    case (Some cap)
    with assms have
      "found (strstr (driver cap) ''bcm2835'') \<or> found (strstr (card cap) ''bcm2835'')
       \<or> found (strstr (driver cap) ''bcm2835-codec'')
       \<or> found (strstr (card cap) ''bcm2835-codec'')
       \<or> \<not> found (strstr (driver cap) ''uvcvideo'')
       \<or> (capabilities cap AND (V4L2_CAP_VIDEO_CAPTURE OR V4L2_CAP_VIDEO_CAPTURE_MPLANE) = 0
          \<and> (capabilities cap AND V4L2_CAP_DEVICE_CAPS = 0
             \<or> device_caps cap AND (V4L2_CAP_VIDEO_CAPTURE OR V4L2_CAP_VIDEO_CAPTURE_MPLANE) = 0))"
      by simp
    then show ?thesis
      unfolding v4l2_supports_capture_def Some option.case
      by (simp only: if_split simp_thms) blast
  qed
  show "\<exists>n \<in> \<Union> (set ` set_option g).
          n \<noteq> node \<and> v4l2_supports_capture querycap n \<and> out = snprintf outsz n"
    if "pick_usb_node querycap g outsz = Some out" for out
  proof -
    from that obtain pathv n where "g = Some pathv" "n \<in> set pathv"
      "v4l2_supports_capture querycap n" "out = snprintf outsz n"
      using pick_usb_node_Some by blast
    with rej show ?thesis by auto
  qed
  assume fit: "\<forall>pathv \<in> set_option g. \<forall>n \<in> set pathv. length n < outsz"
  have sel: "v4l2_supports_capture querycap out \<and> out \<in> \<Union> (set ` set_option g)"
    if "pick_usb_node querycap g outsz = Some out" for out
  proof -
    from that obtain pathv n where g: "g = Some pathv" and n: "n \<in> set pathv"
      and acc: "v4l2_supports_capture querycap n" and out: "out = snprintf outsz n"
      using pick_usb_node_Some by blast
    from fit g n have "length n < outsz" by simp
    then have "out = n" using out by (simp add: snprintf_def)
    with acc g n show ?thesis by auto
  qed
  from sel rej show "pick_usb_node querycap g outsz \<noteq> Some node" by blast
  fix out
  assume "pick_usb_node querycap g outsz = Some out"
  with sel show "v4l2_supports_capture querycap out" and "out \<in> \<Union> (set ` set_option g)"
    by blast+
qed

theorem filter_rejects_examples:
  "\<not> v4l2_supports_capture qc_example ''/dev/video10''
   \<and> \<not> v4l2_supports_capture qc_example ''/dev/video2''
   \<and> \<not> v4l2_supports_capture qc_example ''/dev/video7''
   \<and> pick_usb_node qc_example
        (Some [''/dev/video10'', ''/dev/video2'', ''/dev/video7'', ''/dev/video0'']) 128
       = Some ''/dev/video0''
   \<and> v4l2_supports_capture qc_example ''/dev/video0''"
  using
    filter_rejects_failed_tests [of qc_example "''/dev/video10''"
      "Some [''/dev/video10'', ''/dev/video2'', ''/dev/video7'', ''/dev/video0'']" 128]
    filter_rejects_failed_tests [of qc_example "''/dev/video2''" None 128]
    filter_rejects_failed_tests [of qc_example "''/dev/video7''" None 128]
  by (simp add: qc_example_def pick_usb_node_def snprintf_def v4l2_supports_capture_def
      V4L2_CAP_DEVICE_CAPS_def V4L2_CAP_VIDEO_CAPTURE_def V4L2_CAP_VIDEO_CAPTURE_MPLANE_def)

text \<open>
  C9. A camera of the USB video class has two nodes: \<^verbatim>\<open>/dev/video9\<close> captures video and
  \<^verbatim>\<open>/dev/video10\<close> delivers metadata only. The capability query of the metadata node
  answers with the capabilities of the device as a whole, which include video capture
  and the device-caps flag, and with the device capabilities of the node itself, which
  have no video-capture bit, single-plane or multi-plane. \<^verbatim>\<open>v4l2_supports_capture\<close>
  finds no capture bit in the device capabilities, falls through to the test of the
  capabilities of the whole device, and accepts the node. \<^verbatim>\<open>glob\<close> delivers the paths
  sorted by name, \<^verbatim>\<open>/dev/video10\<close> before \<^verbatim>\<open>/dev/video9\<close>; the nodes before it belong to other
  drivers, and the scan selects the metadata node: a run with automatic source selection
  takes it as its capture source.
\<close>

theorem metadata_node_accepted:
  "qc_metadata ''/dev/video10'' = Some uvc_metadata_cap
   \<and> capabilities uvc_metadata_cap AND V4L2_CAP_DEVICE_CAPS \<noteq> 0
   \<and> device_caps uvc_metadata_cap AND (V4L2_CAP_VIDEO_CAPTURE OR V4L2_CAP_VIDEO_CAPTURE_MPLANE) = 0
   \<and> v4l2_supports_capture qc_metadata ''/dev/video10''
   \<and> pick_usb_node qc_metadata (Some glob_metadata) 128 = Some ''/dev/video10''
   \<and> qc_metadata ''/dev/video9'' = Some uvc_capture_cap
   \<and> v4l2_supports_capture qc_metadata ''/dev/video9''
   \<and> snd (decide_source env_metadata cfg_example) = Some (False, ''/dev/video10'', fmt_zero)"
  by (simp add: qc_metadata_def glob_metadata_def uvc_metadata_cap_def uvc_capture_cap_def
      pick_usb_node_def snprintf_def v4l2_supports_capture_def
      V4L2_CAP_DEVICE_CAPS_def V4L2_CAP_VIDEO_CAPTURE_def V4L2_CAP_VIDEO_CAPTURE_MPLANE_def
      decide_source_def csi_available_def detect_csi_available_def detect_usb_def
      env_metadata_def env_example_def cfg_example_def)

subsection \<open>C2: onboard-sensor availability and the order of the listed entries\<close>

text \<open>
  C2. The helper's report declares \<^verbatim>\<open>Available cameras\<close> and lists one entry without the
  USB tag followed by one entry with it. \<^verbatim>\<open>detect_csi_available\<close> answers false: the test
  \<^verbatim>\<open>strstr(pn, "usb@")\<close> reads from the entry to the end of the buffer, so the tag of the
  later entry counts against the earlier one.
\<close>

theorem detect_csi_available_csi_listed_first:
  "detect_csi_available (Some ''rpicam-vid'') True list_csi_first = False"
  by (simp add: detect_csi_available_def list_csi_first_def cstring_def index_scan.simps)

lemma detect_csi_available_usb_listed_first:
  "detect_csi_available (Some ''rpicam-vid'') True list_usb_first = True"
  by (simp add: detect_csi_available_def list_usb_first_def cstring_def index_scan.simps)

text \<open>
  What does hold: without the declaration the answer is false, with the declaration and no
  USB tag anywhere it is true, and a report whose only entry is USB-tagged gives false.
\<close>

lemma detect_csi_available_no_declaration:
  "\<not> found (strstr (cstring (take 8191 out)) ''Available cameras'') \<Longrightarrow>
     detect_csi_available cmd pipe_ok out = False"
  by (simp add: detect_csi_available_def Let_def split: option.splits)

lemma detect_csi_available_no_usb:
  "found (strstr (cstring (take 8191 out)) ''Available cameras'') \<Longrightarrow>
   \<not> found (strstr (cstring (take 8191 out)) ''usb@'') \<Longrightarrow>
     detect_csi_available (Some c) True out = True"
  by (simp add: detect_csi_available_def Let_def)

lemma detect_csi_available_examples:
  "detect_csi_available (Some ''rpicam-vid'') True list_only_usb = False"
  "detect_csi_available (Some ''rpicam-vid'') True list_only_csi = True"
  "detect_csi_available None True list_only_csi = False"
  by (simp_all add: detect_csi_available_def list_only_usb_def list_only_csi_def cstring_def
      index_scan.simps)

subsection \<open>C5: sticky values of the progress-log parser\<close>

lemma scan_s_length: "scan_s w s = Some b \<Longrightarrow> length b \<le> w"
  by (auto simp: scan_s_def Let_def split: if_splits)

lemma snprintf_token:
  "snprintf 64 (case scan_s 63 s of None \<Rightarrow> [] | Some b \<Rightarrow> b) =
     (case scan_s 63 s of None \<Rightarrow> [] | Some b \<Rightarrow> b)"
  by (auto simp: snprintf_def dest: scan_s_length split: option.splits)



lemma ffmpeg_log_reader_collect:
  assumes "CHR 0x0D \<notin> set l" and "CHR 0x0A \<notin> set l" and "length pre + length l \<le> 8191"
  shows "ffmpeg_log_reader scan_lf (pre, st) l = (pre @ l, st)"
  using assms
proof (induction l arbitrary: pre)
  case Nil
  then show ?case by (simp add: ffmpeg_log_reader_def)
next
  case (Cons c l)
  have "feed_byte scan_lf (pre, st) c = (pre @ [c], st)"
    using Cons.prems by (auto simp: feed_byte_def)
  moreover have "ffmpeg_log_reader scan_lf (pre @ [c], st) l = ((pre @ [c]) @ l, st)"
    using Cons.prems by (intro Cons.IH) simp_all
  ultimately show ?case by (simp add: ffmpeg_log_reader_def)
qed

text \<open>
  A whole line of at most 8191 bytes followed by a carriage return or a newline is handed
  to the line body as it is, up to its first NUL.
\<close>

lemma ffmpeg_log_reader_line:
  assumes "CHR 0x0D \<notin> set l" and "CHR 0x0A \<notin> set l" and "length l \<le> 8191"
    and "c = CHR 0x0D \<or> c = CHR 0x0A"
  shows "ffmpeg_log_reader scan_lf ([], st) (l @ [c]) = ([], process_line scan_lf st (cstring l))"
proof -
  have "ffmpeg_log_reader scan_lf ([], st) (l @ [c]) =
      feed_byte scan_lf (ffmpeg_log_reader scan_lf ([], st) l) c"
    by (simp add: ffmpeg_log_reader_def)
  also have "ffmpeg_log_reader scan_lf ([], st) l = ([] @ l, st)"
    using assms(1-3) by (intro ffmpeg_log_reader_collect) simp_all
  finally show ?thesis using assms(4) by (auto simp: feed_byte_def)
qed

lemma scan_s_no_space: "scan_s w s = Some b \<Longrightarrow> \<not> list_ex isspace b"
proof -
  assume a: "scan_s w s = Some b"
  then have "b = take w (takeWhile (\<lambda>c. \<not> isspace c) (dropWhile isspace s))"
    by (auto simp: scan_s_def Let_def split: if_splits)
  then have "set b \<subseteq> set (takeWhile (\<lambda>c. \<not> isspace c) (dropWhile isspace s))"
    by (simp add: set_take_subset)
  then show ?thesis
    by (auto simp: list_ex_iff dest: set_takeWhileD)
qed

lemma process_line_bitrate_no_space:
  assumes "\<not> list_ex isspace (latest_bitrate st)"
  shows "\<not> list_ex isspace (latest_bitrate (process_line scan_lf st line))"
proof (cases "strstr line ''bitrate=''")
  case None
  then show ?thesis using assms
    by (simp add: process_line_def Let_def split: option.splits)
next
  case (Some p)
  have "\<not> list_ex isspace (case scan_s 63 (drop 8 p) of None \<Rightarrow> [] | Some b \<Rightarrow> b)"
    using scan_s_no_space by (auto split: option.splits)
  then show ?thesis using Some
    by (simp add: process_line_def Let_def snprintf_token split: option.splits)
qed

subsection \<open>C10: a run with the overlay disabled\<close>

lemma then_do_fst:
  "fst (then_do r f) = fst r @ (case snd r of None \<Rightarrow> [] | Some a \<Rightarrow> fst (f a))"
  by (cases r) (auto simp: then_do_def split: option.splits prod.splits)

lemma then_do_snd:
  "snd (then_do r f) = (case snd r of None \<Rightarrow> None | Some a \<Rightarrow> snd (f a))"
  by (cases r) (auto simp: then_do_def split: option.splits prod.splits)

lemma die_fst_snd [simp]: "fst (die m) = [Die m]" "snd (die m) = None"
  by (simp_all add: die_def)

lemma spawn_child_quiet: "list_all quiet (fst (spawn_child sp argv cap))"
  by (simp add: spawn_child_def quiet_def)

lemma setup_tmp_quiet: "list_all quiet (fst (setup_tmp env ctx))"
  by (simp add: setup_tmp_def quiet_def Let_def split: option.splits)

lemma setup_tmp_overlay:
  "snd (setup_tmp env ctx) = Some ctx' \<Longrightarrow> overlay_disabled ctx' = overlay_disabled ctx"
  by (auto simp: setup_tmp_def Let_def split: option.splits if_splits)

lemma start_preview_quiet: "list_all quiet (fst (start_preview env ctx title))"
  by (simp add: start_preview_def then_do_fst spawn_child_quiet quiet_def split: option.splits)

lemma start_preview_overlay:
  "snd (start_preview env ctx title) = Some ctx' \<Longrightarrow>
     overlay_disabled ctx' = overlay_disabled ctx"
  by (auto simp: start_preview_def then_do_snd split: option.splits if_splits)

lemma start_camera_quiet:
  "list_all quiet (fst (start_camera env cfg ctx use_csi hc usbnode usbfmt enc))"
  by (simp add: start_camera_def start_csi_camera_def start_usb_ffmpeg_def then_do_fst
      spawn_child_quiet quiet_def Let_def split: option.splits)

lemma start_camera_overlay:
  "snd (start_camera env cfg ctx use_csi hc usbnode usbfmt enc) = Some ctx' \<Longrightarrow>
     overlay_disabled ctx' = overlay_disabled ctx"
  by (auto simp: start_camera_def start_csi_camera_def start_usb_ffmpeg_def then_do_snd Let_def
      split: option.splits if_splits)

lemma run_and_cleanup_quiet:
  "overlay_disabled ctx \<noteq> 0 \<Longrightarrow> list_all quiet (run_and_cleanup env ctx)"
  by (simp add: run_and_cleanup_def quiet_def)

lemma session_quiet:
  assumes "no_overlay \<noteq> 0"
  shows "list_all quiet (fst (session env cfg no_overlay hc src))"
proof -
  obtain use_csi usbnode usbfmt where src: "src = (use_csi, usbnode, usbfmt)"
    by (cases src) auto
  have ov0: "overlay_disabled (prepare_ctx cfg no_overlay) \<noteq> 0"
    using assms by (simp add: prepare_ctx_def)
  show ?thesis
    unfolding session_def src prod.case Let_def then_do_fst
    using ov0
    by (auto simp: setup_tmp_quiet start_preview_quiet start_camera_quiet
        run_and_cleanup_quiet setup_tmp_overlay start_preview_overlay start_camera_overlay
        split: option.splits)
qed

lemma decide_source_quiet: "list_all quiet (fst (decide_source env cfg))"
  by (simp add: decide_source_def quiet_def Let_def split: option.splits prod.splits)

lemma main_quiet:
  assumes "no_overlay \<noteq> 0"
  shows "list_all quiet (main env cfg list_only no_overlay)"
  using assms
  by (simp add: main_def Let_def then_do_fst decide_source_quiet session_quiet quiet_def
      list_cameras_report_def split: option.splits)

lemma stats_file_quiet:
  "list_all quiet evs \<Longrightarrow> stats_file fs = None \<or> stats_file fs = Some placeholder_stats \<Longrightarrow>
     stats_file (foldl apply_event fs evs) = None
     \<or> stats_file (foldl apply_event fs evs) = Some placeholder_stats"
proof (induction evs arbitrary: fs)
  case Nil
  then show ?case by simp
next
  case (Cons e evs)
  from Cons.prems have "stats_file (apply_event fs e) = None
      \<or> stats_file (apply_event fs e) = Some placeholder_stats"
    by (cases e) (auto simp: quiet_def)
  with Cons show ?case by simp
qed

lemma stats_file_kept:
  "list_all quiet evs \<Longrightarrow> \<forall>d ok. Rm_rf d ok \<notin> set evs \<Longrightarrow>
     stats_file fs = Some placeholder_stats \<or> (\<exists>f. File_write f placeholder_stats \<in> set evs) \<Longrightarrow>
     stats_file (foldl apply_event fs evs) = Some placeholder_stats"
proof (induction evs arbitrary: fs)
  case Nil
  then show ?case by simp
next
  case (Cons e evs)
  have q: "list_all quiet evs" and nrm: "\<forall>d ok. Rm_rf d ok \<notin> set evs"
    using Cons.prems by auto
  have "stats_file (apply_event fs e) = Some placeholder_stats
      \<or> (\<exists>f. File_write f placeholder_stats \<in> set evs)"
    using Cons.prems by (cases e) (auto simp: quiet_def)
  from Cons.IH [OF q nrm this] show ?case by simp
qed

lemmas run_defs = main_def then_do_def decide_source_def session_def csi_available_def
  detect_csi_available_def detect_usb_def pick_usb_node_def v4l2_supports_capture_def
  V4L2_CAP_DEVICE_CAPS_def V4L2_CAP_VIDEO_CAPTURE_def V4L2_CAP_VIDEO_CAPTURE_MPLANE_def
  snprintf_def prepare_ctx_def setup_tmp_def start_preview_def spawn_child_def die_def
  start_camera_def start_usb_ffmpeg_def start_csi_camera_def run_and_cleanup_def
  stats_writer_events_def Let_def

lemmas argv_defs = start_preview_argv_def overlay_coords_def DEFAULT_CORNER_def
  start_usb_ffmpeg_argv_def usb_infmt_def usb_sz_def usb_fr_def usb_br_def fmt_d_def
  show_int_def show_nat.simps digit_char_def

lemma main_example_no_overlay:
  "main env_example cfg_example 0 1 =
     [Mkdtemp ''/tmp/picamc.a1B2c3'',
      Mkfifo ''/tmp/picamc.a1B2c3/video.h264'',
      File_write ''/tmp/picamc.a1B2c3/stats.txt'' placeholder_stats,
      Spawn (start_preview_argv
        \<lparr>tmpdir = ''/tmp/picamc.a1B2c3'',
           fifo_path = ''/tmp/picamc.a1B2c3/video.h264'',
           stats_path = ''/tmp/picamc.a1B2c3/stats.txt'', cam_pid = 0,
           prev_pid = 0, prev_stderr_fd = 0, running = 1,
           overlay_disabled = 1, width = 1280, height = 720, fps = 30,
           bitrate = 4000000\<rparr> ''USB Camera Preview''),
      Spawn (start_usb_ffmpeg_argv
        \<lparr>tmpdir = ''/tmp/picamc.a1B2c3'',
           fifo_path = ''/tmp/picamc.a1B2c3/video.h264'',
           stats_path = ''/tmp/picamc.a1B2c3/stats.txt'', cam_pid = 0,
           prev_pid = 2001, prev_stderr_fd = 5, running = 1,
           overlay_disabled = 1, width = 1280, height = 720, fps = 30,
           bitrate = 4000000\<rparr>
         ''/dev/video0'' \<lparr>h264 = 0, mjpg = 1, yuyv = 1\<rparr> ENC_HARDWARE),
      Waitpid 2002, Waitpid 2001, Rm_rf ''/tmp/picamc.a1B2c3'' True, Return 0]"
  by (simp add: run_defs env_example_def cfg_example_def qc_example_def)

lemma no_write_append [simp]: "no_write (xs @ ys) = (no_write xs \<and> no_write ys)"
  by (simp add: no_write_def)

lemma no_spawn_append [simp]: "no_spawn (xs @ ys) = (no_spawn xs \<and> no_spawn ys)"
  by (simp add: no_spawn_def)

lemma no_write_simps [simp]:
  "no_write []" "no_write (Die m # evs) = no_write evs" "no_write (Spawn a # evs) = no_write evs"
  "no_write (Waitpid p # evs) = no_write evs" "no_write (Rm_rf d ok # evs) = no_write evs"
  "no_write (Return r # evs) = no_write evs" "no_write (Stdout x # evs) = no_write evs"
  by (simp_all add: no_write_def)

lemma no_spawn_simps [simp]:
  "no_spawn []" "no_spawn (Die m # evs) = no_spawn evs"
  "no_spawn (Mkdtemp d # evs) = no_spawn evs" "no_spawn (Mkfifo f # evs) = no_spawn evs"
  "no_spawn (File_write f t # evs) = no_spawn evs" "no_spawn (Return r # evs) = no_spawn evs"
  "no_spawn (Stdout x # evs) = no_spawn evs"
  by (simp_all add: no_spawn_def)

lemma no_write_spawn_child: "no_write (fst (spawn_child sp argv cap))"
  by (simp add: spawn_child_def)

lemma no_write_start_preview: "no_write (fst (start_preview env ctx title))"
  by (simp add: start_preview_def then_do_fst no_write_spawn_child split: option.splits)

lemma no_write_start_camera:
  "no_write (fst (start_camera env cfg ctx use_csi hc usbnode usbfmt enc))"
  by (simp add: start_camera_def start_csi_camera_def start_usb_ffmpeg_def then_do_fst
      no_write_spawn_child Let_def split: option.splits)

lemma no_write_run_and_cleanup:
  "overlay_disabled ctx \<noteq> 0 \<Longrightarrow> no_write (run_and_cleanup env ctx)"
  by (simp add: run_and_cleanup_def)

lemma no_spawn_setup_tmp: "no_spawn (fst (setup_tmp env ctx))"
  by (simp add: setup_tmp_def Let_def split: option.splits)

lemma no_spawn_decide_source: "no_spawn (fst (decide_source env cfg))"
  by (simp add: decide_source_def Let_def split: option.splits prod.splits)

lemma no_spawn_list_cameras_report:
  "no_spawn (list_cameras_report env)" "no_write (list_cameras_report env)"
  by (simp_all add: list_cameras_report_def)

text \<open>
  A run with the overlay disabled splits into a first part that starts no process and a
  second part that writes no file.
\<close>

lemma session_split:
  assumes "no_overlay \<noteq> 0"
  shows "\<exists>A B. fst (session env cfg no_overlay hc src) = A @ B \<and> no_spawn A \<and> no_write B"
proof -
  obtain use_csi usbnode usbfmt where src: "src = (use_csi, usbnode, usbfmt)"
    by (cases src) auto
  let ?s1 = "setup_tmp env (prepare_ctx cfg no_overlay)"
  let ?title = "if use_csi then ''PiCam Preview (CSI)'' else ''USB Camera Preview''"
  let ?enc = "if cfg_encode_mode cfg = ENC_AUTO then ENC_HARDWARE else cfg_encode_mode cfg"
  let ?rest = "\<lambda>ctx. then_do (start_preview env ctx ?title)
      (\<lambda>ctx. then_do (start_camera env cfg ctx use_csi hc usbnode usbfmt ?enc)
         (\<lambda>ctx. (run_and_cleanup env ctx, Some ())))"
  have S: "fst (session env cfg no_overlay hc src) =
      fst ?s1 @ (case snd ?s1 of None \<Rightarrow> [] | Some c \<Rightarrow> fst (?rest c))"
    by (simp add: session_def src Let_def then_do_fst)
  have ov0: "overlay_disabled (prepare_ctx cfg no_overlay) \<noteq> 0"
    using assms by (simp add: prepare_ctx_def)
  have "no_write (fst (?rest c))" if "snd ?s1 = Some c" for c
  proof -
    have "overlay_disabled c \<noteq> 0" using setup_tmp_overlay [OF that] ov0 by simp
    then show ?thesis
      by (auto simp: then_do_fst no_write_start_preview no_write_start_camera
          no_write_run_and_cleanup start_preview_overlay start_camera_overlay
          split: option.splits)
  qed
  then have "no_write (case snd ?s1 of None \<Rightarrow> [] | Some c \<Rightarrow> fst (?rest c))"
    by (cases "snd ?s1") simp_all
  with S no_spawn_setup_tmp [of env "prepare_ctx cfg no_overlay"] show ?thesis by blast
qed

lemma main_split:
  assumes "no_overlay \<noteq> 0"
  shows "\<exists>A B. main env cfg list_only no_overlay = A @ B \<and> no_spawn A \<and> no_write B"
proof (cases "env_ffmpeg_exists env \<and> list_only = 0")
  case False
  then have "no_spawn (main env cfg list_only no_overlay)"
    by (auto simp: main_def Let_def no_spawn_list_cameras_report)
  then have "main env cfg list_only no_overlay = main env cfg list_only no_overlay @ []
      \<and> no_spawn (main env cfg list_only no_overlay) \<and> no_write []"
    by simp
  then show ?thesis by blast
next
  case True
  let ?ds = "decide_source env cfg"
  let ?hc = "found (env_camera_cmd env)"
  have m: "main env cfg list_only no_overlay =
      fst ?ds @ (case snd ?ds of None \<Rightarrow> [] | Some src \<Rightarrow> fst (session env cfg no_overlay ?hc src))"
    using True by (simp add: main_def Let_def then_do_fst)
  show ?thesis
  proof (cases "snd ?ds")
    case None
    then have "main env cfg list_only no_overlay = fst ?ds @ [] \<and> no_spawn (fst ?ds) \<and> no_write []"
      using m no_spawn_decide_source by simp
    then show ?thesis by blast
  next
    case (Some src)
    obtain A B where "fst (session env cfg no_overlay ?hc src) = A @ B" "no_spawn A" "no_write B"
      using session_split [OF assms] by blast
    then have "main env cfg list_only no_overlay = (fst ?ds @ A) @ B
        \<and> no_spawn (fst ?ds @ A) \<and> no_write B"
      using m Some no_spawn_decide_source by simp
    then show ?thesis by blast
  qed
qed

lemma split_before_spawn:
  assumes "A @ B = pre @ Spawn a # rest" and "no_spawn A"
  shows "set A \<subseteq> set pre"
proof -
  from assms(1) obtain us where
    "(A = pre @ us \<and> us @ B = Spawn a # rest) \<or> (A @ us = pre \<and> B = us @ Spawn a # rest)"
    by (auto simp: append_eq_append_conv2)
  then show ?thesis
  proof
    assume c: "A = pre @ us \<and> us @ B = Spawn a # rest"
    have "us = []"
    proof (cases us)
      case Nil
      then show ?thesis .
    next
      case (Cons u us')
      with c have "u = Spawn a" by simp
      with c Cons assms(2) show ?thesis by (simp add: no_spawn_def)
    qed
    with c show ?thesis by simp
  next
    assume "A @ us = pre \<and> B = us @ Spawn a # rest"
    then show ?thesis by auto
  qed
qed

lemma write_before_spawn:
  assumes "no_overlay \<noteq> 0"
    and "main env cfg list_only no_overlay = pre @ Spawn a # rest"
    and "File_write f t \<in> set (main env cfg list_only no_overlay)"
  shows "File_write f t \<in> set pre"
proof -
  obtain A B where ab: "main env cfg list_only no_overlay = A @ B" "no_spawn A" "no_write B"
    using main_split [OF assms(1)] by blast
  have "File_write f t \<notin> set B"
    using ab(3) by (auto simp: no_write_def list_all_iff)
  with assms(3) ab(1) have "File_write f t \<in> set A" by auto
  moreover have "set A \<subseteq> set pre"
    using split_before_spawn [of A B pre a rest] ab assms(2) by simp
  ultimately show ?thesis by blast
qed

text \<open>
  C10. In every run started with the overlay disabled, no thread is created (neither the
  log reader nor the stats writer), every write to a file carries the placeholder text,
  and at every point of the run the status file is absent or holds the placeholder; from
  the write of the placeholder until \<^verbatim>\<open>rm -rf\<close> it holds exactly the placeholder. The
  write comes before the start of either process. The placeholder has the five lines
  FPS, RES, BitRate, CPU and MEM, and no MEM\_MB line.
\<close>

theorem overlay_disabled_keeps_placeholder:
  assumes "no_overlay \<noteq> 0"
  shows "(\<forall>t. Thread_create t \<notin> set (main env cfg list_only no_overlay))
     \<and> (\<forall>f text. File_write f text \<in> set (main env cfg list_only no_overlay) \<longrightarrow>
           text = placeholder_stats)
     \<and> (\<forall>p. prefix p (main env cfg list_only no_overlay) \<longrightarrow>
           stats_file (fs_after p) = None \<or> stats_file (fs_after p) = Some placeholder_stats)
     \<and> (\<forall>p. prefix p (main env cfg list_only no_overlay)
             \<and> (\<exists>f. File_write f placeholder_stats \<in> set p)
             \<and> (\<forall>d ok. Rm_rf d ok \<notin> set p) \<longrightarrow>
           stats_file (fs_after p) = Some placeholder_stats)
     \<and> (\<forall>pre a rest f text.
           main env cfg list_only no_overlay = pre @ Spawn a # rest
             \<and> File_write f text \<in> set (main env cfg list_only no_overlay) \<longrightarrow>
           File_write f text \<in> set pre)
     \<and> file_lines placeholder_stats =
          [''FPS: 0.0'', ''RES: 0x0'', ''BitRate: 0'', ''CPU: 0%'', ''MEM: 0%'']
     \<and> labelled_value ''MEM_MB:'' placeholder_stats = None"
proof -
  let ?run = "main env cfg list_only no_overlay"
  have q: "list_all quiet ?run"
    using assms by (rule main_quiet)
  have qp: "list_all quiet p" if "prefix p ?run" for p
    using q set_mono_prefix [OF that] by (auto simp: list_all_iff)
  have a: "\<forall>t. Thread_create t \<notin> set ?run"
    using q by (auto simp: list_all_iff quiet_def)
  have b: "\<forall>f text. File_write f text \<in> set ?run \<longrightarrow> text = placeholder_stats"
    using q by (auto simp: list_all_iff quiet_def)
  have c: "\<forall>p. prefix p ?run \<longrightarrow>
      stats_file (fs_after p) = None \<or> stats_file (fs_after p) = Some placeholder_stats"
    using qp stats_file_quiet unfolding fs_after_def by simp
  have d: "\<forall>p. prefix p ?run \<and> (\<exists>f. File_write f placeholder_stats \<in> set p)
             \<and> (\<forall>d ok. Rm_rf d ok \<notin> set p) \<longrightarrow>
           stats_file (fs_after p) = Some placeholder_stats"
    using qp stats_file_kept unfolding fs_after_def by blast
  have e: "file_lines placeholder_stats =
          [''FPS: 0.0'', ''RES: 0x0'', ''BitRate: 0'', ''CPU: 0%'', ''MEM: 0%'']"
    by (simp add: file_lines_def placeholder_stats_def)
  have f: "labelled_value ''MEM_MB:'' placeholder_stats = None"
    by (simp add: labelled_value_def e)
  have g: "\<forall>pre a rest f text. ?run = pre @ Spawn a # rest \<and> File_write f text \<in> set ?run \<longrightarrow>
      File_write f text \<in> set pre"
    using write_before_spawn [OF assms] by blast
  from a b c d e f g show ?thesis by blast
qed

theorem overlay_disabled_keeps_placeholder_witness:
  "Thread_create TH_STATS \<notin> set (main env_example cfg_example 0 1)
   \<and> Thread_create TH_LOG \<notin> set (main env_example cfg_example 0 1)
   \<and> stats_file (fs_after (take 7 (main env_example cfg_example 0 1))) = Some placeholder_stats
   \<and> stats_file (fs_after (take 3 (main env_example cfg_example 0 1))) = Some placeholder_stats"
proof -
  let ?run = "main env_example cfg_example 0 1"
  note th = overlay_disabled_keeps_placeholder [of 1 env_example cfg_example 0]
  have one: "(1 :: c_int) \<noteq> 0" by simp
  have k: "prefix (take k ?run) ?run" for k
    by (rule take_is_prefix)
  have w7: "File_write ''/tmp/picamc.a1B2c3/stats.txt'' placeholder_stats \<in> set (take 7 ?run)"
    and w3: "File_write ''/tmp/picamc.a1B2c3/stats.txt'' placeholder_stats \<in> set (take 3 ?run)"
    and r7: "\<forall>d ok. Rm_rf d ok \<notin> set (take 7 ?run)"
    and r3: "\<forall>d ok. Rm_rf d ok \<notin> set (take 3 ?run)"
    unfolding main_example_no_overlay by simp_all
  from th [OF one] k [of 7] k [of 3] w7 w3 r7 r3 show ?thesis by blast
qed

subsection \<open>C7: the overlay corner of the consumer command line\<close>

text \<open>
  C7. A run configured with the corner \<^verbatim>\<open>bottom-right\<close> (overlay enabled, a USB camera with
  MJPEG): the consumer's \<^verbatim>\<open>drawtext\<close> filter is positioned at \<^verbatim>\<open>x=10:y=10\<close>, the
  coordinates of the top-left corner, although \<^verbatim>\<open>overlay_coords\<close> has \<^verbatim>\<open>w-tw-10\<close> and
  \<^verbatim>\<open>h-th-10\<close> for that corner. \<^verbatim>\<open>start_preview\<close> passes \<^verbatim>\<open>DEFAULT_CORNER\<close> and never
  reads the configured one.
\<close>

theorem preview_ignores_corner:
  "main env_example (cfg_example\<lparr>cfg_corner := ''bottom-right''\<rparr>) 0 0 =
     [Mkdtemp ''/tmp/picamc.a1B2c3'',
      Mkfifo ''/tmp/picamc.a1B2c3/video.h264'',
      File_write ''/tmp/picamc.a1B2c3/stats.txt'' placeholder_stats,
      Spawn [''ffmpeg'', ''-hide_banner'', ''-loglevel'', ''info'', ''-stats'',
             ''-fflags'', ''+nobuffer'', ''-flags'', ''+low_delay'',
             ''-reorder_queue_size'', ''0'', ''-thread_queue_size'', ''512'',
             ''-f'', ''h264'', ''-i'', ''/tmp/picamc.a1B2c3/video.h264'',
             ''-vf'',
             ''drawtext=fontfile=/usr/share/fonts/truetype/dejavu/DejaVuSans.ttf:'' @
             ''textfile=/tmp/picamc.a1B2c3/stats.txt:reload=1:x=10:y=10:'' @
             ''fontcolor=white:fontsize=28:'' @
             ''box=1:boxcolor=0x000000AA:boxborderw=8:line_spacing=6'',
             ''-an'', ''-f'', ''sdl'', ''USB Camera Preview''],
      Spawn [''ffmpeg'', ''-hide_banner'', ''-loglevel'', ''error'', ''-f'', ''v4l2'',
             ''-input_format'', ''mjpeg'', ''-video_size'', ''1280x720'',
             ''-framerate'', ''30'', ''-i'', ''/dev/video0'',
             ''-pix_fmt'', ''nv12'', ''-c:v'', ''h264_v4l2m2m'',
             ''-b:v'', ''4000000'', ''-maxrate'', ''4000000'', ''-bufsize'', ''4000000'',
             ''-f'', ''h264'', ''/tmp/picamc.a1B2c3/video.h264''],
      Thread_create TH_LOG, Thread_create TH_STATS,
      Waitpid 2002, Waitpid 2001,
      Thread_cancel TH_LOG, Thread_cancel TH_STATS, Thread_join TH_LOG, Thread_join TH_STATS,
      Rm_rf ''/tmp/picamc.a1B2c3'' True, Return 0]
   \<and> overlay_coords ''bottom-right'' = (''w-tw-10'', ''h-th-10'')"
  by (simp add: run_defs argv_defs env_example_def cfg_example_def qc_example_def)

text \<open>
  For every context and title the consumer's \<^verbatim>\<open>-vf\<close> argument is the \<^verbatim>\<open>drawtext\<close>
  filter at \<^verbatim>\<open>x=10:y=10\<close>, while \<^verbatim>\<open>overlay_coords\<close> itself maps top-left to the fixed
  offsets and the other three corners to expressions in the text and frame sizes.
\<close>

theorem consumer_filter_fixed_corner:
  "start_preview_argv ctx title ! 17 = ''-vf''
   \<and> start_preview_argv ctx title ! 18 =
     ''drawtext=fontfile=/usr/share/fonts/truetype/dejavu/DejaVuSans.ttf:'' @
     ''textfile='' @ stats_path ctx @ '':reload=1:x=10:y=10:fontcolor=white:fontsize=28:'' @
     ''box=1:boxcolor=0x000000AA:boxborderw=8:line_spacing=6''
   \<and> overlay_coords ''top-left'' = (''10'', ''10'')
   \<and> overlay_coords ''top-right'' = (''w-tw-10'', ''10'')
   \<and> overlay_coords ''bottom-left'' = (''10'', ''h-th-10'')
   \<and> overlay_coords ''bottom-right'' = (''w-tw-10'', ''h-th-10'')"
  by (simp add: start_preview_argv_def overlay_coords_def DEFAULT_CORNER_def)

subsection \<open>C8: the ephemeral directory at exit\<close>

text \<open>
  C8. A run in which \<^verbatim>\<open>mkfifo\<close> fails after \<^verbatim>\<open>mkdtemp\<close> succeeded: \<^verbatim>\<open>safe_mkfifo\<close> calls
  \<^verbatim>\<open>die\<close>, the process exits with status 1, \<^verbatim>\<open>ensure_dir_remove\<close> is not reached and the
  directory is still there at exit.
\<close>

theorem mkfifo_failure_leaves_directory:
  "main (env_example\<lparr>env_mkfifo_ok := False\<rparr>) cfg_example 0 0 =
     [Mkdtemp ''/tmp/picamc.a1B2c3'', Die ''mkfifo(/tmp/picamc.a1B2c3/video.h264)'']
   \<and> dir_present (fs_after (main (env_example\<lparr>env_mkfifo_ok := False\<rparr>) cfg_example 0 0))"
  by (simp add: run_defs env_example_def cfg_example_def qc_example_def fs_after_def)

text \<open>The same run without the failure ends with the directory removed.\<close>

lemma normal_exit_removes_directory:
  "fs_after (main env_example cfg_example 0 0) =
     \<lparr>dir_present = False, fifo_present = False, stats_file = None\<rparr>"
  by (simp add: run_defs env_example_def cfg_example_def qc_example_def fs_after_def)

lemma plain_simps [simp]:
  "plain []" "plain (Spawn a # evs) = plain evs"
  "plain (Mkdtemp d # evs) = plain evs" "plain (Mkfifo f # evs) = plain evs"
  "plain (File_write f t # evs) = plain evs" "plain (Thread_create th # evs) = plain evs"
  "plain (Thread_cancel th # evs) = plain evs" "plain (Thread_join th # evs) = plain evs"
  "plain (Waitpid p # evs) = plain evs"
  "plain (Die m # evs) = False" "plain (Rm_rf d ok # evs) = False"
  "plain (Return r # evs) = False"
  "plain (xs @ ys) = (plain xs \<and> plain ys)"
  by (simp_all add: plain_def)

lemma step_ok_None:
  "snd r = None \<Longrightarrow> step_ok r = (\<exists>pre m. fst r = pre @ [Die m] \<and> plain pre)"
  by (simp add: step_ok_def)

lemma step_ok_Some: "snd r = Some a \<Longrightarrow> step_ok r = plain (fst r)"
  by (simp add: step_ok_def)

lemma step_ok_die: "step_ok (die m)"
  by (simp add: step_ok_None die_def)

lemma step_ok_then_do:
  assumes "step_ok r" and "\<And>a. snd r = Some a \<Longrightarrow> step_ok (f a)"
  shows "step_ok (then_do r f)"
proof (cases "snd r")
  case None
  then show ?thesis using assms(1)
    by (simp add: step_ok_None then_do_fst then_do_snd)
next
  case (Some a)
  have pr: "plain (fst r)" using assms(1) Some by (simp add: step_ok_Some)
  have fa: "step_ok (f a)" using assms(2) Some by simp
  show ?thesis
  proof (cases "snd (f a)")
    case None
    then obtain pre m where "fst (f a) = pre @ [Die m]" "plain pre"
      using fa by (auto simp: step_ok_None)
    then have "fst (then_do r f) = (fst r @ pre) @ [Die m] \<and> plain (fst r @ pre)"
      using Some pr by (simp add: then_do_fst)
    moreover have "snd (then_do r f) = None" using Some None by (simp add: then_do_snd)
    ultimately show ?thesis by (subst step_ok_None) blast+
  next
    case b: (Some b)
    then have "plain (fst (f a))" using fa by (simp add: step_ok_Some)
    then show ?thesis using Some b pr
      by (simp add: step_ok_def then_do_fst then_do_snd)
  qed
qed

lemma step_ok_pure [simp]: "step_ok ([], Some a)"
  by (simp add: step_ok_def)

lemma step_ok_spawn_child: "step_ok (spawn_child sp argv cap)"
  by (simp add: spawn_child_def step_ok_die) (simp add: step_ok_def)

lemma step_ok_setup_tmp: "step_ok (setup_tmp env ctx)"
proof (cases "env_mkdtemp env")
  case None
  then show ?thesis by (simp add: setup_tmp_def step_ok_die)
next
  case (Some d)
  show ?thesis
  proof (cases "env_mkfifo_ok env")
    case True
    then show ?thesis using Some by (simp add: setup_tmp_def Let_def step_ok_def)
  next
    case False
    have "\<exists>pre m. [Mkdtemp d, Die (''mkfifo('' @ snprintf 4096 (d @ ''/video.h264'') @ '')'')]
        = pre @ [Die m] \<and> plain pre"
      by (rule exI [of _ "[Mkdtemp d]"]) simp
    then show ?thesis using Some False
      by (subst step_ok_None) (simp_all add: setup_tmp_def Let_def)
  qed
qed

lemma step_ok_start_preview: "step_ok (start_preview env ctx title)"
  unfolding start_preview_def
  by (simp add: step_ok_die step_ok_then_do step_ok_spawn_child)

lemma step_ok_start_usb_ffmpeg: "step_ok (start_usb_ffmpeg env ctx devnode fs enc)"
  unfolding start_usb_ffmpeg_def
  by (simp add: step_ok_then_do step_ok_spawn_child)

lemma step_ok_start_csi_camera: "step_ok (start_csi_camera env ctx w h f b)"
  unfolding start_csi_camera_def
  by (simp add: step_ok_die step_ok_then_do step_ok_spawn_child split: option.splits)

lemma step_ok_start_camera:
  "step_ok (start_camera env cfg ctx use_csi hc usbnode usbfmt enc)"
  unfolding start_camera_def Let_def
  by (simp add: step_ok_die step_ok_start_csi_camera step_ok_start_usb_ffmpeg)

lemma step_ok_decide_source: "step_ok (decide_source env cfg)"
  unfolding decide_source_def Let_def
  by (simp add: step_ok_die split: option.splits prod.splits)

lemma plain_run_and_cleanup:
  "\<exists>pre. run_and_cleanup env ctx = pre @ [Rm_rf (tmpdir ctx) (env_rm_ok env), Return 0]
         \<and> plain pre"
proof -
  have "plain (stats_writer_events ctx cycs)" for cycs
    by (induction cycs) (auto simp: stats_writer_events_def split: option.splits)
  then show ?thesis
    by (simp add: run_and_cleanup_def Let_def)
qed

lemma then_do_assoc: "then_do (then_do r f) g = then_do r (\<lambda>a. then_do (f a) g)"
  by (cases r) (auto simp: then_do_def split: option.splits prod.splits)

lemma setup_tmp_tmpdir:
  "snd (setup_tmp env ctx) = Some ctx' \<Longrightarrow>
     \<exists>d. env_mkdtemp env = Some d \<and> tmpdir ctx' = snprintf 4096 d"
  by (auto simp: setup_tmp_def die_def Let_def split: option.splits if_splits)

lemma start_preview_tmpdir:
  "snd (start_preview env ctx title) = Some ctx' \<Longrightarrow> tmpdir ctx' = tmpdir ctx"
  by (auto simp: start_preview_def then_do_snd split: option.splits if_splits)

lemma start_camera_tmpdir:
  "snd (start_camera env cfg ctx use_csi hc usbnode usbfmt enc) = Some ctx' \<Longrightarrow>
     tmpdir ctx' = tmpdir ctx"
  by (auto simp: start_camera_def start_csi_camera_def start_usb_ffmpeg_def then_do_snd Let_def
      split: option.splits if_splits)

lemma session_startup:
  "session env cfg no_overlay hc src =
     then_do (startup env cfg no_overlay hc src) (\<lambda>ctx. (run_and_cleanup env ctx, Some ()))"
  by (cases src) (simp add: session_def startup_def Let_def then_do_assoc)

lemma step_ok_startup: "step_ok (startup env cfg no_overlay hc src)"
  by (cases src)
    (simp add: startup_def step_ok_then_do step_ok_setup_tmp step_ok_start_preview
      step_ok_start_camera)

lemma startup_tmpdir:
  assumes "snd (startup env cfg no_overlay hc src) = Some ctx"
  shows "\<exists>d. env_mkdtemp env = Some d \<and> tmpdir ctx = snprintf 4096 d"
proof -
  obtain use_csi usbnode usbfmt where src: "src = (use_csi, usbnode, usbfmt)"
    by (cases src) auto
  from assms obtain c1 c2 where
    c1: "snd (setup_tmp env (prepare_ctx cfg no_overlay)) = Some c1" and
    c2: "snd (start_preview env c1
               (if use_csi then ''PiCam Preview (CSI)'' else ''USB Camera Preview'')) = Some c2" and
    c3: "snd (start_camera env cfg c2 use_csi hc usbnode usbfmt
               (if cfg_encode_mode cfg = ENC_AUTO then ENC_HARDWARE
                else cfg_encode_mode cfg)) = Some ctx"
    unfolding startup_def src by (auto simp: then_do_snd split: option.splits)
  from setup_tmp_tmpdir [OF c1] start_preview_tmpdir [OF c2] start_camera_tmpdir [OF c3]
  show ?thesis by auto
qed

lemma session_paths:
  "(\<exists>pre m. fst (session env cfg no_overlay hc src) = pre @ [Die m] \<and> plain pre)
   \<or> (\<exists>d pre. env_mkdtemp env = Some d \<and> plain pre \<and>
         fst (session env cfg no_overlay hc src) =
           pre @ [Rm_rf (snprintf 4096 d) (env_rm_ok env), Return 0])"
proof (cases "snd (startup env cfg no_overlay hc src)")
  case None
  then have "\<exists>pre m. fst (startup env cfg no_overlay hc src) = pre @ [Die m] \<and> plain pre"
    using step_ok_startup [of env cfg no_overlay hc src] by (simp add: step_ok_None)
  then show ?thesis using None by (simp add: session_startup then_do_fst)
next
  case (Some ctx)
  then have p: "plain (fst (startup env cfg no_overlay hc src))"
    using step_ok_startup [of env cfg no_overlay hc src] by (simp add: step_ok_Some)
  obtain d where d: "env_mkdtemp env = Some d" "tmpdir ctx = snprintf 4096 d"
    using startup_tmpdir [OF Some] by blast
  obtain pre where pre: "run_and_cleanup env ctx =
      pre @ [Rm_rf (tmpdir ctx) (env_rm_ok env), Return 0]" "plain pre"
    using plain_run_and_cleanup by blast
  have "fst (session env cfg no_overlay hc src) =
      (fst (startup env cfg no_overlay hc src) @ pre)
        @ [Rm_rf (snprintf 4096 d) (env_rm_ok env), Return 0]"
    using Some pre d by (simp add: session_startup then_do_fst)
  moreover have "plain (fst (startup env cfg no_overlay hc src) @ pre)"
    using p pre by simp
  ultimately show ?thesis using d by blast
qed

lemma main_paths:
  assumes "list_only = 0"
  shows "(\<exists>pre m. main env cfg list_only no_overlay = pre @ [Die m] \<and> plain pre)
   \<or> (\<exists>d pre. env_mkdtemp env = Some d \<and> plain pre \<and>
         main env cfg list_only no_overlay =
           pre @ [Rm_rf (snprintf 4096 d) (env_rm_ok env), Return 0])"
proof (cases "env_ffmpeg_exists env")
  case False
  have "\<exists>pre m. [Die ''ffmpeg not found''] = pre @ [Die m] \<and> plain pre"
    by (rule exI [of _ "[]"]) simp
  with False show ?thesis by (simp add: main_def)
next
  case True
  let ?hc = "found (env_camera_cmd env)"
  have m: "main env cfg list_only no_overlay =
      fst (then_do (decide_source env cfg) (session env cfg no_overlay ?hc))"
    using True assms by (simp add: main_def Let_def)
  show ?thesis
  proof (cases "snd (decide_source env cfg)")
    case None
    then show ?thesis
      using step_ok_decide_source [of env cfg]
      by (simp add: m then_do_fst step_ok_None)
  next
    case (Some src)
    then have "plain (fst (decide_source env cfg))"
      using step_ok_decide_source [of env cfg] by (simp add: step_ok_Some)
    then have e: "fst (decide_source env cfg) = []"
      by (auto simp: decide_source_def Let_def die_def split: if_splits option.splits prod.splits)
    show ?thesis
      using session_paths [of env cfg no_overlay ?hc src] Some e
      by (simp add: m then_do_fst)
  qed
qed

lemma fs_after_removed:
  "fs_after (pre @ [Rm_rf d True, Return r]) =
     \<lparr>dir_present = False, fifo_present = False, stats_file = None\<rparr>"
  by (simp add: fs_after_def)

lemma plain_dir_foldl:
  "plain evs \<Longrightarrow>
     dir_present (foldl apply_event fs evs) = (dir_present fs \<or> (\<exists>d. Mkdtemp d \<in> set evs))"
proof (induction evs arbitrary: fs)
  case Nil
  then show ?case by simp
next
  case (Cons e evs)
  then show ?case by (cases e) (auto simp: plain_def)
qed

lemma plain_dir_present:
  "plain evs \<Longrightarrow>
     dir_present (foldl apply_event
        \<lparr>dir_present = False, fifo_present = False, stats_file = None\<rparr> evs)
       = (\<exists>d. Mkdtemp d \<in> set evs)"
  by (simp add: plain_dir_foldl)

text \<open>
  Every run of \<^verbatim>\<open>main\<close> that is not a camera listing takes one of two exit paths.
  Either it ends in \<^verbatim>\<open>die\<close> after plain effects, and then the directory is still present
  at exit exactly when it had been created; or it ends with \<^verbatim>\<open>rm -rf\<close> of the session
  directory followed by the return from \<^verbatim>\<open>main\<close>, and then, when \<^verbatim>\<open>rm\<close> succeeds, nothing
  of the session is left.
\<close>

theorem main_exit_paths:
  assumes "list_only = 0"
  shows "(\<exists>pre m. main env cfg list_only no_overlay = pre @ [Die m] \<and> plain pre
            \<and> (dir_present (fs_after (main env cfg list_only no_overlay))
                 = (\<exists>d. Mkdtemp d \<in> set pre)))
   \<or> (\<exists>d pre. env_mkdtemp env = Some d \<and> plain pre
         \<and> main env cfg list_only no_overlay =
             pre @ [Rm_rf (snprintf 4096 d) (env_rm_ok env), Return 0]
         \<and> (env_rm_ok env \<longrightarrow>
               fs_after (main env cfg list_only no_overlay) =
                 \<lparr>dir_present = False, fifo_present = False, stats_file = None\<rparr>))"
proof -
  let ?run = "main env cfg list_only no_overlay"
  from main_paths [OF assms, of env cfg no_overlay]
  consider (die) pre m where "?run = pre @ [Die m]" "plain pre"
    | (ret) d pre where "env_mkdtemp env = Some d" "plain pre"
        "?run = pre @ [Rm_rf (snprintf 4096 d) (env_rm_ok env), Return 0]"
    by blast
  then show ?thesis
  proof cases
    case die
    have "dir_present (fs_after (pre @ [Die m])) = (\<exists>d. Mkdtemp d \<in> set pre)"
      using die(2) plain_dir_present [of pre] by (simp add: fs_after_def)
    with die show ?thesis by auto
  next
    case ret
    have "env_rm_ok env \<longrightarrow> fs_after ?run =
        \<lparr>dir_present = False, fifo_present = False, stats_file = None\<rparr>"
      using ret(3) by (simp add: fs_after_removed)
    with ret show ?thesis by blast
  qed
qed

lemma main_example_run_end:
  "last (main env_example cfg_example 0 0) = Return 0"
  "last (main (env_example\<lparr>env_mkfifo_ok := False\<rparr>) cfg_example 0 0)
     = Die ''mkfifo(/tmp/picamc.a1B2c3/video.h264)''"
  by (simp_all add: run_defs env_example_def cfg_example_def qc_example_def)

theorem main_exit_paths_witness:
  "fs_after (main env_example cfg_example 0 0) =
     \<lparr>dir_present = False, fifo_present = False, stats_file = None\<rparr>
   \<and> dir_present (fs_after (main (env_example\<lparr>env_mkfifo_ok := False\<rparr>) cfg_example 0 0))"
proof -
  have z: "(0 :: c_int) = 0" by simp
  have ok: "env_rm_ok env_example" by (simp add: env_example_def)
  have a: "fs_after (main env_example cfg_example 0 0) =
     \<lparr>dir_present = False, fifo_present = False, stats_file = None\<rparr>"
    using main_exit_paths [OF z, of env_example cfg_example 0] main_example_run_end(1) ok
    by auto
  have b: "dir_present (fs_after (main (env_example\<lparr>env_mkfifo_ok := False\<rparr>) cfg_example 0 0))"
    by (simp add: run_defs env_example_def cfg_example_def qc_example_def fs_after_def)
  from a b show ?thesis by simp
qed

text \<open>
  Once \<^verbatim>\<open>g_ctx\<close> is set the signal handler never exits the process: it clears the live
  flag and signals the recorded children.
\<close>

lemma signal_handler_returns:
  "terminate_children (Some ctx) =
     Handler_return (ctx\<lparr>running := 0\<rparr>)
       ((if 0 < sint (cam_pid ctx) then [cam_pid ctx] else []) @
        (if 0 < sint (prev_pid ctx) then [prev_pid ctx] else []))"
  by (simp add: terminate_children_def)

subsection \<open>C3: the encoder of the USB producer in a run\<close>

lemma spawned_append [simp]: "spawned (xs @ ys) = spawned xs @ spawned ys"
  by (induction xs rule: spawned.induct) simp_all

lemma spawned_no_spawn: "no_spawn evs \<Longrightarrow> spawned evs = []"
  by (induction evs rule: spawned.induct) (simp_all add: no_spawn_def)

lemma no_spawn_run_and_cleanup: "no_spawn (run_and_cleanup env ctx)"
proof -
  have "no_spawn (stats_writer_events ctx cycs)" for cycs
    by (induction cycs) (auto simp: stats_writer_events_def no_spawn_def split: option.splits)
  then show ?thesis
    by (simp add: run_and_cleanup_def Let_def no_spawn_def)
qed

lemma return_run_and_cleanup: "Return 0 \<in> set (run_and_cleanup env ctx)"
  by (simp add: run_and_cleanup_def Let_def)

lemma start_usb_ffmpeg_argv_fields:
  assumes "width c = width c'" "height c = height c'" "fps c = fps c'" "bitrate c = bitrate c'"
    "fifo_path c = fifo_path c'"
  shows "start_usb_ffmpeg_argv c dev fs enc = start_usb_ffmpeg_argv c' dev fs enc"
  using assms by (simp add: start_usb_ffmpeg_argv_def usb_sz_def usb_fr_def usb_br_def)

lemma setup_tmp_result:
  assumes "snd (setup_tmp env ctx) = Some c1"
  shows "\<exists>dir. env_mkdtemp env = Some dir
           \<and> c1 = ctx\<lparr>tmpdir := snprintf 4096 dir,
                       fifo_path := snprintf 4096 (dir @ ''/video.h264''),
                       stats_path := snprintf 4096 (dir @ ''/stats.txt'')\<rparr>"
  using assms by (auto simp: setup_tmp_def die_def Let_def split: option.splits if_splits)

lemma setup_tmp_no_return: "Return r \<notin> set (fst (setup_tmp env ctx))"
  by (auto simp: setup_tmp_def die_def Let_def split: option.splits if_splits)

lemma start_preview_result:
  "(snd (start_preview env c1 title) = None
      \<and> spawned (fst (start_preview env c1 title)) = []
      \<and> Return 0 \<notin> set (fst (start_preview env c1 title)))
   \<or> (\<exists>pid fd. snd (start_preview env c1 title) = Some (c1\<lparr>prev_pid := pid, prev_stderr_fd := fd\<rparr>)
         \<and> fst (start_preview env c1 title) = [Spawn (start_preview_argv c1 title)])"
  by (auto simp: start_preview_def then_do_def spawn_child_def die_def split: option.splits)

lemma start_usb_ffmpeg_result:
  "(snd (start_usb_ffmpeg env c2 dev fs enc) = None
      \<and> spawned (fst (start_usb_ffmpeg env c2 dev fs enc)) = []
      \<and> Return 0 \<notin> set (fst (start_usb_ffmpeg env c2 dev fs enc)))
   \<or> (\<exists>c3. snd (start_usb_ffmpeg env c2 dev fs enc) = Some c3
         \<and> fst (start_usb_ffmpeg env c2 dev fs enc) = [Spawn (start_usb_ffmpeg_argv c2 dev fs enc)])"
  by (auto simp: start_usb_ffmpeg_def then_do_def spawn_child_def die_def split: option.splits)

lemma usb_session_spawned:
  fixes env cfg no_overlay hc usbnode fs
  defines "run \<equiv> fst (session env cfg no_overlay hc (False, usbnode, fs))"
  shows "(spawned run = [] \<and> Return 0 \<notin> set run)
   \<or> (\<exists>c. spawned run = [c] \<and> Return 0 \<notin> set run)
   \<or> (\<exists>c dir. env_mkdtemp env = Some dir \<and> Return 0 \<in> set run
         \<and> spawned run =
             [c, start_usb_ffmpeg_argv
                   ((prepare_ctx cfg no_overlay)\<lparr>fifo_path := snprintf 4096 (dir @ ''/video.h264'')\<rparr>)
                   (if usbnode = [] then snprintf 128 (cfg_source_node cfg) else usbnode) fs
                   (if cfg_encode_mode cfg = ENC_AUTO then ENC_HARDWARE
                    else cfg_encode_mode cfg)])"
proof -
  let ?ctx = "prepare_ctx cfg no_overlay"
  let ?title = "''USB Camera Preview''"
  let ?enc = "if cfg_encode_mode cfg = ENC_AUTO then ENC_HARDWARE else cfg_encode_mode cfg"
  let ?dev = "if usbnode = [] then snprintf 128 (cfg_source_node cfg) else usbnode"
  let ?s1 = "setup_tmp env ?ctx"
  have run: "run = fst ?s1 @ (case snd ?s1 of None \<Rightarrow> []
      | Some c1 \<Rightarrow> fst (start_preview env c1 ?title) @
          (case snd (start_preview env c1 ?title) of None \<Rightarrow> []
           | Some c2 \<Rightarrow> fst (start_usb_ffmpeg env c2 ?dev fs ?enc) @
               (case snd (start_usb_ffmpeg env c2 ?dev fs ?enc) of None \<Rightarrow> []
                | Some c3 \<Rightarrow> run_and_cleanup env c3)))"
    unfolding run_def
    by (simp add: session_def start_camera_def Let_def then_do_fst then_do_snd
        split: option.splits)
  have s1: "spawned (fst ?s1) = []"
    by (rule spawned_no_spawn) (rule no_spawn_setup_tmp)
  have r1: "Return 0 \<notin> set (fst ?s1)"
    by (rule setup_tmp_no_return)
  show ?thesis
  proof (cases "snd ?s1")
    case None
    then show ?thesis using run s1 r1 by simp
  next
    case (Some c1)
    then obtain dir where dir: "env_mkdtemp env = Some dir" and
      c1: "c1 = ?ctx\<lparr>tmpdir := snprintf 4096 dir,
                        fifo_path := snprintf 4096 (dir @ ''/video.h264''),
                        stats_path := snprintf 4096 (dir @ ''/stats.txt'')\<rparr>"
      using setup_tmp_result by blast
    from start_preview_result [of env c1 ?title] show ?thesis
    proof (elim disjE conjE exE)
      assume "snd (start_preview env c1 ?title) = None"
        "spawned (fst (start_preview env c1 ?title)) = []"
        "Return 0 \<notin> set (fst (start_preview env c1 ?title))"
      then show ?thesis using run s1 r1 Some by simp
    next
      fix pid fd
      let ?c2 = "c1\<lparr>prev_pid := pid, prev_stderr_fd := fd\<rparr>"
      assume p: "snd (start_preview env c1 ?title) = Some ?c2"
        "fst (start_preview env c1 ?title) = [Spawn (start_preview_argv c1 ?title)]"
      from start_usb_ffmpeg_result [of env ?c2 ?dev fs ?enc] show ?thesis
      proof (elim disjE conjE exE)
        assume "snd (start_usb_ffmpeg env ?c2 ?dev fs ?enc) = None"
          "spawned (fst (start_usb_ffmpeg env ?c2 ?dev fs ?enc)) = []"
          "Return 0 \<notin> set (fst (start_usb_ffmpeg env ?c2 ?dev fs ?enc))"
        then have "spawned run = [start_preview_argv c1 ?title] \<and> Return 0 \<notin> set run"
          using run s1 r1 Some p by simp
        then show ?thesis by blast
      next
        fix c3
        assume u: "snd (start_usb_ffmpeg env ?c2 ?dev fs ?enc) = Some c3"
          "fst (start_usb_ffmpeg env ?c2 ?dev fs ?enc) = [Spawn (start_usb_ffmpeg_argv ?c2 ?dev fs ?enc)]"
        have a: "start_usb_ffmpeg_argv ?c2 ?dev fs ?enc =
            start_usb_ffmpeg_argv (?ctx\<lparr>fifo_path := snprintf 4096 (dir @ ''/video.h264'')\<rparr>)
              ?dev fs ?enc"
          by (rule start_usb_ffmpeg_argv_fields) (simp_all add: c1)
        have "spawned run = [start_preview_argv c1 ?title,
            start_usb_ffmpeg_argv (?ctx\<lparr>fifo_path := snprintf 4096 (dir @ ''/video.h264'')\<rparr>)
              ?dev fs ?enc]"
          using run s1 Some p u a spawned_no_spawn [OF no_spawn_run_and_cleanup, of env c3]
          by simp
        moreover have "Return 0 \<in> set run"
          using run Some p u return_run_and_cleanup [of env c3] by simp
        ultimately show ?thesis using dir by blast
      qed
    qed
  qed
qed


lemma decide_source_no_effect:
  "snd (decide_source env cfg) = Some src \<Longrightarrow> fst (decide_source env cfg) = []"
  by (auto simp: decide_source_def Let_def die_def split: if_splits option.splits prod.splits)

lemma fifo_not_encoder:
  "snprintf 4096 (dir @ ''/video.h264'') \<noteq> ''libx264''"
  "snprintf 4096 (dir @ ''/video.h264'') \<noteq> ''h264_v4l2m2m''"
proof -
  show "snprintf 4096 (dir @ ''/video.h264'') \<noteq> ''libx264''"
  proof
    assume "snprintf 4096 (dir @ ''/video.h264'') = ''libx264''"
    then have "length (take 4095 (dir @ ''/video.h264'')) = length ''libx264''"
      by (simp add: snprintf_def)
    then show False by simp
  qed
  show "snprintf 4096 (dir @ ''/video.h264'') \<noteq> ''h264_v4l2m2m''"
  proof
    assume a: "snprintf 4096 (dir @ ''/video.h264'') = ''h264_v4l2m2m''"
    then have "length (take 4095 (dir @ ''/video.h264'')) = length ''h264_v4l2m2m''"
      by (simp add: snprintf_def)
    then have "length dir = 1" by simp
    then obtain d where "dir = [d]" by (cases dir) auto
    with a show False by (simp add: snprintf_def)
  qed
qed

lemma length_two: "length xs = 2 \<longleftrightarrow> (\<exists>a b. xs = [a, b])"
  by (cases xs; cases "tl xs") auto

text \<open>
  C3 (amended). A run of \<^verbatim>\<open>main\<close> whose source is a USB camera with format flags \<open>fs\<close>
  starts at most two processes, the consumer and then the producer, and a run that
  reaches the end of \<^verbatim>\<open>main\<close> has started both. The producer's command line is the
  capture head for the device followed by the encoder arguments and the output to the
  named pipe. With native H.264 the encoder arguments are \<^verbatim>\<open>-c:v copy\<close> for every
  requested encode mode, and unless the device path is itself such a word no argument is
  \<^verbatim>\<open>libx264\<close> or \<^verbatim>\<open>h264_v4l2m2m\<close>. Without native H.264 the hardware-assisted encoder
  \<^verbatim>\<open>h264_v4l2m2m\<close> is used when the requested mode is hardware or auto (\<^verbatim>\<open>main\<close> turns auto
  into hardware before it builds the command), and the software encoder \<^verbatim>\<open>libx264\<close> with
  preset ultrafast and tune zerolatency only when the requested mode is software; both
  have \<^verbatim>\<open>-b:v\<close>, \<^verbatim>\<open>-maxrate\<close> and \<^verbatim>\<open>-bufsize\<close> set to the configured bit rate.
\<close>

theorem usb_producer_encoder_choice:
  assumes "env_ffmpeg_exists env" and "list_only = 0"
    and "snd (decide_source env cfg) = Some (False, usbnode, fs)"
  shows "length (spawned (main env cfg list_only no_overlay)) \<le> 2
   \<and> (Return 0 \<in> set (main env cfg list_only no_overlay) \<longrightarrow>
        length (spawned (main env cfg list_only no_overlay)) = 2)
   \<and> (\<forall>c p. spawned (main env cfg list_only no_overlay) = [c, p] \<longrightarrow>
        (\<exists>dir dev sz fr br fifo.
           env_mkdtemp env = Some dir
           \<and> fifo = snprintf 4096 (dir @ ''/video.h264'')
           \<and> dev = (if usbnode = [] then snprintf 128 (cfg_source_node cfg) else usbnode)
           \<and> sz = snprintf 32 (fmt_d (cfg_width cfg) @ ''x'' @ fmt_d (cfg_height cfg))
           \<and> fr = snprintf 16 (fmt_d (cfg_fps cfg))
           \<and> br = snprintf 32 (fmt_d (cfg_bitrate cfg))
           \<and> (h264 fs \<noteq> 0 \<longrightarrow>
                 p = [''ffmpeg'', ''-hide_banner'', ''-loglevel'', ''error'', ''-f'', ''v4l2'',
                      ''-input_format'', ''h264'', ''-video_size'', sz, ''-framerate'', fr,
                      ''-i'', dev, ''-c:v'', ''copy'', ''-f'', ''h264'', fifo]
                 \<and> (dev \<notin> {''libx264'', ''h264_v4l2m2m''} \<longrightarrow>
                      ''libx264'' \<notin> set p \<and> ''h264_v4l2m2m'' \<notin> set p))
           \<and> (h264 fs = 0 \<and> cfg_encode_mode cfg \<in> {ENC_HARDWARE, ENC_AUTO} \<longrightarrow>
                 p = [''ffmpeg'', ''-hide_banner'', ''-loglevel'', ''error'', ''-f'', ''v4l2'',
                      ''-input_format'', usb_infmt fs, ''-video_size'', sz, ''-framerate'', fr,
                      ''-i'', dev, ''-pix_fmt'', ''nv12'', ''-c:v'', ''h264_v4l2m2m'',
                      ''-b:v'', br, ''-maxrate'', br, ''-bufsize'', br,
                      ''-f'', ''h264'', fifo])
           \<and> (h264 fs = 0 \<and> cfg_encode_mode cfg = ENC_SOFTWARE \<longrightarrow>
                 p = [''ffmpeg'', ''-hide_banner'', ''-loglevel'', ''error'', ''-f'', ''v4l2'',
                      ''-input_format'', usb_infmt fs, ''-video_size'', sz, ''-framerate'', fr,
                      ''-i'', dev, ''-c:v'', ''libx264'', ''-preset'', ''ultrafast'',
                      ''-tune'', ''zerolatency'',
                      ''-b:v'', br, ''-maxrate'', br, ''-bufsize'', br,
                      ''-f'', ''h264'', fifo])))"
proof -
  let ?run = "main env cfg list_only no_overlay"
  let ?dev = "if usbnode = [] then snprintf 128 (cfg_source_node cfg) else usbnode"
  let ?enc = "if cfg_encode_mode cfg = ENC_AUTO then ENC_HARDWARE else cfg_encode_mode cfg"
  let ?ctx = "\<lambda>dir. (prepare_ctx cfg no_overlay)\<lparr>fifo_path := snprintf 4096 (dir @ ''/video.h264'')\<rparr>"
  have run: "?run = fst (session env cfg no_overlay (found (env_camera_cmd env)) (False, usbnode, fs))"
    using assms decide_source_no_effect [OF assms(3)]
    by (simp add: main_def Let_def then_do_fst)
  from usb_session_spawned [of env cfg no_overlay "found (env_camera_cmd env)" usbnode fs]
  consider (none) "spawned ?run = []" "Return 0 \<notin> set ?run"
    | (one) c where "spawned ?run = [c]" "Return 0 \<notin> set ?run"
    | (two) c dir where "env_mkdtemp env = Some dir" "Return 0 \<in> set ?run"
        "spawned ?run = [c, start_usb_ffmpeg_argv (?ctx dir) ?dev fs ?enc]"
    unfolding run by blast
  then show ?thesis
  proof cases
    case none
    then show ?thesis by simp
  next
    case one
    then show ?thesis by simp
  next
    case two
    let ?p = "start_usb_ffmpeg_argv (?ctx dir) ?dev fs ?enc"
    have f: "usb_sz (?ctx dir) = snprintf 32 (fmt_d (cfg_width cfg) @ ''x'' @ fmt_d (cfg_height cfg))"
      "usb_fr (?ctx dir) = snprintf 16 (fmt_d (cfg_fps cfg))"
      "usb_br (?ctx dir) = snprintf 32 (fmt_d (cfg_bitrate cfg))"
      "fifo_path (?ctx dir) = snprintf 4096 (dir @ ''/video.h264'')"
      by (simp_all add: usb_sz_def usb_fr_def usb_br_def prepare_ctx_def)
    note cases = start_usb_ffmpeg_argv_cases [of fs "?ctx dir" ?dev ?enc, unfolded f]
    have enc: "(cfg_encode_mode cfg \<in> {ENC_HARDWARE, ENC_AUTO}) = (?enc = ENC_HARDWARE)"
      "(cfg_encode_mode cfg = ENC_SOFTWARE) = (?enc \<noteq> ENC_HARDWARE)"
      by (cases "cfg_encode_mode cfg"; simp)+
    have exp: "\<exists>dir dev sz fr br fifo.
           env_mkdtemp env = Some dir
           \<and> fifo = snprintf 4096 (dir @ ''/video.h264'')
           \<and> dev = ?dev
           \<and> sz = snprintf 32 (fmt_d (cfg_width cfg) @ ''x'' @ fmt_d (cfg_height cfg))
           \<and> fr = snprintf 16 (fmt_d (cfg_fps cfg))
           \<and> br = snprintf 32 (fmt_d (cfg_bitrate cfg))
           \<and> (h264 fs \<noteq> 0 \<longrightarrow>
                 ?p = [''ffmpeg'', ''-hide_banner'', ''-loglevel'', ''error'', ''-f'', ''v4l2'',
                      ''-input_format'', ''h264'', ''-video_size'', sz, ''-framerate'', fr,
                      ''-i'', dev, ''-c:v'', ''copy'', ''-f'', ''h264'', fifo]
                 \<and> (dev \<notin> {''libx264'', ''h264_v4l2m2m''} \<longrightarrow>
                      ''libx264'' \<notin> set ?p \<and> ''h264_v4l2m2m'' \<notin> set ?p))
           \<and> (h264 fs = 0 \<and> cfg_encode_mode cfg \<in> {ENC_HARDWARE, ENC_AUTO} \<longrightarrow>
                 ?p = [''ffmpeg'', ''-hide_banner'', ''-loglevel'', ''error'', ''-f'', ''v4l2'',
                      ''-input_format'', usb_infmt fs, ''-video_size'', sz, ''-framerate'', fr,
                      ''-i'', dev, ''-pix_fmt'', ''nv12'', ''-c:v'', ''h264_v4l2m2m'',
                      ''-b:v'', br, ''-maxrate'', br, ''-bufsize'', br,
                      ''-f'', ''h264'', fifo])
           \<and> (h264 fs = 0 \<and> cfg_encode_mode cfg = ENC_SOFTWARE \<longrightarrow>
                 ?p = [''ffmpeg'', ''-hide_banner'', ''-loglevel'', ''error'', ''-f'', ''v4l2'',
                      ''-input_format'', usb_infmt fs, ''-video_size'', sz, ''-framerate'', fr,
                      ''-i'', dev, ''-c:v'', ''libx264'', ''-preset'', ''ultrafast'',
                      ''-tune'', ''zerolatency'',
                      ''-b:v'', br, ''-maxrate'', br, ''-bufsize'', br,
                      ''-f'', ''h264'', fifo])"
      apply (intro exI conjI)
               apply (rule two(1))
              apply (rule refl)+
      using cases fifo_not_encoder [of dir] unfolding enc
        apply blast
      using cases unfolding enc apply blast
      using cases unfolding enc apply blast
      done
    have ex: "\<exists>dir dev sz fr br fifo.
           env_mkdtemp env = Some dir
           \<and> fifo = snprintf 4096 (dir @ ''/video.h264'')
           \<and> dev = ?dev
           \<and> sz = snprintf 32 (fmt_d (cfg_width cfg) @ ''x'' @ fmt_d (cfg_height cfg))
           \<and> fr = snprintf 16 (fmt_d (cfg_fps cfg))
           \<and> br = snprintf 32 (fmt_d (cfg_bitrate cfg))
           \<and> (h264 fs \<noteq> 0 \<longrightarrow>
                 p = [''ffmpeg'', ''-hide_banner'', ''-loglevel'', ''error'', ''-f'', ''v4l2'',
                      ''-input_format'', ''h264'', ''-video_size'', sz, ''-framerate'', fr,
                      ''-i'', dev, ''-c:v'', ''copy'', ''-f'', ''h264'', fifo]
                 \<and> (dev \<notin> {''libx264'', ''h264_v4l2m2m''} \<longrightarrow>
                      ''libx264'' \<notin> set p \<and> ''h264_v4l2m2m'' \<notin> set p))
           \<and> (h264 fs = 0 \<and> cfg_encode_mode cfg \<in> {ENC_HARDWARE, ENC_AUTO} \<longrightarrow>
                 p = [''ffmpeg'', ''-hide_banner'', ''-loglevel'', ''error'', ''-f'', ''v4l2'',
                      ''-input_format'', usb_infmt fs, ''-video_size'', sz, ''-framerate'', fr,
                      ''-i'', dev, ''-pix_fmt'', ''nv12'', ''-c:v'', ''h264_v4l2m2m'',
                      ''-b:v'', br, ''-maxrate'', br, ''-bufsize'', br,
                      ''-f'', ''h264'', fifo])
           \<and> (h264 fs = 0 \<and> cfg_encode_mode cfg = ENC_SOFTWARE \<longrightarrow>
                 p = [''ffmpeg'', ''-hide_banner'', ''-loglevel'', ''error'', ''-f'', ''v4l2'',
                      ''-input_format'', usb_infmt fs, ''-video_size'', sz, ''-framerate'', fr,
                      ''-i'', dev, ''-c:v'', ''libx264'', ''-preset'', ''ultrafast'',
                      ''-tune'', ''zerolatency'',
                      ''-b:v'', br, ''-maxrate'', br, ''-bufsize'', br,
                      ''-f'', ''h264'', fifo])"
      if "spawned ?run = [c', p]" for c' p
    proof -
      from that two(3) have "p = ?p" by simp
      with exp show ?thesis by simp
    qed
    have l: "length (spawned ?run) = 2" using two(3) by simp
    show ?thesis
    proof (intro conjI allI impI)
      show "length (spawned ?run) \<le> 2" using l by simp
      show "length (spawned ?run) = 2" by (rule l)
    qed (rule ex)
  qed
qed


lemma example_sources:
  "snd (decide_source env_example cfg_example)
     = Some (False, ''/dev/video0'', \<lparr>h264 = 0, mjpg = 1, yuyv = 1\<rparr>)"
  "snd (decide_source env_example cfg_software)
     = Some (False, ''/dev/video0'', \<lparr>h264 = 0, mjpg = 1, yuyv = 1\<rparr>)"
  "snd (decide_source env_h264 cfg_software)
     = Some (False, ''/dev/video0'', \<lparr>h264 = 1, mjpg = 1, yuyv = 0\<rparr>)"
  by (simp_all add: decide_source_def csi_available_def detect_csi_available_def detect_usb_def
      pick_usb_node_def v4l2_supports_capture_def V4L2_CAP_DEVICE_CAPS_def
      V4L2_CAP_VIDEO_CAPTURE_def V4L2_CAP_VIDEO_CAPTURE_MPLANE_def snprintf_def
      env_example_def cfg_example_def qc_example_def env_h264_def cfg_software_def)

lemma example_runs_return:
  "Return 0 \<in> set (main env_example cfg_example 0 0)"
  "Return 0 \<in> set (main env_example cfg_software 0 0)"
  "Return 0 \<in> set (main env_h264 cfg_software 0 0)"
  by (simp_all add: run_defs env_example_def cfg_example_def qc_example_def env_h264_def
      cfg_software_def)

lemma example_cfg_strings:
  "fmt_d 1280 = ''1280''" "fmt_d 720 = ''720''" "fmt_d 30 = ''30''" "fmt_d 4000000 = ''4000000''"
  by (simp_all add: fmt_d_def show_int_def show_nat.simps digit_char_def)

theorem usb_producer_encoder_choice_witness:
  "spawned (main env_example cfg_example 0 0) ! 1 =
     [''ffmpeg'', ''-hide_banner'', ''-loglevel'', ''error'', ''-f'', ''v4l2'',
      ''-input_format'', ''mjpeg'', ''-video_size'', ''1280x720'', ''-framerate'', ''30'',
      ''-i'', ''/dev/video0'', ''-pix_fmt'', ''nv12'', ''-c:v'', ''h264_v4l2m2m'',
      ''-b:v'', ''4000000'', ''-maxrate'', ''4000000'', ''-bufsize'', ''4000000'',
      ''-f'', ''h264'', ''/tmp/picamc.a1B2c3/video.h264'']
   \<and> spawned (main env_example cfg_software 0 0) ! 1 =
     [''ffmpeg'', ''-hide_banner'', ''-loglevel'', ''error'', ''-f'', ''v4l2'',
      ''-input_format'', ''mjpeg'', ''-video_size'', ''1280x720'', ''-framerate'', ''30'',
      ''-i'', ''/dev/video0'', ''-c:v'', ''libx264'', ''-preset'', ''ultrafast'',
      ''-tune'', ''zerolatency'',
      ''-b:v'', ''4000000'', ''-maxrate'', ''4000000'', ''-bufsize'', ''4000000'',
      ''-f'', ''h264'', ''/tmp/picamc.a1B2c3/video.h264'']
   \<and> spawned (main env_h264 cfg_software 0 0) ! 1 =
     [''ffmpeg'', ''-hide_banner'', ''-loglevel'', ''error'', ''-f'', ''v4l2'',
      ''-input_format'', ''h264'', ''-video_size'', ''1280x720'', ''-framerate'', ''30'',
      ''-i'', ''/dev/video0'', ''-c:v'', ''copy'', ''-f'', ''h264'',
      ''/tmp/picamc.a1B2c3/video.h264'']"
proof -
  have z: "(0 :: c_int) = 0" by simp
  have e: "env_ffmpeg_exists env_example" "env_ffmpeg_exists env_h264"
    "env_mkdtemp env_example = Some ''/tmp/picamc.a1B2c3''"
    "env_mkdtemp env_h264 = Some ''/tmp/picamc.a1B2c3''"
    by (simp_all add: env_example_def env_h264_def)
  have c: "cfg_encode_mode cfg_example = ENC_AUTO" "cfg_encode_mode cfg_software = ENC_SOFTWARE"
    "cfg_width cfg_example = 1280" "cfg_height cfg_example = 720" "cfg_fps cfg_example = 30"
    "cfg_bitrate cfg_example = 4000000"
    "cfg_width cfg_software = 1280" "cfg_height cfg_software = 720" "cfg_fps cfg_software = 30"
    "cfg_bitrate cfg_software = 4000000"
    by (simp_all add: cfg_example_def cfg_software_def)
  note t1 = usb_producer_encoder_choice [OF e(1) z example_sources(1), of 0]
  note t2 = usb_producer_encoder_choice [OF e(1) z example_sources(2), of 0]
  note t3 = usb_producer_encoder_choice [OF e(2) z example_sources(3), of 0]
  from t1 example_runs_return(1) obtain c1 p1 where
    s1: "spawned (main env_example cfg_example 0 0) = [c1, p1]"
    by (auto simp: length_two)
  from t2 example_runs_return(2) obtain c2 p2 where
    s2: "spawned (main env_example cfg_software 0 0) = [c2, p2]"
    by (auto simp: length_two)
  from t3 example_runs_return(3) obtain c3 p3 where
    s3: "spawned (main env_h264 cfg_software 0 0) = [c3, p3]"
    by (auto simp: length_two)
  from t1 s1 have "p1 =
     [''ffmpeg'', ''-hide_banner'', ''-loglevel'', ''error'', ''-f'', ''v4l2'',
      ''-input_format'', ''mjpeg'', ''-video_size'', ''1280x720'', ''-framerate'', ''30'',
      ''-i'', ''/dev/video0'', ''-pix_fmt'', ''nv12'', ''-c:v'', ''h264_v4l2m2m'',
      ''-b:v'', ''4000000'', ''-maxrate'', ''4000000'', ''-bufsize'', ''4000000'',
      ''-f'', ''h264'', ''/tmp/picamc.a1B2c3/video.h264'']"
    by (simp add: e c example_cfg_strings usb_infmt_def snprintf_def)
  moreover from t2 s2 have "p2 =
     [''ffmpeg'', ''-hide_banner'', ''-loglevel'', ''error'', ''-f'', ''v4l2'',
      ''-input_format'', ''mjpeg'', ''-video_size'', ''1280x720'', ''-framerate'', ''30'',
      ''-i'', ''/dev/video0'', ''-c:v'', ''libx264'', ''-preset'', ''ultrafast'',
      ''-tune'', ''zerolatency'',
      ''-b:v'', ''4000000'', ''-maxrate'', ''4000000'', ''-bufsize'', ''4000000'',
      ''-f'', ''h264'', ''/tmp/picamc.a1B2c3/video.h264'']"
    by (simp add: e c example_cfg_strings usb_infmt_def snprintf_def)
  moreover from t3 s3 have "p3 =
     [''ffmpeg'', ''-hide_banner'', ''-loglevel'', ''error'', ''-f'', ''v4l2'',
      ''-input_format'', ''h264'', ''-video_size'', ''1280x720'', ''-framerate'', ''30'',
      ''-i'', ''/dev/video0'', ''-c:v'', ''copy'', ''-f'', ''h264'',
      ''/tmp/picamc.a1B2c3/video.h264'']"
    by (simp add: e c example_cfg_strings usb_infmt_def snprintf_def)
  ultimately show ?thesis by (simp add: s1 s2 s3)
qed

text \<open>
  C3 as stated fails for the requested mode auto: with a USB camera that offers MJPEG and
  YUYV but no H.264, a run with the default configuration starts the producer with the
  hardware-assisted encoder, and no process of the run is given the software encoder.
\<close>

theorem requested_auto_selects_hardware_encoder:
  "cfg_encode_mode cfg_example = ENC_AUTO
   \<and> snd (decide_source env_example cfg_example)
       = Some (False, ''/dev/video0'', \<lparr>h264 = 0, mjpg = 1, yuyv = 1\<rparr>)
   \<and> spawned (main env_example cfg_example 0 0) ! 1 =
     [''ffmpeg'', ''-hide_banner'', ''-loglevel'', ''error'', ''-f'', ''v4l2'',
      ''-input_format'', ''mjpeg'', ''-video_size'', ''1280x720'', ''-framerate'', ''30'',
      ''-i'', ''/dev/video0'', ''-pix_fmt'', ''nv12'', ''-c:v'', ''h264_v4l2m2m'',
      ''-b:v'', ''4000000'', ''-maxrate'', ''4000000'', ''-bufsize'', ''4000000'',
      ''-f'', ''h264'', ''/tmp/picamc.a1B2c3/video.h264'']
   \<and> length (spawned (main env_example cfg_example 0 0)) = 2
   \<and> ''libx264'' \<notin> set (concat (spawned (main env_example cfg_example 0 0)))"
proof -
  have "spawned (main env_example cfg_example 0 0) =
     [start_preview_argv
        \<lparr>tmpdir = ''/tmp/picamc.a1B2c3'',
           fifo_path = ''/tmp/picamc.a1B2c3/video.h264'',
           stats_path = ''/tmp/picamc.a1B2c3/stats.txt'', cam_pid = 0,
           prev_pid = 0, prev_stderr_fd = 0, running = 1,
           overlay_disabled = 0, width = 1280, height = 720, fps = 30,
           bitrate = 4000000\<rparr> ''USB Camera Preview'',
      [''ffmpeg'', ''-hide_banner'', ''-loglevel'', ''error'', ''-f'', ''v4l2'',
       ''-input_format'', ''mjpeg'', ''-video_size'', ''1280x720'', ''-framerate'', ''30'',
       ''-i'', ''/dev/video0'', ''-pix_fmt'', ''nv12'', ''-c:v'', ''h264_v4l2m2m'',
       ''-b:v'', ''4000000'', ''-maxrate'', ''4000000'', ''-bufsize'', ''4000000'',
       ''-f'', ''h264'', ''/tmp/picamc.a1B2c3/video.h264'']]"
    by (simp add: run_defs env_example_def cfg_example_def qc_example_def
        start_usb_ffmpeg_argv_def usb_infmt_def usb_sz_def usb_fr_def usb_br_def fmt_d_def
        show_int_def show_nat.simps digit_char_def)
  moreover have "cfg_encode_mode cfg_example = ENC_AUTO"
    by (simp add: cfg_example_def)
  ultimately show ?thesis
    by (simp add: example_sources start_preview_argv_def overlay_coords_def DEFAULT_CORNER_def)
qed

subsection \<open>C6: the status file and its labels\<close>

lemma digit_lt10: "d < 10 \<Longrightarrow> d = 0 \<or> d = 1 \<or> d = 2 \<or> d = 3 \<or> d = 4 \<or> d = 5 \<or> d = 6 \<or> d = 7 \<or> d = 8 \<or> d = (9::nat)"
  by arith

lemma digit_val_digit_char: "d < 10 \<Longrightarrow> digit_val (digit_char d) = Some d"
  using digit_lt10 [of d] by (auto simp: digit_val_def digit_char_def)

lemma set_show_nat: "set (show_nat n) \<subseteq> set ''0123456789''"
proof (induction n rule: show_nat.induct)
  case (1 n)
  show ?case
  proof (cases "n < 10")
    case True
    then show ?thesis using digit_char_cases [of n] by (subst show_nat.simps) simp
  next
    case False
    have "n mod 10 < 10" by simp
    from digit_char_cases [OF this] 1 [OF False] False show ?thesis
      by (subst show_nat.simps) simp
  qed
qed

lemma show_nat_not_Nil: "show_nat n \<noteq> []"
  using show_nat_hd [of n] by auto

lemma read_digits_snoc:
  "read_digits acc (xs @ [c]) =
     (case read_digits acc xs of
        None \<Rightarrow> None
      | Some a \<Rightarrow> (case digit_val c of None \<Rightarrow> None | Some d \<Rightarrow> Some (10 * a + d)))"
  by (induction xs arbitrary: acc) (auto split: option.splits)

lemma read_digits_show_nat: "read_digits 0 (show_nat n) = Some n"
proof (induction n rule: show_nat.induct)
  case (1 n)
  show ?case
  proof (cases "n < 10")
    case True
    then show ?thesis
      by (subst show_nat.simps) (simp add: digit_val_digit_char)
  next
    case False
    have "show_nat n = show_nat (n div 10) @ [digit_char (n mod 10)]"
      using False by (subst show_nat.simps) simp
    then show ?thesis
      using 1 [OF False] by (simp add: read_digits_snoc digit_val_digit_char)
  qed
qed

lemma read_nat_show_nat: "read_nat (show_nat n) = Some n"
  by (simp add: read_nat_def show_nat_not_Nil read_digits_show_nat)

lemma show_nat_free:
  "c \<notin> set ''0123456789'' \<Longrightarrow> c \<notin> set (show_nat n)"
  using set_show_nat [of n] by blast

lemma hd_show_nat_not_minus: "hd (show_nat n) \<noteq> CHR ''-''"
proof -
  have "hd (show_nat n) \<in> set (show_nat n)" using show_nat_not_Nil by simp
  moreover have "CHR ''-'' \<notin> set (show_nat n)" by (rule show_nat_free) simp
  ultimately show ?thesis by metis
qed

lemma read_int_show_int: "read_int (show_int i) = Some i"
proof (cases "i < 0")
  case True
  then show ?thesis by (simp add: read_int_def show_int_def read_nat_show_nat)
next
  case False
  then show ?thesis
    by (simp add: read_int_def show_int_def read_nat_show_nat hd_show_nat_not_minus show_nat_not_Nil)
qed

lemma show_int_free:
  "c \<notin> set ''-0123456789'' \<Longrightarrow> c \<notin> set (show_int i)"
  using show_nat_free [of c] by (auto simp: show_int_def)

lemma round_half_even_nonneg: "0 \<le> x \<Longrightarrow> 0 \<le> round_half_even x"
  by (auto simp: round_half_even_def Let_def)

lemma split_at_dot:
  assumes "CHR ''.'' \<notin> set xs"
  shows "takeWhile (\<lambda>c. c \<noteq> CHR ''.'') (xs @ CHR ''.'' # ys) = xs"
    and "dropWhile (\<lambda>c. c \<noteq> CHR ''.'') (xs @ CHR ''.'' # ys) = CHR ''.'' # ys"
proof -
  have p: "\<And>x. x \<in> set xs \<Longrightarrow> x \<noteq> CHR ''.''" using assms by auto
  show "takeWhile (\<lambda>c. c \<noteq> CHR ''.'') (xs @ CHR ''.'' # ys) = xs"
    using takeWhile_append2 [of xs "\<lambda>c. c \<noteq> CHR ''.''" "CHR ''.'' # ys"] p by simp
  show "dropWhile (\<lambda>c. c \<noteq> CHR ''.'') (xs @ CHR ''.'' # ys) = CHR ''.'' # ys"
    using dropWhile_append2 [of xs "\<lambda>c. c \<noteq> CHR ''.''" "CHR ''.'' # ys"] p by simp
qed

lemma parse_1f_digits:
  assumes "b < 10"
  shows "parse_1f ((if neg then ''-'' else []) @ show_nat a @ ''.'' @ [digit_char b]) =
           Some ((if neg then - 1 else 1) * (of_nat a + of_nat b / 10))"
proof -
  have nd: "CHR ''.'' \<notin> set (show_nat a)" by (rule show_nat_free) simp
  show ?thesis
  proof (cases neg)
    case True
    then show ?thesis
      using assms
      by (simp add: parse_1f_def split_at_dot [OF nd] read_nat_show_nat digit_val_digit_char)
  next
    case False
    obtain c cs where sh: "show_nat a = c # cs" using show_nat_not_Nil [of a] by (cases "show_nat a") auto
    have "hd (show_nat a) \<noteq> CHR ''-''" by (rule hd_show_nat_not_minus)
    with sh have c: "c \<noteq> CHR ''-''" by simp
    have "parse_1f (show_nat a @ ''.'' @ [digit_char b]) = Some (of_nat a + of_nat b / 10)"
      unfolding parse_1f_def
      using assms c sh split_at_dot [OF nd, of "[digit_char b]"] read_nat_show_nat [of a]
      by (simp add: digit_val_digit_char)
    with False show ?thesis by simp
  qed
qed

lemma parse_1f_fmt_1f: "parse_1f (fmt_1f x) = Some (round_1f x)"
proof -
  define t where "t = nat (round_half_even (\<bar>x\<bar> * 10))"
  have b10: "t mod 10 < 10" by simp
  have nn: "0 \<le> round_half_even (\<bar>x\<bar> * 10)"
    by (rule round_half_even_nonneg) simp
  have "(of_nat t :: rat) = of_nat (10 * (t div 10) + t mod 10)" by simp
  also have "\<dots> = 10 * of_nat (t div 10) + of_nat (t mod 10)"
    by (simp only: of_nat_add of_nat_mult of_nat_numeral)
  finally have "(of_nat (t div 10) + of_nat (t mod 10) / 10 :: rat) = of_nat t / 10"
    by simp
  moreover have "of_nat t = (of_int (round_half_even (\<bar>x\<bar> * 10)) :: rat)"
    using nn by (simp add: t_def)
  ultimately have v: "(of_nat (t div 10) + of_nat (t mod 10) / 10 :: rat)
      = of_int (round_half_even (\<bar>x\<bar> * 10)) / 10" by simp
  have "fmt_1f x = (if x < 0 then ''-'' else []) @ show_nat (t div 10) @ ''.'' @ [digit_char (t mod 10)]"
    by (simp add: fmt_1f_def t_def Let_def)
  then show ?thesis
    using parse_1f_digits [OF b10, of "x < 0" "t div 10"] v
    by (simp add: round_1f_def)
qed

lemma parse_percent_fmt_1f: "parse_percent (fmt_1f x @ ''%'') = Some (round_1f x)"
  by (simp add: parse_percent_def parse_1f_fmt_1f)

lemma parse_wxh_fmt:
  "parse_wxh (show_int w @ ''x'' @ show_int h) = Some (w, h)"
proof -
  have nx: "\<And>c. c \<in> set (show_int w) \<Longrightarrow> c \<noteq> CHR ''x''"
    using show_int_free [of "CHR ''x''" w] by auto
  have "takeWhile (\<lambda>c. c \<noteq> CHR ''x'') (show_int w @ CHR ''x'' # show_int h) = show_int w"
    using takeWhile_append2 [of "show_int w" "\<lambda>c. c \<noteq> CHR ''x''" "CHR ''x'' # show_int h"] nx
    by simp
  moreover have "dropWhile (\<lambda>c. c \<noteq> CHR ''x'') (show_int w @ CHR ''x'' # show_int h)
      = CHR ''x'' # show_int h"
    using dropWhile_append2 [of "show_int w" "\<lambda>c. c \<noteq> CHR ''x''" "CHR ''x'' # show_int h"] nx
    by simp
  ultimately show ?thesis
    by (simp add: parse_wxh_def read_int_show_int)
qed

lemma fmt_1f_free:
  assumes "c \<notin> set ''-.0123456789''"
  shows "c \<notin> set (fmt_1f x)"
proof -
  have "c \<notin> set (show_nat n)" for n
    using assms by (intro show_nat_free) auto
  moreover have "c \<noteq> digit_char (nat (round_half_even (\<bar>x\<bar> * 10)) mod 10)"
    using digit_char_cases [of "nat (round_half_even (\<bar>x\<bar> * 10)) mod 10"] assms by auto
  ultimately show ?thesis using assms by (auto simp: fmt_1f_def Let_def)
qed

lemma split_lines_line:
  "CHR 0x0A \<notin> set l \<Longrightarrow> split_lines cur (l @ CHR 0x0A # rest) = (cur @ l) # split_lines [] rest"
  by (induction l arbitrary: cur) auto

lemma file_lines_six:
  assumes "CHR 0x0A \<notin> set l1" "CHR 0x0A \<notin> set l2" "CHR 0x0A \<notin> set l3"
    "CHR 0x0A \<notin> set l4" "CHR 0x0A \<notin> set l5" "CHR 0x0A \<notin> set l6"
  shows "file_lines (l1 @ CHR 0x0A # l2 @ CHR 0x0A # l3 @ CHR 0x0A # l4 @ CHR 0x0A # l5
           @ CHR 0x0A # l6 @ [CHR 0x0A]) = [l1, l2, l3, l4, l5, l6]"
  using assms by (simp add: file_lines_def split_lines_line)

lemma newline_free_fmt_1f: "CHR 0x0A \<notin> set (fmt_1f x)"
  by (rule fmt_1f_free) simp

lemma newline_free_fmt_d: "CHR 0x0A \<notin> set (fmt_d v)"
  unfolding fmt_d_def by (rule show_int_free) simp

lemma newline_free_stats_br:
  "CHR 0x0A \<notin> set (latest_bitrate st) \<Longrightarrow> CHR 0x0A \<notin> set (stats_br st)"
  by (auto simp: stats_br_def snprintf_def dest: in_set_takeD)

lemma fmt_1f_zero: "fmt_1f 0 = ''0.0''"
  by (simp add: fmt_1f_def round_half_even_def Let_def show_nat.simps digit_char_def)

lemma stats_file_text_split:
  "stats_file_text ctx fpsv br cpu mem =
      (''FPS: '' @ fmt_1f fpsv) @ CHR 0x0A #
      (''RES: '' @ fmt_d (width ctx) @ ''x'' @ fmt_d (height ctx)) @ CHR 0x0A #
      (''BitRate: '' @ br) @ CHR 0x0A #
      (''CPU: '' @ fmt_1f cpu @ ''%'') @ CHR 0x0A #
      ''MEM: 0.0%'' @ CHR 0x0A #
      (''MEM_MB: '' @ fmt_1f mem) @ [CHR 0x0A]"
  by (simp add: stats_file_text_def fmt_1f_zero)

lemma stats_file_lines:
  assumes "CHR 0x0A \<notin> set br"
  shows "file_lines (stats_file_text ctx fpsv br cpu mem) =
     [''FPS: '' @ fmt_1f fpsv,
      ''RES: '' @ fmt_d (width ctx) @ ''x'' @ fmt_d (height ctx),
      ''BitRate: '' @ br,
      ''CPU: '' @ fmt_1f cpu @ ''%'',
      ''MEM: 0.0%'',
      ''MEM_MB: '' @ fmt_1f mem]"
  unfolding stats_file_text_split
  apply (rule file_lines_six)
  using assms newline_free_fmt_1f newline_free_fmt_d by simp_all

text \<open>
  C6 (amended). For all values and every bitrate word without a newline, the text written
  by \<^verbatim>\<open>stats_writer\<close> has exactly six lines, labelled FPS:, RES:, BitRate:, CPU:, MEM: and
  MEM\_MB: in this order, the MEM: line being the constant \<^verbatim>\<open>0.0%\<close>. Read back by the five
  fixed labels it gives exactly the text written for each: frame rate, CPU (followed by
  \<^verbatim>\<open>%\<close>) and memory with one decimal, the resolution as \<open>WxH\<close>, and the bitrate word.
  Parsed as numbers these give the width and height exactly, and frame rate, CPU and
  memory rounded to one decimal place.
\<close>

theorem stats_file_round_trip:
  assumes "CHR 0x0A \<notin> set (latest_bitrate st)"
  shows "file_lines (stats_file_text ctx fpsv (stats_br st) cpu mem) =
     [''FPS: '' @ fmt_1f fpsv,
      ''RES: '' @ fmt_d (width ctx) @ ''x'' @ fmt_d (height ctx),
      ''BitRate: '' @ stats_br st,
      ''CPU: '' @ fmt_1f cpu @ ''%'',
      ''MEM: 0.0%'',
      ''MEM_MB: '' @ fmt_1f mem]
   \<and> line_labels (stats_file_text ctx fpsv (stats_br st) cpu mem) =
     [''FPS:'', ''RES:'', ''BitRate:'', ''CPU:'', ''MEM:'', ''MEM_MB:'']
   \<and> labelled_value ''FPS:'' (stats_file_text ctx fpsv (stats_br st) cpu mem)
       = Some (fmt_1f fpsv)
   \<and> labelled_value ''RES:'' (stats_file_text ctx fpsv (stats_br st) cpu mem)
       = Some (fmt_d (width ctx) @ ''x'' @ fmt_d (height ctx))
   \<and> labelled_value ''BitRate:'' (stats_file_text ctx fpsv (stats_br st) cpu mem)
       = Some (stats_br st)
   \<and> labelled_value ''CPU:'' (stats_file_text ctx fpsv (stats_br st) cpu mem)
       = Some (fmt_1f cpu @ ''%'')
   \<and> labelled_value ''MEM_MB:'' (stats_file_text ctx fpsv (stats_br st) cpu mem)
       = Some (fmt_1f mem)
   \<and> parse_1f (fmt_1f fpsv) = Some (round_1f fpsv)
   \<and> parse_wxh (fmt_d (width ctx) @ ''x'' @ fmt_d (height ctx))
       = Some (sint (width ctx), sint (height ctx))
   \<and> parse_percent (fmt_1f cpu @ ''%'') = Some (round_1f cpu)
   \<and> parse_1f (fmt_1f mem) = Some (round_1f mem)"
proof -
  let ?text = "stats_file_text ctx fpsv (stats_br st) cpu mem"
  have ls: "file_lines ?text =
     [''FPS: '' @ fmt_1f fpsv,
      ''RES: '' @ fmt_d (width ctx) @ ''x'' @ fmt_d (height ctx),
      ''BitRate: '' @ stats_br st,
      ''CPU: '' @ fmt_1f cpu @ ''%'',
      ''MEM: 0.0%'',
      ''MEM_MB: '' @ fmt_1f mem]"
    using assms by (intro stats_file_lines newline_free_stats_br)
  have lab: "line_labels ?text = [''FPS:'', ''RES:'', ''BitRate:'', ''CPU:'', ''MEM:'', ''MEM_MB:'']"
    by (simp add: line_labels_def ls)
  have v1: "labelled_value ''FPS:'' ?text = Some (fmt_1f fpsv)"
    by (simp add: labelled_value_def ls)
  have v2: "labelled_value ''RES:'' ?text = Some (fmt_d (width ctx) @ ''x'' @ fmt_d (height ctx))"
    by (simp add: labelled_value_def ls)
  have v3: "labelled_value ''BitRate:'' ?text = Some (stats_br st)"
    by (simp add: labelled_value_def ls)
  have v4: "labelled_value ''CPU:'' ?text = Some (fmt_1f cpu @ ''%'')"
    by (simp add: labelled_value_def ls)
  have v5: "labelled_value ''MEM_MB:'' ?text = Some (fmt_1f mem)"
    by (simp add: labelled_value_def ls)
  have n2: "parse_wxh (fmt_d (width ctx) @ ''x'' @ fmt_d (height ctx))
       = Some (sint (width ctx), sint (height ctx))"
    unfolding fmt_d_def by (rule parse_wxh_fmt)
  from ls lab v1 v2 v3 v4 v5 n2 parse_1f_fmt_1f parse_percent_fmt_1f show ?thesis
    by simp
qed

lemma floor_rat_numeral_div:
  "\<lfloor>(numeral a :: rat) / numeral b\<rfloor> = numeral a div numeral b"
  using floor_divide_of_int_eq [of "numeral a" "numeral b", where ?'a = rat] by simp

lemma round_half_even_examples:
  "round_half_even (4795 / 16) = 300" "round_half_even 130 = 130"
  "round_half_even 400 = 400"
  by (simp_all add: round_half_even_def Let_def floor_rat_numeral_div)

lemma fmt_1f_examples:
  "fmt_1f (959 / 32) = ''30.0''" "fmt_1f 13 = ''13.0''" "fmt_1f 40 = ''40.0''"
  by (simp_all add: fmt_1f_def Let_def round_half_even_examples show_nat.simps digit_char_def)

lemma stats_example_text:
  "stats_file_text ctx_example (959 / 32) (stats_br st_parsed) 13 40 =
     ''FPS: 30.0\<newline>RES: 1280x720\<newline>BitRate: 2048.0kbits/s\<newline>'' @
     ''CPU: 13.0%\<newline>MEM: 0.0%\<newline>MEM_MB: 40.0\<newline>''"
  by (simp add: stats_file_text_def fmt_1f_examples fmt_1f_zero stats_br_def st_parsed_def
      snprintf_def ctx_example_def fmt_d_def show_int_def show_nat.simps digit_char_def)

text \<open>
  C6 as stated fails for the frame rate 29.96875, bitrate word \<^verbatim>\<open>2048.0kbits/s\<close>, 13 percent
  CPU and 40 MB at 1280x720: the labels of the written lines are not the five fixed ones
  (a MEM: line stands before MEM\_MB:), and the frame rate read back is 30.
\<close>

theorem stats_file_has_sixth_line:
  "line_labels (stats_file_text ctx_example (959 / 32) (stats_br st_parsed) 13 40)
     \<noteq> [''FPS:'', ''RES:'', ''BitRate:'', ''CPU:'', ''MEM_MB:'']
   \<and> file_lines (stats_file_text ctx_example (959 / 32) (stats_br st_parsed) 13 40) =
       [''FPS: 30.0'', ''RES: 1280x720'', ''BitRate: 2048.0kbits/s'', ''CPU: 13.0%'',
        ''MEM: 0.0%'', ''MEM_MB: 40.0'']
   \<and> Option.bind (labelled_value ''FPS:''
         (stats_file_text ctx_example (959 / 32) (stats_br st_parsed) 13 40)) parse_1f
       = Some 30
   \<and> (30 :: rat) \<noteq> 959 / 32"
  unfolding stats_example_text
  by (simp add: line_labels_def file_lines_def labelled_value_def parse_1f_def read_nat_def
      digit_val_def)

theorem stats_file_round_trip_witness:
  "labelled_value ''BitRate:'' (stats_file_text ctx_example (959 / 32) (stats_br st_parsed) 13 40)
     = Some ''2048.0kbits/s''
   \<and> labelled_value ''MEM_MB:'' (stats_file_text ctx_example (959 / 32) (stats_br st_parsed) 13 40)
     = Some ''40.0''
   \<and> parse_1f ''30.0'' = Some 30"
proof -
  have nl: "CHR 0x0A \<notin> set (latest_bitrate st_parsed)"
    by (simp add: st_parsed_def)
  have r: "round_1f (959 / 32) = 30"
    by (simp add: round_1f_def round_half_even_def Let_def floor_rat_numeral_div)
  from stats_file_round_trip [OF nl, of ctx_example "959 / 32" 13 40] r show ?thesis
    by (simp add: fmt_1f_examples stats_br_def st_parsed_def snprintf_def)
qed


subsection \<open>C1, C4: the CPU percentage and the resident memory\<close>

lemma scan_llus_numeral:
  "scan_llus (numeral k) s =
     (case scan_llu s of None \<Rightarrow> [] | Some (v, rest) \<Rightarrow> v # scan_llus (pred_numeral k) rest)"
  by (simp add: numeral_eq_Suc split: option.splits)

lemma to_double_0 [simp]: "to_double 0 = 0"
  by (simp add: to_double_def)

lemma cstring_append: "CHR 0x00 \<notin> set xs \<Longrightarrow> cstring (xs @ ys) = xs @ cstring ys"
  by (induction xs) (auto simp: cstring_def)

lemma cstring_terminated: "cstring (xs @ CHR 0x00 # ys) = cstring xs"
  by (induction xs) (simp_all add: cstring_def)

lemma cstring_subset: "set (cstring xs) \<subseteq> set xs"
  unfolding cstring_def by (auto dest: set_takeWhileD)

lemma strrchr_None: "c \<notin> set xs \<Longrightarrow> strrchr xs c = None"
  by (induction xs) auto

lemma strrchr_last: "c \<notin> set ys \<Longrightarrow> strrchr (xs @ c # ys) c = Some (length xs)"
  by (induction xs) (simp_all add: strrchr_None)

lemma state_letter_chars:
  assumes "state_letter c"
  shows "\<not> isspace c" "c \<noteq> CHR ''-''" "c \<noteq> CHR ''+''" "digit_of c = None"
    "c \<noteq> CHR '')''" "c \<noteq> CHR 0x00"
proof -
  from assms have "c = CHR ''R'' \<or> c = CHR ''S'' \<or> c = CHR ''D'' \<or> c = CHR ''Z''
      \<or> c = CHR ''T'' \<or> c = CHR ''t'' \<or> c = CHR ''W'' \<or> c = CHR ''X'' \<or> c = CHR ''x''
      \<or> c = CHR ''K'' \<or> c = CHR ''P'' \<or> c = CHR ''I''"
    by (simp add: state_letter_def)
  then show "\<not> isspace c" "c \<noteq> CHR ''-''" "c \<noteq> CHR ''+''" "digit_of c = None"
    "c \<noteq> CHR '')''" "c \<noteq> CHR 0x00"
    by (elim disjE; simp add: isspace_def digit_of_def)+
qed

lemma state_letter_scan: "state_letter c \<Longrightarrow> scan_llu (c # x) = None"
  using state_letter_chars [of c]
  by (simp add: scan_llu_def scan_number_def scan_sign_def)

text \<open>
  On a text of the kernel's layout the scan of \<^verbatim>\<open>read_proc_pid_stat\<close> starts at the state
  letter, the first \<^verbatim>\<open>%llu\<close> converts nothing, and the function returns -1.
\<close>

lemma read_proc_pid_stat_layout:
  assumes f: "sm_pid_stat s pid = Some bytes" and lay: "proc_layout bytes"
  shows "read_proc_pid_stat s pid = None"
proof -
  from lay obtain pre c rest where
    b: "bytes = pre @ '') '' @ c # rest" and c: "state_letter c" and
    nr: "CHR '')'' \<notin> set rest" and nz: "CHR 0x00 \<notin> set pre" and len: "length pre + 3 \<le> 4095"
    unfolding proc_layout_def by blast
  define k where "k = 4095 - (length pre + 3)"
  define tail where "tail = take k rest @ CHR 0x00 # sm_junk s pid"
  have k3: "4095 - length pre = Suc (Suc (Suc k))"
    using len by (simp add: k_def)
  have "take 4095 bytes = take 4095 pre @ take (4095 - length pre) ('') '' @ c # rest)"
    unfolding b by (rule take_append)
  also have "take 4095 pre = pre"
    using len by (intro take_all) simp
  also have "take (4095 - length pre) ('') '' @ c # rest) = '') '' @ c # take k rest"
    unfolding k3 by simp
  finally have tk: "take 4095 bytes = pre @ '') '' @ c # take k rest" .
  have mem: "take 4095 bytes @ [CHR 0x00] @ sm_junk s pid = pre @ '') '' @ c # tail"
    by (simp add: tk tail_def)
  have ct: "cstring tail = cstring (take k rest)"
    unfolding tail_def by (rule cstring_terminated)
  have cs: "cstring (pre @ '') '' @ c # tail) = pre @ CHR '')'' # (CHR '' '' # c # cstring tail)"
    using nz state_letter_chars [OF c] by (simp add: cstring_append) (simp add: cstring_def)
  have "set (cstring tail) \<subseteq> set rest"
    unfolding ct using cstring_subset [of "take k rest"] set_take_subset [of k rest] by blast
  then have "CHR '')'' \<notin> set (CHR '' '' # c # cstring tail)"
    using nr state_letter_chars [OF c] by auto
  then have rp: "strrchr (cstring (pre @ '') '' @ c # tail)) CHR '')'' = Some (length pre)"
    unfolding cs by (rule strrchr_last)
  have dr: "drop (length pre + 2) (pre @ '') '' @ c # tail) = c # tail"
    by simp
  have p: "cstring (c # tail) = c # cstring tail"
    using state_letter_chars [OF c] by (simp add: cstring_def)
  have "scan_llus 12 (c # cstring tail) = []"
    by (simp add: scan_llus_numeral state_letter_scan [OF c])
  then show ?thesis
    unfolding read_proc_pid_stat_def f option.case Let_def mem rp dr p by simp
qed

lemma sum_deltas_zero:
  "\<forall>x \<in> set xs. x = ((0, 0), (0, 0)) \<Longrightarrow> sum_deltas acc xs = acc"
  by (induction xs arbitrary: acc) auto

lemma cpu_percent_no_ticks:
  assumes "\<forall>p \<in> set pids. read_ticks s0 p = (0, 0) \<and> read_ticks s1 p = (0, 0)"
  shows "cpu_percent_for_pids pids s0 s1 = 0"
proof -
  have "\<forall>x \<in> set (zip (map (read_ticks s0) pids) (map (read_ticks s1) pids)). x = ((0, 0), (0, 0))"
    using assms by (auto simp: set_zip)
  then have "sum_deltas 0 (zip (map (read_ticks s0) pids) (map (read_ticks s1) pids)) = 0"
    by (rule sum_deltas_zero)
  then show ?thesis
    by (simp add: cpu_percent_for_pids_def Let_def split: option.splits)
qed

lemma sum_rss_unreadable:
  "\<forall>p \<in> set pids. 0 < sint p \<longrightarrow> read_proc_pid_stat s p = None \<Longrightarrow> sum_rss s acc pids = acc"
  by (induction pids arbitrary: acc) auto

text \<open>
  Whatever the counters are, when at each read point the file of every tracked process
  is either missing or of the kernel's layout, the CPU percentage and the resident memory
  are both 0.
\<close>

theorem proc_layout_reads_nothing:
  assumes "\<forall>p \<in> set pids. 0 < sint p \<longrightarrow>
             (\<forall>s \<in> {s0, s1, s2}. sm_pid_stat s p = None
                 \<or> (\<exists>b. sm_pid_stat s p = Some b \<and> proc_layout b))"
  shows "cpu_percent_for_pids pids s0 s1 = 0 \<and> rss_mb_for_pids pids s2 = 0"
proof -
  have r: "read_proc_pid_stat s p = None"
    if "p \<in> set pids" "0 < sint p" "s \<in> {s0, s1, s2}" for s p
  proof -
    from assms that have "sm_pid_stat s p = None \<or> (\<exists>b. sm_pid_stat s p = Some b \<and> proc_layout b)"
      by auto
    then show ?thesis
      using read_proc_pid_stat_layout by (auto simp: read_proc_pid_stat_def)
  qed
  have "\<forall>p \<in> set pids. read_ticks s0 p = (0, 0) \<and> read_ticks s1 p = (0, 0)"
    using r by (auto simp: read_ticks_def)
  then have a: "cpu_percent_for_pids pids s0 s1 = 0"
    by (rule cpu_percent_no_ticks)
  have "sum_rss s2 0 pids = 0"
    using r by (intro sum_rss_unreadable) auto
  then have b: "rss_mb_for_pids pids s2 = 0"
    by (simp add: rss_mb_for_pids_def)
  from a b show ?thesis by simp
qed

text \<open>The example texts are of that layout, and the theorem applies to them.\<close>

lemma proc_layout_examples:
  "proc_layout stat_2002_t0" "proc_layout stat_2002_t1"
  "proc_layout stat_2001_t0" "proc_layout stat_2001_t1"
proof -
  have l: "proc_layout (pre @ '') '' @ CHR ''S'' # rest)"
    if "CHR '')'' \<notin> set rest" "CHR 0x00 \<notin> set pre" "length pre + 3 \<le> 4095" for pre rest
    unfolding proc_layout_def using that by (auto simp: state_letter_def)
  have "stat_2002_t0 = ''2002 (ffmpeg'' @ '') '' @ CHR ''S'' # drop 15 stat_2002_t0"
    "stat_2002_t1 = ''2002 (ffmpeg'' @ '') '' @ CHR ''S'' # drop 15 stat_2002_t1"
    "stat_2001_t0 = ''2001 (ffmpeg'' @ '') '' @ CHR ''S'' # drop 15 stat_2001_t0"
    "stat_2001_t1 = ''2001 (ffmpeg'' @ '') '' @ CHR ''S'' # drop 15 stat_2001_t1"
    by (simp_all add: stat_2002_t0_def stat_2002_t1_def stat_2001_t0_def stat_2001_t1_def)
  moreover have "CHR '')'' \<notin> set (drop 15 stat_2002_t0)" "CHR '')'' \<notin> set (drop 15 stat_2002_t1)"
    "CHR '')'' \<notin> set (drop 15 stat_2001_t0)" "CHR '')'' \<notin> set (drop 15 stat_2001_t1)"
    by (simp_all add: stat_2002_t0_def stat_2002_t1_def stat_2001_t0_def stat_2001_t1_def)
  ultimately show "proc_layout stat_2002_t0" "proc_layout stat_2002_t1"
    "proc_layout stat_2001_t0" "proc_layout stat_2001_t1"
    using l [of "drop 15 stat_2002_t0" "''2002 (ffmpeg''"]
      l [of "drop 15 stat_2002_t1" "''2002 (ffmpeg''"]
      l [of "drop 15 stat_2001_t0" "''2001 (ffmpeg''"]
      l [of "drop 15 stat_2001_t1" "''2001 (ffmpeg''"]
    by simp_all
qed

lemma proc_layout_reads_nothing_example:
  "cpu_percent_for_pids [2002, 2001] sample_t0 sample_t1_gone = 0
   \<and> rss_mb_for_pids [2002, 2001] sample_t1_gone = 0"
  by (rule proc_layout_reads_nothing)
    (simp add: sample_t0_def sample_t1_gone_def proc_layout_examples)

lemmas scan_defs = scan_llus_numeral scan_llu_def scan_number_def scan_sign_def isspace_def
  digit_of_def

lemma sample_stat_reads:
  "read_proc_stat_total sample_t0 =
     Some \<lparr>user = 400, nice = 0, sys = 100, idle = 480, iow = 20, irq = 0, sirq = 0\<rparr>"
  "read_proc_stat_total sample_t1 =
     Some \<lparr>user = 460, nice = 0, sys = 120, idle = 500, iow = 20, irq = 0, sirq = 0\<rparr>"
  "read_proc_stat_total sample_t1_gone =
     Some \<lparr>user = 460, nice = 0, sys = 120, idle = 500, iow = 20, irq = 0, sirq = 0\<rparr>"
  by (simp_all add: read_proc_stat_total_def sample_t0_def sample_t1_def sample_t1_gone_def
      fgets_def cstring_def store_cpu_def scan_defs Let_def)

lemma sample_pid_reads:
  "read_proc_pid_stat sample_t0 2002 = None" "read_proc_pid_stat sample_t0 2001 = None"
  "read_proc_pid_stat sample_t1 2002 = None" "read_proc_pid_stat sample_t1 2001 = None"
  "read_proc_pid_stat sample_t1_gone 2002 = None" "read_proc_pid_stat sample_t1_gone 2001 = None"
  by (simp_all add: read_proc_pid_stat_def sample_t0_def sample_t1_def sample_t1_gone_def
      stat_2002_t0_def stat_2002_t1_def stat_2001_t0_def stat_2001_t1_def cstring_def
      scan_defs Let_def)

lemma sample_ticks_in_files:
  "drop 10 (scan_llus 12 (drop 16 stat_2002_t0)) = [700, 300]"
  "drop 10 (scan_llus 12 (drop 16 stat_2002_t1)) = [709, 303]"
  "drop 10 (scan_llus 12 (drop 16 stat_2001_t0)) = [50, 10]"
  "drop 10 (scan_llus 12 (drop 16 stat_2001_t1)) = [51, 10]"
  by (simp_all add: stat_2002_t0_def stat_2002_t1_def stat_2001_t0_def stat_2001_t1_def
      scan_defs)

lemma sample_vmrss: "read_vmrss (Some status_example) = 40960"
  by (simp add: read_vmrss_def status_example_def cstring_def scan_ld_def scan_number_def
      scan_sign_def isspace_def digit_of_def LONG_MAX_def Let_def)

text \<open>
  C1. Two tracked processes in a sampling interval of 100 system-wide ticks (the totals
  of the first line of \<^verbatim>\<open>/proc/stat\<close> are 1000 and 1100). The files of process 2002 show
  700 and 300 ticks before the sleep and 709 and 303 after it, those of process 2001 show
  50 and 10, then 51 and 10: 13 ticks of the processes, 13 percent. The scan of
  \<^verbatim>\<open>read_proc_pid_stat\<close> starts at the state letter \<^verbatim>\<open>S\<close>, two bytes after the \<^verbatim>\<open>)\<close>, and
  not at the field behind it, so all four reads return -1, every slot stays 0 and the
  result is 0.
\<close>

theorem cpu_percent_busy_processes:
  "cpu_percent_for_pids [2002, 2001] sample_t0 sample_t1 = 0
   \<and> Option.bind (read_proc_stat_total sample_t0) (Some \<circ> cpu_total) = Some 1000
   \<and> Option.bind (read_proc_stat_total sample_t1) (Some \<circ> cpu_total) = Some 1100
   \<and> sm_pid_stat sample_t0 2002 = Some stat_2002_t0
   \<and> sm_pid_stat sample_t1 2002 = Some stat_2002_t1
   \<and> sm_pid_stat sample_t0 2001 = Some stat_2001_t0
   \<and> sm_pid_stat sample_t1 2001 = Some stat_2001_t1
   \<and> drop 10 (scan_llus 12 (drop 16 stat_2002_t0)) = [700, 300]
   \<and> drop 10 (scan_llus 12 (drop 16 stat_2002_t1)) = [709, 303]
   \<and> drop 10 (scan_llus 12 (drop 16 stat_2001_t0)) = [50, 10]
   \<and> drop 10 (scan_llus 12 (drop 16 stat_2001_t1)) = [51, 10]
   \<and> read_proc_pid_stat sample_t0 2002 = None \<and> read_proc_pid_stat sample_t1 2002 = None
   \<and> read_proc_pid_stat sample_t0 2001 = None \<and> read_proc_pid_stat sample_t1 2001 = None"
proof -
  have "cpu_percent_for_pids [2002, 2001] sample_t0 sample_t1 = 0"
    by (rule cpu_percent_no_ticks) (simp add: read_ticks_def sample_pid_reads)
  moreover have "sm_pid_stat sample_t0 2002 = Some stat_2002_t0"
    "sm_pid_stat sample_t1 2002 = Some stat_2002_t1"
    "sm_pid_stat sample_t0 2001 = Some stat_2001_t0"
    "sm_pid_stat sample_t1 2001 = Some stat_2001_t1"
    by (simp_all add: sample_t0_def sample_t1_def)
  ultimately show ?thesis
    by (simp add: sample_stat_reads sample_pid_reads sample_ticks_in_files cpu_total_def)
qed

text \<open>
  C4. The same interval, but process 2001 has exited before the second read point: its
  files cannot be opened any more. Process 2002 is alive, its files show 12 ticks in the
  interval and a resident set of 40960 kB. The exited process contributes nothing and the
  turn of \<^verbatim>\<open>stats_writer\<close> completes and writes the file, but the contribution of process
  2002 is not reported either: its reads return -1 as well, and the file shows 0.0
  percent and 0.0 MB.
\<close>

theorem exited_process_cycle:
  "sm_pid_stat sample_t1_gone 2001 = None \<and> sm_pid_status sample_t1_gone 2001 = None
   \<and> sm_pid_stat sample_t0 2002 = Some stat_2002_t0
   \<and> sm_pid_stat sample_t1_gone 2002 = Some stat_2002_t1
   \<and> drop 10 (scan_llus 12 (drop 16 stat_2002_t0)) = [700, 300]
   \<and> drop 10 (scan_llus 12 (drop 16 stat_2002_t1)) = [709, 303]
   \<and> read_vmrss (sm_pid_status sample_t1_gone 2002) = 40960
   \<and> read_proc_pid_stat sample_t0 2002 = None
   \<and> read_proc_pid_stat sample_t1_gone 2002 = None
   \<and> cpu_percent_for_pids [2002, 2001] sample_t0 sample_t1_gone = 0
   \<and> rss_mb_for_pids [2002, 2001] sample_t1_gone = 0
   \<and> stats_writer_cycle ctx_example [2002, 2001] cycle_gone =
       Some (''FPS: 30.0\<newline>RES: 1280x720\<newline>BitRate: 2048.0kbits/s\<newline>'' @
             ''CPU: 0.0%\<newline>MEM: 0.0%\<newline>MEM_MB: 0.0\<newline>'')"
proof -
  have c: "cpu_percent_for_pids [2002, 2001] sample_t0 sample_t1_gone = 0"
    by (rule cpu_percent_no_ticks) (simp add: read_ticks_def sample_pid_reads)
  have r: "rss_mb_for_pids [2002, 2001] sample_t1_gone = 0"
    by (simp add: rss_mb_for_pids_def sample_pid_reads)
  have f: "sm_pid_stat sample_t1_gone 2001 = None" "sm_pid_status sample_t1_gone 2001 = None"
    "sm_pid_stat sample_t0 2002 = Some stat_2002_t0"
    "sm_pid_stat sample_t1_gone 2002 = Some stat_2002_t1"
    "sm_pid_status sample_t1_gone 2002 = Some status_example"
    by (simp_all add: sample_t0_def sample_t1_gone_def)
  have w: "stats_writer_cycle ctx_example [2002, 2001] cycle_gone =
       Some (''FPS: 30.0\<newline>RES: 1280x720\<newline>BitRate: 2048.0kbits/s\<newline>'' @
             ''CPU: 0.0%\<newline>MEM: 0.0%\<newline>MEM_MB: 0.0\<newline>'')"
    by (simp add: stats_writer_cycle_def cycle_gone_def c r stats_file_text_def fmt_1f_examples
        fmt_1f_zero stats_br_def st_parsed_def snprintf_def ctx_example_def fmt_d_def
        show_int_def show_nat.simps digit_char_def)
  from c r f w show ?thesis
    by (simp add: sample_pid_reads sample_ticks_in_files sample_vmrss)
qed

subsection \<open>A run with the overlay enabled\<close>

lemma cycle_example_text:
  "stats_writer_cycle c [2002, 2001] cycle_example =
     Some (stats_file_text c (959 / 32) ''2048.0kbits/s'' 0 0)"
proof -
  have "cpu_percent_for_pids [2002, 2001] sample_t0 sample_t1 = 0"
    by (rule cpu_percent_no_ticks) (simp add: read_ticks_def sample_pid_reads)
  moreover have "rss_mb_for_pids [2002, 2001] sample_t1 = 0"
    by (simp add: rss_mb_for_pids_def sample_pid_reads)
  ultimately show ?thesis
    by (simp add: stats_writer_cycle_def cycle_example_def stats_br_def st_parsed_def
        snprintf_def Let_def)
qed

text \<open>
  With the overlay enabled the stats thread does overwrite the placeholder: after one of
  its turns the status file holds the six lines of \<^verbatim>\<open>stats_writer\<close>.
\<close>

lemma overlay_enabled_overwrites_placeholder:
  "stats_file (fs_after (take 8 (main (env_example\<lparr>env_cycles := [cycle_example]\<rparr>) cfg_example 0 0)))
     = Some (''FPS: 30.0\<newline>RES: 1280x720\<newline>BitRate: 2048.0kbits/s\<newline>'' @
             ''CPU: 0.0%\<newline>MEM: 0.0%\<newline>MEM_MB: 0.0\<newline>'')"
  by (simp add: run_defs env_example_def cfg_example_def qc_example_def cycle_example_text
      fs_after_def stats_file_text_def fmt_1f_examples fmt_1f_zero fmt_d_def show_int_def
      show_nat.simps digit_char_def)

end
